(* ===== verification/Prelude.thy ===== *)
theory Prelude
  imports Main "HOL-Library.Word" "HOL-Library.AList"
begin

text \<open>
  Shared vocabulary of the development: Go byte slices and strings, the named
  collections of hints, and the small data-structure idioms that several parts of the
  program repeat (a slice capped at a length, a buffered channel written with
  \<^verbatim>\<open>select { case ch <- x: default: }\<close>, length-prefixed framing). Each idiom is
  a definition together with a locale that states the contract its users rely on.
\<close>

named_theorems cfg \<open>values of configuration constants\<close>
named_theorems frame \<open>fields that an operation leaves alone\<close>

text \<open>
  A Go string is an immutable byte sequence and a \<^verbatim>\<open>[]byte\<close> is a byte
  sequence as well; HOL characters are bytes, so both are lists of characters and the
  conversions between them are the identity.
\<close>

type_synonym bytes = "char list"

text \<open>A Go map from strings to strings; the order is that of a \<^verbatim>\<open>range\<close>.\<close>

type_synonym strmap = "(string \<times> string) list"

abbreviation byte :: "nat \<Rightarrow> char" where
  "byte n \<equiv> char_of n"

abbreviation code :: "char \<Rightarrow> nat" where
  "code c \<equiv> of_char c"

lemma code_less: "code c < 256"
  by (rule nat_of_char_less_256)

lemma code_byte: "n < 256 \<Longrightarrow> code (byte n) = n"
  by simp

section \<open>Capped slices\<close>

text \<open>
  \<^verbatim>\<open>xs = append(xs, x); if len(xs) > n { xs = xs[len(xs)-n:] }\<close>: the idiom of
  the event log, the console history, the message memory and the chat rows.
\<close>

definition push_cap :: "nat \<Rightarrow> 'a \<Rightarrow> 'a list \<Rightarrow> 'a list" where
  "push_cap n x xs =
     (let ys = xs @ [x] in if length ys > n then drop (length ys - n) ys else ys)"

definition lastn :: "nat \<Rightarrow> 'a list \<Rightarrow> 'a list" where
  "lastn n xs = drop (length xs - n) xs"

lemma length_lastn [simp]: "length (lastn n xs) = min n (length xs)"
  by (simp add: lastn_def)

lemma push_cap_lastn: "push_cap n x xs = lastn n (xs @ [x])"
  by (simp add: push_cap_def lastn_def Let_def)

lemma lastn_lastn_append: "lastn n (lastn n xs @ ys) = lastn n (xs @ ys)"
  by (cases "length xs \<le> n") (auto simp: lastn_def add.commute)

lemma lastn_all: "length xs \<le> n \<Longrightarrow> lastn n xs = xs"
  by (simp add: lastn_def)

locale capped_log =
  fixes push :: "'e \<Rightarrow> 's \<Rightarrow> 's"
    and entries :: "'s \<Rightarrow> 'e list"
    and cap :: "'s \<Rightarrow> nat"
  assumes entries_push: "entries (push e s) = push_cap (cap s) e (entries s)"
    and cap_push: "cap (push e s) = cap s"
begin

lemma cap_fold: "cap (fold push es s) = cap s"
  by (induction es arbitrary: s) (simp_all add: cap_push)

lemma push_bounded: "length (entries (push e s)) \<le> cap s"
  by (simp add: entries_push push_cap_lastn)

lemma entries_fold:
  "length (entries s) \<le> cap s \<Longrightarrow> entries (fold push es s) = lastn (cap s) (entries s @ es)"
proof (induction es arbitrary: s)
  case Nil
  then show ?case by (simp add: lastn_all)
next
  case (Cons e es)
  have "length (entries (push e s)) \<le> cap (push e s)"
    using push_bounded by (simp add: cap_push)
  from Cons.IH [OF this] show ?case
    by (simp add: entries_push push_cap_lastn cap_push lastn_lastn_append)
qed

lemma fold_bounded:
  "length (entries s) \<le> cap s \<Longrightarrow> length (entries (fold push es s)) \<le> cap s"
  by (simp add: entries_fold)

lemma newest_kept: "0 < cap s \<Longrightarrow> entries (push e s) \<noteq> [] \<and> last (entries (push e s)) = e"
  by (auto simp: entries_push push_cap_def Let_def)

end

section \<open>Buffered channels written without blocking\<close>

text \<open>
  \<^verbatim>\<open>select { case ch <- x: ...; default: ... }\<close> on a channel of capacity
  \<open>n\<close>: the value is queued when a slot is free, otherwise the default branch runs. The
  flag tells the caller which branch was taken.
\<close>

definition try_send :: "nat \<Rightarrow> 'a \<Rightarrow> 'a list \<Rightarrow> 'a list \<times> bool" where
  "try_send n x q = (if length q < n then (q @ [x], True) else (q, False))"

lemma try_send_bound: "length q \<le> n \<Longrightarrow> length (fst (try_send n x q)) \<le> n"
  by (simp add: try_send_def)

lemma try_send_prefix: "\<exists>d. fst (try_send n x q) = q @ d \<and> set d \<subseteq> {x}"
  by (simp add: try_send_def)

section \<open>Big-endian integers\<close>

definition be32 :: "nat \<Rightarrow> bytes" where
  "be32 n = [byte (n div 2 ^ 24), byte (n div 2 ^ 16), byte (n div 2 ^ 8), byte n]"

fun rd_be32 :: "bytes \<Rightarrow> nat" where
  "rd_be32 [a, b, c, d] = code a * 2 ^ 24 + code b * 2 ^ 16 + code c * 2 ^ 8 + code d"
| "rd_be32 _ = 0"

lemma length_be32 [simp]: "length (be32 n) = 4"
  by (simp add: be32_def)

lemma mod_2_32_bytes:
  "(n::nat) mod 2 ^ 32 =
     n div 2 ^ 24 mod 256 * 2 ^ 24 + n div 2 ^ 16 mod 256 * 2 ^ 16
       + n div 2 ^ 8 mod 256 * 2 ^ 8 + n mod 256"
proof -
  have "n mod (2 ^ 24 * 256) = 2 ^ 24 * (n div 2 ^ 24 mod 256) + n mod 2 ^ 24"
    by (rule mod_mult2_eq)
  moreover have "n mod (2 ^ 16 * 256) = 2 ^ 16 * (n div 2 ^ 16 mod 256) + n mod 2 ^ 16"
    by (rule mod_mult2_eq)
  moreover have "n mod (2 ^ 8 * 256) = 2 ^ 8 * (n div 2 ^ 8 mod 256) + n mod 2 ^ 8"
    by (rule mod_mult2_eq)
  ultimately show ?thesis by simp
qed

lemma rd_be32_be32: "rd_be32 (be32 n) = n mod 2 ^ 32"
  unfolding mod_2_32_bytes by (simp add: be32_def)

lemma be32_inj: "m < 2 ^ 32 \<Longrightarrow> n < 2 ^ 32 \<Longrightarrow> be32 m = be32 n \<Longrightarrow> m = n"
  by (metis mod_less rd_be32_be32)

lemma rd_be32_less: "rd_be32 bs < 2 ^ 32"
proof (cases bs rule: rd_be32.cases)
  case (1 a b c d)
  have "code a \<le> 255" "code b \<le> 255" "code c \<le> 255" "code d \<le> 255"
    using code_less [of a] code_less [of b] code_less [of c] code_less [of d] by linarith+
  then show ?thesis unfolding 1 by simp
qed simp_all

lemma shift_byte: "d < 256 \<Longrightarrow> (x * 256 + d) div 2 ^ 8 = (x::nat)"
  by simp

lemma be32_rd_be32: "length bs = 4 \<Longrightarrow> be32 (rd_be32 bs) = bs"
proof -
  assume "length bs = 4"
  then obtain a b c d where bs: "bs = [a, b, c, d]"
    by (auto simp: length_Suc_conv numeral_eq_Suc)
  let ?n = "rd_be32 bs"
  have n: "?n = ((code a * 256 + code b) * 256 + code c) * 256 + code d"
    by (simp add: bs)
  have n8: "?n div 2 ^ 8 = (code a * 256 + code b) * 256 + code c"
    unfolding n by (rule shift_byte [OF code_less])
  have "?n div (2 ^ 8 * 2 ^ 8) = ?n div 2 ^ 8 div 2 ^ 8"
    by (rule div_mult2_eq)
  also have "\<dots> = code a * 256 + code b"
    unfolding n8 by (rule shift_byte [OF code_less])
  finally have n16: "?n div 2 ^ 16 = code a * 256 + code b" by simp
  have "?n div (2 ^ 16 * 2 ^ 8) = ?n div 2 ^ 16 div 2 ^ 8"
    by (rule div_mult2_eq)
  also have "\<dots> = code a"
    unfolding n16 by (rule shift_byte [OF code_less])
  finally have n24: "?n div 2 ^ 24 = code a" by simp
  have last: "byte (k * 256 + code x) = x" for k and x :: char
  proof -
    have "byte (k * 256 + code x) = byte ((k * 256 + code x) mod 256)"
      by (rule char_of_mod_256 [symmetric])
    also have "(k * 256 + code x) mod 256 = code x"
      using code_less [of x] by (simp add: mod_add_eq)
    finally show ?thesis by simp
  qed
  have "be32 ?n = [byte (code a), byte (code a * 256 + code b),
      byte ((code a * 256 + code b) * 256 + code c), byte ?n]"
    unfolding be32_def n8 n16 n24 ..
  then show ?thesis unfolding n last by (simp add: bs)
qed

section \<open>Self-delimiting encodings\<close>

text \<open>
  A writer \<open>put\<close> and a reader \<open>get\<close> that takes one item off the front of a byte
  stream. Everything a peer can rely on when several items are written one after the
  other follows from the single law \<open>get_put\<close>.
\<close>

locale framing =
  fixes put :: "'a \<Rightarrow> bytes"
    and get :: "bytes \<Rightarrow> ('a \<times> bytes) option"
    and ok :: "'a \<Rightarrow> bool"
  assumes get_put: "ok x \<Longrightarrow> get (put x @ rest) = Some (x, rest)"
begin

fun gets :: "nat \<Rightarrow> bytes \<Rightarrow> ('a list \<times> bytes) option" where
  "gets 0 bs = Some ([], bs)"
| "gets (Suc n) bs =
     (case get bs of None \<Rightarrow> None
      | Some (x, rest) \<Rightarrow> map_option (\<lambda>(xs, r). (x # xs, r)) (gets n rest))"

lemma gets_puts:
  "\<forall>x \<in> set xs. ok x \<Longrightarrow> gets (length xs) (concat (map put xs) @ rest) = Some (xs, rest)"
  by (induction xs) (simp_all add: get_put)

lemma put_inj: "ok x \<Longrightarrow> ok y \<Longrightarrow> put x @ r = put y @ r' \<Longrightarrow> x = y \<and> r = r'"
  by (metis get_put option.inject prod.inject)

end

end
