(* ===== verification/Ratchet.thy ===== *)
theory Ratchet
  imports Prelude
begin

text \<open>
  \<^verbatim>\<open>internal/crypto/ratchet.go\<close>: the symmetric ratchet every sender key is made
  of. The HMAC-SHA256 of the standard library is the argument \<open>H\<close> (key, then data);
  nothing below depends on its value. Steps are 32-bit words and wrap as uint32 does. The
  ratchet is passed and returned in place of the mutated pointer; the mutex makes each
  method atomic, as each function is here.
\<close>

type_synonym hmac = "bytes \<Rightarrow> bytes \<Rightarrow> bytes"

record Ratchet =
  initialKey :: bytes
  chainKey :: bytes
  rstep :: "32 word"
  skippedKeys :: "32 word \<rightharpoonup> bytes"

datatype ratchet_error = PastMessage | TooFarAhead

definition NewRatchet :: "bytes \<Rightarrow> Ratchet" where
  "NewRatchet seed =
     \<lparr>initialKey = seed, chainKey = seed, rstep = 0, skippedKeys = Map.empty\<rparr>"

definition kdf :: "hmac \<Rightarrow> bytes \<Rightarrow> bytes \<times> bytes" where
  "kdf H ck = (H ck [byte 1], H ck [byte 2])"

definition GetInitialKey :: "Ratchet \<Rightarrow> bytes" where
  "GetInitialKey r = initialKey r"

definition Next :: "hmac \<Rightarrow> Ratchet \<Rightarrow> (bytes \<times> 32 word) \<times> Ratchet" where
  "Next H r =
     (let (mk, nextCk) = kdf H (chainKey r)
      in ((mk, rstep r), r\<lparr>chainKey := nextCk, rstep := rstep r + 1\<rparr>))"

text \<open>One iteration of the catch-up loop, and the loop.\<close>

definition skip_one :: "hmac \<Rightarrow> Ratchet \<Rightarrow> Ratchet" where
  "skip_one H r =
     (let (mk, nextCk) = kdf H (chainKey r)
      in r\<lparr>skippedKeys := (skippedKeys r)(rstep r \<mapsto> mk), chainKey := nextCk,
           rstep := rstep r + 1\<rparr>)"

lemma rstep_skip_one [simp]: "rstep (skip_one H r) = rstep r + 1"
  by (simp add: skip_one_def kdf_def)

lemma unat_top: "unat (- 1 :: 32 word) = 2 ^ 32 - 1"
  by (simp add: unsigned_minus_1_eq_mask mask_eq_exp_minus_1)

lemma unat_inc_ne: "s \<noteq> (- 1 :: 'a::len word) \<Longrightarrow> unat (s + 1) = Suc (unat s)"
proof -
  assume "s \<noteq> - 1"
  then have "s + 1 \<noteq> 0" by (metis add_diff_cancel diff_0)
  then have "1 + s \<noteq> 0" by (simp add: add.commute)
  then have "unat (1 + s) = Suc (unat s)" by (rule unatSuc)
  then show ?thesis by (simp add: add.commute)
qed

lemma unat_inc: "s < (t :: 'a::len word) \<Longrightarrow> unat (s + 1) = Suc (unat s)"
  by (rule unat_inc_ne) (metis word_n1_ge linorder_not_le)

function catch_up :: "hmac \<Rightarrow> 32 word \<Rightarrow> Ratchet \<Rightarrow> Ratchet" where
  "catch_up H t r = (if rstep r < t then catch_up H t (skip_one H r) else r)"
  by pat_completeness auto
termination
proof (relation "measure (\<lambda>(H, t, r). unat t - unat (rstep r))")
  fix H :: hmac and t :: "32 word" and r :: Ratchet
  assume "rstep r < t"
  then have "unat (rstep r + 1) = Suc (unat (rstep r))" "unat (rstep r) < unat t"
    by (rule unat_inc, simp add: word_less_nat_alt)
  then show "((H, t, skip_one H r), (H, t, r)) \<in> measure (\<lambda>(H, t, r). unat t - unat (rstep r))"
    by simp
qed simp

declare catch_up.simps [simp del]

definition GetMessageKey ::
  "hmac \<Rightarrow> 32 word \<Rightarrow> Ratchet \<Rightarrow> (ratchet_error + bytes) \<times> Ratchet" where
  "GetMessageKey H t r =
     (case skippedKeys r t of
        Some mk \<Rightarrow> (Inr mk, r\<lparr>skippedKeys := (skippedKeys r)(t := None)\<rparr>)
      | None \<Rightarrow>
          if t < rstep r then (Inl PastMessage, r)
          else if t - rstep r > 100 then (Inl TooFarAhead, r)
          else let r1 = catch_up H t r; (mk, nextCk) = kdf H (chainKey r1)
               in (Inr mk, r1\<lparr>chainKey := nextCk, rstep := rstep r1 + 1\<rparr>))"

section \<open>The chain a seed stands for\<close>

definition chain_at :: "hmac \<Rightarrow> bytes \<Rightarrow> nat \<Rightarrow> bytes" where
  "chain_at H seed n = ((\<lambda>ck. snd (kdf H ck)) ^^ n) seed"

definition key_at :: "hmac \<Rightarrow> bytes \<Rightarrow> nat \<Rightarrow> bytes" where
  "key_at H seed n = fst (kdf H (chain_at H seed n))"

lemma chain_at_0 [simp]: "chain_at H seed 0 = seed"
  by (simp add: chain_at_def)

lemma chain_at_Suc: "chain_at H seed (Suc n) = snd (kdf H (chain_at H seed n))"
  by (simp add: chain_at_def)

text \<open>
  The representation invariant: the chain key is the one of the current step, and a stored
  skipped key is the key of an earlier step. \<open>used\<close> is the set of steps whose key has
  been handed out; every step behind the current one is either used or stored.
\<close>

definition ratchet_inv :: "hmac \<Rightarrow> bytes \<Rightarrow> 32 word set \<Rightarrow> Ratchet \<Rightarrow> bool" where
  "ratchet_inv H seed used r \<longleftrightarrow>
     initialKey r = seed \<and>
     chainKey r = chain_at H seed (unat (rstep r)) \<and>
     (\<forall>i k. skippedKeys r i = Some k \<longrightarrow> k = key_at H seed (unat i)) \<and>
     {i. i < rstep r} = used \<union> dom (skippedKeys r) \<and>
     used \<inter> dom (skippedKeys r) = {}"

lemma ratchet_inv_new: "ratchet_inv H seed {} (NewRatchet seed)"
  by (auto simp: ratchet_inv_def NewRatchet_def word_less_nat_alt)

lemma below_inc: "s < (t :: 32 word) \<Longrightarrow> {i. i < s + 1} = insert s {i. i < s}"
  using unat_inc [of s t] by (auto simp: word_less_nat_alt less_Suc_eq word_unat_eq_iff)

lemma below_inc_ne: "s \<noteq> (- 1 :: 32 word) \<Longrightarrow> {i. i < s + 1} = insert s {i. i < s}"
  using unat_inc_ne [of s] by (auto simp: word_less_nat_alt less_Suc_eq word_unat_eq_iff)

lemma skip_one_inv:
  assumes "ratchet_inv H seed used r" and "rstep r < t"
  shows "ratchet_inv H seed used (skip_one H r)"
proof -
  have "rstep r \<notin> {i. i < rstep r}" by simp
  with assms show ?thesis
    by (auto simp: ratchet_inv_def skip_one_def kdf_def unat_inc chain_at_Suc key_at_def
        below_inc)
qed

lemma catch_up_inv:
  "ratchet_inv H seed used r \<Longrightarrow> rstep r \<le> t \<Longrightarrow>
     ratchet_inv H seed used (catch_up H t r) \<and> rstep (catch_up H t r) = t"
proof (induction H t r rule: catch_up.induct)
  case (1 H t r)
  show ?case
  proof (cases "rstep r < t")
    case True
    then have "rstep r + 1 \<le> t" by (simp add: inc_le)
    with True 1 show ?thesis
      by (simp add: catch_up.simps [of H t r] skip_one_inv)
  next
    case False
    with 1 show ?thesis by (simp add: catch_up.simps [of H t r])
  qed
qed

lemma Next_inv:
  assumes "ratchet_inv H seed used r" and "rstep r \<noteq> - 1"
  shows "\<exists>r'. Next H r = ((key_at H seed (unat (rstep r)), rstep r), r') \<and>
           ratchet_inv H seed (insert (rstep r) used) r' \<and> rstep r' = rstep r + 1"
proof -
  have "rstep r \<notin> {i. i < rstep r}" by simp
  with assms show ?thesis
    by (auto simp: ratchet_inv_def Next_def kdf_def unat_inc_ne chain_at_Suc key_at_def
        below_inc_ne)
qed

text \<open>Every successful answer is the key of the step asked for, never handed out before.\<close>

lemma GetMessageKey_inv:
  assumes inv: "ratchet_inv H seed used r" and top: "t \<noteq> - 1"
    and res: "GetMessageKey H t r = (Inr k, r')"
  shows "k = key_at H seed (unat t) \<and> t \<notin> used \<and> ratchet_inv H seed (insert t used) r'"
proof (cases "skippedKeys r t")
  case (Some mk)
  with inv have "t < rstep r" "t \<notin> used"
    by (auto simp: ratchet_inv_def)
  with Some inv res show ?thesis
    by (auto simp: GetMessageKey_def ratchet_inv_def split: if_splits)
next
  case None
  with res have ge: "rstep r \<le> t"
    by (auto simp: GetMessageKey_def Let_def split: if_splits)
  let ?r1 = "catch_up H t r"
  have r1: "ratchet_inv H seed used ?r1" "rstep ?r1 = t"
    using catch_up_inv [OF inv ge] by auto
  from None res ge have eq: "(Inr k, r') = (let ((mk, st), r2) = Next H ?r1 in (Inr mk, r2))"
    by (auto simp: GetMessageKey_def Next_def Let_def kdf_def split: if_splits)
  have "t \<notin> used"
    using r1 by (auto simp: ratchet_inv_def)
  with eq Next_inv [OF r1(1)] r1(2) top show ?thesis by auto
qed

lemma GetMessageKey_error:
  "GetMessageKey H t r = (Inl e, r') \<Longrightarrow> r' = r"
  by (auto simp: GetMessageKey_def Let_def kdf_def split: option.splits if_splits prod.splits)

text \<open>Within the window a step that was not used yet is always answered.\<close>

lemma GetMessageKey_complete:
  assumes inv: "ratchet_inv H seed used r" and "t \<notin> used" and "t < rstep r \<or> t - rstep r \<le> 100"
  shows "\<exists>k r'. GetMessageKey H t r = (Inr k, r')"
proof (cases "skippedKeys r t")
  case (Some mk)
  then show ?thesis by (simp add: GetMessageKey_def)
next
  case None
  with inv assms(2) have "\<not> t < rstep r" by (auto simp: ratchet_inv_def)
  with None assms(3) show ?thesis
    by (auto simp: GetMessageKey_def Let_def kdf_def not_less)
qed

lemma GetMessageKey_used:
  assumes "ratchet_inv H seed used r" and "t \<in> used"
  shows "GetMessageKey H t r = (Inl PastMessage, r)"
  using assms by (auto simp: ratchet_inv_def GetMessageKey_def domIff split: option.splits)

section \<open>The interface the sender keys rely on\<close>

text \<open>
  A key chain: both ends start from a seed, the sender asks for the next key, the receiver
  for the key of a step. \<open>valid seed used r\<close> says that \<open>r\<close> is a state of the chain of
  \<open>seed\<close> in which the steps \<open>used\<close> were handed out.
\<close>

locale key_chain =
  fixes new :: "'seed \<Rightarrow> 'r"
    and send :: "'r \<Rightarrow> ('k \<times> 'n) \<times> 'r"
    and recv :: "'n \<Rightarrow> 'r \<Rightarrow> ('e + 'k) \<times> 'r"
    and key :: "'seed \<Rightarrow> 'n \<Rightarrow> 'k"
    and valid :: "'seed \<Rightarrow> 'n set \<Rightarrow> 'r \<Rightarrow> bool"
    and fits :: "'r \<Rightarrow> bool"
    and usable :: "'n \<Rightarrow> bool"
  assumes new_valid: "valid seed {} (new seed)"
    and send_key: "valid seed used r \<Longrightarrow> fits r \<Longrightarrow> send r = ((k, n), r') \<Longrightarrow>
          k = key seed n \<and> n \<notin> used \<and> valid seed (insert n used) r'"
    and recv_key: "valid seed used r \<Longrightarrow> usable n \<Longrightarrow> recv n r = (Inr k, r') \<Longrightarrow>
          k = key seed n \<and> n \<notin> used \<and> valid seed (insert n used) r'"
    and recv_error: "recv n r = (Inl e, r') \<Longrightarrow> r' = r"
begin

text \<open>The answers to a list of requests, and the steps among them that succeeded.\<close>

fun recvs :: "'n list \<Rightarrow> 'r \<Rightarrow> ('n \<times> ('e + 'k)) list \<times> 'r" where
  "recvs [] r = ([], r)"
| "recvs (n # ns) r =
     (let (a, r1) = recv n r; (as, r2) = recvs ns r1 in ((n, a) # as, r2))"

lemma recvs_steps: "map fst (fst (recvs ns r)) = ns"
  by (induction ns arbitrary: r) (simp_all add: case_prod_beta)

definition served :: "('n \<times> ('e + 'k)) list \<Rightarrow> 'n list" where
  "served as = map fst (filter (\<lambda>a. case snd a of Inr _ \<Rightarrow> True | Inl _ \<Rightarrow> False) as)"

lemma served_simps [simp]:
  "served [] = []"
  "served ((n, Inr k) # as) = n # served as"
  "served ((n, Inl e) # as) = served as"
  by (simp_all add: served_def)

lemma recvs_sound:
  "valid seed used r \<Longrightarrow> \<forall>n \<in> set ns. usable n \<Longrightarrow> recvs ns r = (as, r') \<Longrightarrow>
     (\<forall>n k. (n, Inr k) \<in> set as \<longrightarrow> k = key seed n) \<and>
     distinct (served as) \<and> set (served as) \<inter> used = {} \<and>
     valid seed (used \<union> set (served as)) r'"
proof (induction ns arbitrary: used r as)
  case Nil
  then show ?case by simp
next
  case (Cons n ns)
  obtain a r1 where a: "recv n r = (a, r1)" by fastforce
  obtain bs r2 where b: "recvs ns r1 = (bs, r2)" by fastforce
  from a b Cons.prems(3) have as: "as = (n, a) # bs" "r' = r2" by auto
  show ?case
  proof (cases a)
    case (Inl e)
    with a have "r1 = r" using recv_error by simp
    with Cons.IH [OF Cons.prems(1) _, of bs] Cons.prems(2) b as Inl show ?thesis by auto
  next
    case (Inr k)
    with a Cons.prems have "k = key seed n" "n \<notin> used" "valid seed (insert n used) r1"
      using recv_key by auto
    with Cons.IH [of "insert n used" r1 bs] Cons.prems(2) b as Inr show ?thesis by auto
  qed
qed

lemma agreement:
  "valid seed u a \<Longrightarrow> fits a \<Longrightarrow> send a = ((k, n), a') \<Longrightarrow>
   valid seed v b \<Longrightarrow> usable n \<Longrightarrow> recv n b = (Inr k', b') \<Longrightarrow> k' = k"
  using send_key recv_key by blast

end

interpretation rat: key_chain NewRatchet "Next H" "GetMessageKey H"
    "\<lambda>seed n. key_at H seed (unat n)" "ratchet_inv H" "\<lambda>r. rstep r \<noteq> - 1" "\<lambda>n. n \<noteq> - 1"
  for H
proof unfold_locales
  fix seed used r k n r'
  assume "ratchet_inv H seed used r" "rstep r \<noteq> - 1" "Next H r = ((k, n), r')"
  moreover have "rstep r \<notin> used"
    using calculation(1) by (auto simp: ratchet_inv_def)
  ultimately show "k = key_at H seed (unat n) \<and> n \<notin> used \<and> ratchet_inv H seed (insert n used) r'"
    using Next_inv by fastforce
qed (auto simp: ratchet_inv_new GetMessageKey_inv dest: GetMessageKey_error)

end
