(* ===== verification/SenderKeys.thy ===== *)
theory SenderKeys
  imports Ratchet
begin

text \<open>
  \<^verbatim>\<open>internal/crypto/sender.go\<close>: the per-member sender keys of a room. A
  \<^verbatim>\<open>SenderState\<close> holds pointers to ratchets, and the entry of its own nick in
  \<^verbatim>\<open>chains\<close> is the same object as \<^verbatim>\<open>myChain\<close>: the ratchets
  therefore live in a store, \<open>ratchets\<close>, and the map and \<open>myChain\<close> hold references into
  it. References at or above \<open>nextRef\<close> are not allocated yet.
\<close>

record SenderState =
  ratchets :: "nat \<Rightarrow> Ratchet"
  nextRef :: nat
  chains :: "string \<rightharpoonup> nat"
  myNick :: string
  myChain :: "nat option"
  epoch :: "64 word"

datatype recv_error = NoChain | RatchetError ratchet_error

definition alloc :: "bytes \<Rightarrow> SenderState \<Rightarrow> nat \<times> SenderState" where
  "alloc seed s =
     (nextRef s, s\<lparr>ratchets := (ratchets s)(nextRef s := NewRatchet seed),
                   nextRef := Suc (nextRef s)\<rparr>)"

text \<open>\<^verbatim>\<open>if len(seed) > 0 { s.myChain = NewRatchet(seed); s.chains[nick] = s.myChain }\<close>\<close>

definition install_own :: "bytes \<Rightarrow> SenderState \<Rightarrow> SenderState" where
  "install_own seed s =
     (if length seed > 0
      then let (ref, s1) = alloc seed s
           in s1\<lparr>myChain := Some ref, chains := (chains s1)(myNick s1 \<mapsto> ref)\<rparr>
      else s)"

definition NewSenderState :: "string \<Rightarrow> 64 word \<Rightarrow> bytes \<Rightarrow> SenderState" where
  "NewSenderState nick ep seed =
     install_own seed
       \<lparr>ratchets = (\<lambda>_. NewRatchet []), nextRef = 0, chains = Map.empty, myNick = nick,
        myChain = None, epoch = ep\<rparr>"

definition ResetEpoch :: "64 word \<Rightarrow> bytes \<Rightarrow> SenderState \<Rightarrow> SenderState" where
  "ResetEpoch ep mySeed s = install_own mySeed (s\<lparr>epoch := ep, chains := Map.empty\<rparr>)"

definition AdoptPeer :: "string \<Rightarrow> bytes \<Rightarrow> SenderState \<Rightarrow> SenderState" where
  "AdoptPeer nick seed s =
     (let (ref, s1) = alloc seed s in s1\<lparr>chains := (chains s1)(nick \<mapsto> ref)\<rparr>)"

definition ExportMySeed :: "SenderState \<Rightarrow> bytes option" where
  "ExportMySeed s = map_option (\<lambda>ref. GetInitialKey (ratchets s ref)) (myChain s)"

definition NextSend ::
  "hmac \<Rightarrow> SenderState \<Rightarrow> (bytes \<times> 32 word) option \<times> SenderState" where
  "NextSend H s =
     (case myChain s of
        None \<Rightarrow> (None, s)
      | Some ref \<Rightarrow>
          let (ks, r) = Next H (ratchets s ref)
          in (Some ks, s\<lparr>ratchets := (ratchets s)(ref := r)\<rparr>))"

definition HasPeer :: "string \<Rightarrow> SenderState \<Rightarrow> bool" where
  "HasPeer nick s = (chains s nick \<noteq> None)"

definition Recv ::
  "hmac \<Rightarrow> string \<Rightarrow> 32 word \<Rightarrow> SenderState \<Rightarrow> (recv_error + bytes) \<times> SenderState" where
  "Recv H nick t s =
     (case chains s nick of
        None \<Rightarrow> (Inl NoChain, s)
      | Some ref \<Rightarrow>
          let (a, r) = GetMessageKey H t (ratchets s ref)
          in (map_sum RatchetError id a, s\<lparr>ratchets := (ratchets s)(ref := r)\<rparr>))"

section \<open>Invariant of the store\<close>

text \<open>
  Every reference is allocated, and no ratchet is shared except that the own nick may point
  at the own chain: so working on one peer's chain cannot move another's.
\<close>

definition senders_ok :: "SenderState \<Rightarrow> bool" where
  "senders_ok s \<longleftrightarrow>
     (\<forall>n ref. chains s n = Some ref \<longrightarrow> ref < nextRef s) \<and>
     (\<forall>ref. myChain s = Some ref \<longrightarrow> ref < nextRef s) \<and>
     (\<forall>m n ref. chains s m = Some ref \<longrightarrow> chains s n = Some ref \<longrightarrow> m = n) \<and>
     (\<forall>n ref. chains s n = Some ref \<longrightarrow> myChain s = Some ref \<longrightarrow> n = myNick s)"

lemma senders_ok_unshared:
  assumes "senders_ok s"
  shows "chains s n \<noteq> Some (nextRef s)" and "myChain s \<noteq> Some (nextRef s)"
    and "chains s n = Some ref \<Longrightarrow> ref \<noteq> nextRef s"
    and "myChain s = Some ref \<Longrightarrow> ref \<noteq> nextRef s"
    and "chains s m = Some ref \<Longrightarrow> chains s n = Some ref \<Longrightarrow> m = n"
    and "chains s n = Some ref \<Longrightarrow> myChain s = Some ref \<Longrightarrow> n = myNick s"
  using assms unfolding senders_ok_def by (blast intro: less_irrefl [THEN notE])+

lemmas sender_defs =
  alloc_def install_own_def NewSenderState_def ResetEpoch_def AdoptPeer_def ExportMySeed_def
  NextSend_def Recv_def HasPeer_def Let_def

lemma senders_ok_install:
  "\<forall>n ref. chains s n = Some ref \<longrightarrow> False \<Longrightarrow> \<forall>ref. myChain s = Some ref \<longrightarrow> ref < nextRef s \<Longrightarrow>
   senders_ok (install_own seed s)"
  by (auto simp: senders_ok_def sender_defs)

lemma senders_ok_new: "senders_ok (NewSenderState nick ep seed)"
  unfolding NewSenderState_def by (rule senders_ok_install) auto

lemma senders_ok_reset: "senders_ok s \<Longrightarrow> senders_ok (ResetEpoch ep seed s)"
  unfolding ResetEpoch_def by (rule senders_ok_install) (auto simp: senders_ok_def)

lemma senders_ok_adopt:
  assumes "senders_ok s"
  shows "senders_ok (AdoptPeer nick seed s)"
proof -
  note fresh = senders_ok_unshared(1,2) [OF assms]
  show ?thesis
    using assms fresh fresh(2) [symmetric]
    by (auto simp: senders_ok_def AdoptPeer_def alloc_def less_SucI)
qed

lemma senders_ok_send: "senders_ok s \<Longrightarrow> senders_ok (snd (NextSend H s))"
  by (simp add: senders_ok_def NextSend_def split: option.split prod.split)

lemma senders_ok_recv: "senders_ok s \<Longrightarrow> senders_ok (snd (Recv H nick t s))"
  by (simp add: senders_ok_def Recv_def split: option.split prod.split)

text \<open>The chain a state holds for a nick, and for sending.\<close>

definition peer_chain :: "SenderState \<Rightarrow> string \<Rightarrow> Ratchet option" where
  "peer_chain s nick = map_option (ratchets s) (chains s nick)"

definition own_chain :: "SenderState \<Rightarrow> Ratchet option" where
  "own_chain s = map_option (ratchets s) (myChain s)"

lemma peer_chain_adopt:
  "senders_ok s \<Longrightarrow>
   peer_chain (AdoptPeer nick seed s) n =
     (if n = nick then Some (NewRatchet seed) else peer_chain s n)"
  by (cases "chains s n")
     (auto simp: peer_chain_def AdoptPeer_def alloc_def senders_ok_unshared)

lemma own_chain_adopt: "senders_ok s \<Longrightarrow> own_chain (AdoptPeer nick seed s) = own_chain s"
  by (cases "myChain s")
     (auto simp: own_chain_def AdoptPeer_def alloc_def senders_ok_unshared)

lemma own_chain_reset:
  "seed \<noteq> [] \<Longrightarrow> own_chain (ResetEpoch ep seed s) = Some (NewRatchet seed)"
  by (simp add: own_chain_def sender_defs)

lemma peer_chain_reset:
  "n \<noteq> myNick s \<Longrightarrow> peer_chain (ResetEpoch ep seed s) n = None"
  by (simp add: peer_chain_def sender_defs)

lemma recv_peer:
  assumes "peer_chain s nick = Some r" and "GetMessageKey H t r = (a, r')"
  shows "fst (Recv H nick t s) = map_sum RatchetError id a"
    and "peer_chain (snd (Recv H nick t s)) nick = Some r'"
  using assms by (auto simp: peer_chain_def Recv_def)

lemma recv_no_chain: "peer_chain s nick = None \<Longrightarrow> Recv H nick t s = (Inl NoChain, s)"
  by (auto simp: peer_chain_def Recv_def)

lemma recv_other:
  assumes "senders_ok s" and "n \<noteq> nick"
  shows "peer_chain (snd (Recv H nick t s)) n = peer_chain s n"
  using assms senders_ok_unshared(5) [OF assms(1), of n _ nick]
  by (cases "chains s n") (auto simp: peer_chain_def Recv_def split: option.split prod.split)

lemma recv_own:
  assumes "senders_ok s" and "nick \<noteq> myNick s"
  shows "own_chain (snd (Recv H nick t s)) = own_chain s"
  using assms senders_ok_unshared(6) [OF assms(1), of nick]
  by (cases "myChain s") (auto simp: own_chain_def Recv_def split: option.split prod.split)

lemma send_own:
  assumes "own_chain s = Some r" and "Next H r = ((k, n), r')"
  shows "fst (NextSend H s) = Some (k, n)" and "own_chain (snd (NextSend H s)) = Some r'"
  using assms by (auto simp: own_chain_def NextSend_def)

lemma send_peer:
  assumes "senders_ok s" and "nick \<noteq> myNick s"
  shows "peer_chain (snd (NextSend H s)) nick = peer_chain s nick"
  using assms senders_ok_unshared(6) [OF assms(1), of nick]
  by (cases "chains s nick") (auto simp: peer_chain_def NextSend_def split: option.split prod.split)

lemma export_own: "own_chain s = Some r \<Longrightarrow> ExportMySeed s = Some (initialKey r)"
  by (auto simp: own_chain_def ExportMySeed_def GetInitialKey_def)

lemma frame_myNick [frame]:
  "myNick (AdoptPeer nick seed s) = myNick s"
  "myNick (ResetEpoch ep seed s) = myNick s"
  "myNick (snd (NextSend H s)) = myNick s"
  "myNick (snd (Recv H nick t s)) = myNick s"
  by (simp_all add: sender_defs split: option.split prod.split)

end
