(* ===== verification/Config.thy ===== *)
theory Config
  imports Prelude
begin

text \<open>
  \<^verbatim>\<open>internal/config/config.go\<close>: limits, versions and message types. Each
  constant keeps its name; its value is in the collection \<open>cfg\<close>. Durations are
  nanoseconds, as in Go.
\<close>

definition second :: int where
  [cfg]: "second = 1000000000"

definition ServerPort :: string where
  [cfg]: "ServerPort = ''6666''"

definition MessageHistoryLimit :: nat where
  [cfg]: "MessageHistoryLimit = 1000"

definition RateLimitWindow :: int where
  [cfg]: "RateLimitWindow = 1 * second"

definition RateLimitMessages :: int where
  [cfg]: "RateLimitMessages = 20"

definition MessageTTL :: int where
  [cfg]: "MessageTTL = 24 * 60 * 60 * second"

definition Version :: string where
  [cfg]: "Version = ''v3.0-ops''"

definition ProtocolMajor :: string where
  [cfg]: "ProtocolMajor = ''v3''"

definition DefaultRoom :: string where
  [cfg]: "DefaultRoom = ''general''"

section \<open>Message types\<close>

definition MsgTypeJoin :: string where
  [cfg]: "MsgTypeJoin = ''JOIN''"

definition MsgTypeLeave :: string where
  [cfg]: "MsgTypeLeave = ''LEAVE''"

definition MsgTypeChat :: string where
  [cfg]: "MsgTypeChat = ''CHAT''"

definition MsgTypePrivate :: string where
  [cfg]: "MsgTypePrivate = ''PRIVATE''"

definition MsgTypeSystem :: string where
  [cfg]: "MsgTypeSystem = ''SYSTEM''"

definition MsgTypeError :: string where
  [cfg]: "MsgTypeError = ''ERROR''"

definition MsgTypePing :: string where
  [cfg]: "MsgTypePing = ''PING''"

definition MsgTypePong :: string where
  [cfg]: "MsgTypePong = ''PONG''"

definition MsgTypeUserList :: string where
  [cfg]: "MsgTypeUserList = ''USER_LIST''"

definition MsgTypeTyping :: string where
  [cfg]: "MsgTypeTyping = ''TYPING''"

definition MsgTypeKeyShare :: string where
  [cfg]: "MsgTypeKeyShare = ''KEY_SHARE''"

definition MsgTypeRoomKey :: string where
  [cfg]: "MsgTypeRoomKey = ''ROOM_KEY''"

definition MsgTypeAck :: string where
  [cfg]: "MsgTypeAck = ''ACK''"

definition MsgTypeReaction :: string where
  [cfg]: "MsgTypeReaction = ''REACTION''"

definition MsgTypeFileOffer :: string where
  [cfg]: "MsgTypeFileOffer = ''FILE_OFFER''"

definition MsgTypeFileChunk :: string where
  [cfg]: "MsgTypeFileChunk = ''FILE_CHUNK''"

definition MsgTypeRoomCreate :: string where
  [cfg]: "MsgTypeRoomCreate = ''ROOM_CREATE''"

definition MsgTypeRoomJoin :: string where
  [cfg]: "MsgTypeRoomJoin = ''ROOM_JOIN''"

definition MsgTypeEpoch :: string where
  [cfg]: "MsgTypeEpoch = ''EPOCH''"

definition MsgTypeSenderKey :: string where
  [cfg]: "MsgTypeSenderKey = ''SENDER_KEY''"

definition MsgTypeInvite :: string where
  [cfg]: "MsgTypeInvite = ''INVITE''"

definition MsgTypeCmd :: string where
  [cfg]: "MsgTypeCmd = ''CMD''"

definition MsgTypeFilePut :: string where
  [cfg]: "MsgTypeFilePut = ''FILE_PUT''"

definition MsgTypeFileGet :: string where
  [cfg]: "MsgTypeFileGet = ''FILE_GET''"

definition MsgTypeFileData :: string where
  [cfg]: "MsgTypeFileData = ''FILE_DATA''"

end
