(* ===== verification/Crypto.thy ===== *)
theory Crypto
  imports Prelude
begin

text \<open>
  \<^verbatim>\<open>internal/crypto\<close> without the ratchet: \<^verbatim>\<open>crypto.go\<close>,
  \<^verbatim>\<open>hkdf.go\<close>, \<^verbatim>\<open>chunk.go\<close>, \<^verbatim>\<open>wrap.go\<close>, \<^verbatim>\<open>wipe.go\<close>
  and \<^verbatim>\<open>pow.go\<close>.

  The primitives the code imports (AES-GCM, SHA-256, HMAC, X25519, HKDF, PBKDF2, Ed25519)
  are the fields of a parameter \<open>P\<close>. The random source is a field as well: an
  infinite byte sequence of which each read takes the next bytes, so a function that draws
  randomness takes the read position and returns the new one.
\<close>

record prims =
  rnd :: "nat \<Rightarrow> char"
  gcm_seal :: "bytes \<Rightarrow> bytes \<Rightarrow> bytes \<Rightarrow> bytes \<Rightarrow> bytes"
  gcm_open :: "bytes \<Rightarrow> bytes \<Rightarrow> bytes \<Rightarrow> bytes \<Rightarrow> bytes option"
  sha256 :: "bytes \<Rightarrow> bytes"
  hmac_sha256 :: "bytes \<Rightarrow> bytes \<Rightarrow> bytes"
  x25519 :: "bytes \<Rightarrow> bytes \<Rightarrow> bytes option"
  x25519_base :: bytes
  hkdf_sha256 :: "bytes \<Rightarrow> bytes \<Rightarrow> bytes"
  pbkdf2_sha256 :: "bytes \<Rightarrow> bytes \<Rightarrow> nat \<Rightarrow> bytes"
  ed25519_sign :: "bytes \<Rightarrow> bytes \<Rightarrow> bytes"
  ed25519_verify :: "bytes \<Rightarrow> bytes \<Rightarrow> bytes \<Rightarrow> bool"

text \<open>
  What the code relies on, as hypotheses with a name. Opening what was sealed with the same
  key, nonce and additional data gives the plaintext; what opens was sealed that way; a
  sealed text is 16 bytes longer; both ends of a Diffie-Hellman exchange compute the same
  point; the key derivations return 32 bytes.
\<close>

definition gcm_correct :: "'a prims_scheme \<Rightarrow> bool" where
  "gcm_correct P \<longleftrightarrow> (\<forall>k n p a. gcm_open P k n (gcm_seal P k n p a) a = Some p)"

definition gcm_authentic :: "'a prims_scheme \<Rightarrow> bool" where
  "gcm_authentic P \<longleftrightarrow>
     (\<forall>k n c a p. gcm_open P k n c a = Some p \<longrightarrow> c = gcm_seal P k n p a)"

definition gcm_overhead :: "'a prims_scheme \<Rightarrow> bool" where
  "gcm_overhead P \<longleftrightarrow> (\<forall>k n p a. length (gcm_seal P k n p a) = length p + 16)"

definition dh_commutes :: "'a prims_scheme \<Rightarrow> bool" where
  "dh_commutes P \<longleftrightarrow>
     (\<forall>a b pa pb. x25519 P a (x25519_base P) = Some pa \<longrightarrow> x25519 P b (x25519_base P) = Some pb \<longrightarrow>
        x25519 P a pb = x25519 P b pa)"

definition kdf_sizes :: "'a prims_scheme \<Rightarrow> bool" where
  "kdf_sizes P \<longleftrightarrow>
     (\<forall>s i. length (hkdf_sha256 P s i) = 32) \<and> (\<forall>p s n. length (pbkdf2_sha256 P p s n) = 32) \<and>
     (\<forall>d. length (sha256 P d) = 32) \<and> (\<forall>k d. length (hmac_sha256 P k d) = 32)"

section \<open>Randomness and AES-GCM (crypto.go)\<close>

definition rand_bytes :: "'a prims_scheme \<Rightarrow> nat \<Rightarrow> nat \<Rightarrow> bytes" where
  "rand_bytes P pos n = map (rnd P) [pos..<pos + n]"

lemma length_rand_bytes [simp]: "length (rand_bytes P pos n) = n"
  by (simp add: rand_bytes_def)

definition GenerateRandomKey :: "'a prims_scheme \<Rightarrow> nat \<Rightarrow> bytes \<times> nat" where
  "GenerateRandomKey P pos = (rand_bytes P pos 32, pos + 32)"

text \<open>\<^verbatim>\<open>aes.NewCipher\<close> accepts keys of 16, 24 and 32 bytes.\<close>

definition aes_key_ok :: "bytes \<Rightarrow> bool" where
  "aes_key_ok key \<longleftrightarrow> length key = 16 \<or> length key = 24 \<or> length key = 32"

definition nonceSize :: nat where
  "nonceSize = 12"

definition encryptWithAAD ::
  "'a prims_scheme \<Rightarrow> nat \<Rightarrow> bytes \<Rightarrow> bytes \<Rightarrow> bytes \<Rightarrow> bytes option \<times> nat" where
  "encryptWithAAD P pos key plaintext aad =
     (if \<not> aes_key_ok key then (None, pos)
      else let nonce = rand_bytes P pos nonceSize
           in (Some (nonce @ gcm_seal P key nonce plaintext aad), pos + nonceSize))"

definition decryptWithAAD ::
  "'a prims_scheme \<Rightarrow> bytes \<Rightarrow> bytes \<Rightarrow> bytes \<Rightarrow> bytes option" where
  "decryptWithAAD P key ciphertext aad =
     (if \<not> aes_key_ok key then None
      else if length ciphertext < nonceSize then None
      else gcm_open P key (take nonceSize ciphertext) (drop nonceSize ciphertext) aad)"

definition Encrypt :: "'a prims_scheme \<Rightarrow> nat \<Rightarrow> bytes \<Rightarrow> bytes \<Rightarrow> bytes option \<times> nat" where
  "Encrypt P pos key plaintext =
     (if \<not> aes_key_ok key then (None, pos)
      else let nonce = rand_bytes P pos nonceSize
           in (Some (nonce @ gcm_seal P key nonce plaintext []), pos + nonceSize))"

definition Decrypt :: "'a prims_scheme \<Rightarrow> bytes \<Rightarrow> bytes \<Rightarrow> bytes option" where
  "Decrypt P key ciphertext =
     (if \<not> aes_key_ok key then None
      else if length ciphertext < nonceSize then None
      else gcm_open P key (take nonceSize ciphertext) (drop nonceSize ciphertext) [])"

lemma Encrypt_AAD: "Encrypt P pos key pt = encryptWithAAD P pos key pt []"
  by (simp add: Encrypt_def encryptWithAAD_def)

lemma Decrypt_AAD: "Decrypt P key ct = decryptWithAAD P key ct []"
  by (simp add: Decrypt_def decryptWithAAD_def)

lemma gcm_correctD: "gcm_correct P \<Longrightarrow> gcm_open P k n (gcm_seal P k n p a) a = Some p"
  by (simp add: gcm_correct_def)

lemma encryptWithAAD_Some:
  "encryptWithAAD P pos key pt aad = (Some ct, pos') \<longleftrightarrow>
     aes_key_ok key \<and> pos' = pos + nonceSize \<and>
     ct = rand_bytes P pos nonceSize @ gcm_seal P key (rand_bytes P pos nonceSize) pt aad"
  by (auto simp: encryptWithAAD_def Let_def split: if_splits)

lemma decrypt_encrypt_AAD:
  "gcm_correct P \<Longrightarrow> encryptWithAAD P pos key pt aad = (Some ct, pos') \<Longrightarrow>
   decryptWithAAD P key ct aad = Some pt"
  by (simp add: encryptWithAAD_Some decryptWithAAD_def gcm_correctD)

lemma Decrypt_Encrypt:
  "gcm_correct P \<Longrightarrow> Encrypt P pos key pt = (Some ct, pos') \<Longrightarrow> Decrypt P key ct = Some pt"
  unfolding Encrypt_AAD Decrypt_AAD by (rule decrypt_encrypt_AAD)

lemma Encrypt_total: "aes_key_ok key \<Longrightarrow> \<exists>ct. Encrypt P pos key pt = (Some ct, pos + nonceSize)"
  by (simp add: Encrypt_def Let_def)

lemma encryptWithAAD_total:
  "aes_key_ok key \<Longrightarrow> \<exists>ct. encryptWithAAD P pos key pt aad = (Some ct, pos + nonceSize)"
  by (simp add: encryptWithAAD_def Let_def)

lemma length_encryptWithAAD:
  "gcm_overhead P \<Longrightarrow> encryptWithAAD P pos key pt aad = (Some ct, pos') \<Longrightarrow> length ct = length pt + 28"
  by (simp add: encryptWithAAD_Some gcm_overhead_def nonceSize_def)

lemma aes_key_32 [simp]: "length key = 32 \<Longrightarrow> aes_key_ok key"
  by (simp add: aes_key_ok_def)

section \<open>Key agreement and identity (crypto.go, hkdf.go, wipe.go)\<close>

text \<open>The private key, the public key if the primitive gives one, and the new position.\<close>

definition GenerateKeyPair :: "'a prims_scheme \<Rightarrow> nat \<Rightarrow> (bytes \<times> bytes option) \<times> nat" where
  "GenerateKeyPair P pos =
     (let priv = rand_bytes P pos 32 in ((priv, x25519 P priv (x25519_base P)), pos + 32))"

definition DeriveSessionKey :: "'a prims_scheme \<Rightarrow> bytes \<Rightarrow> string \<Rightarrow> bytes" where
  "DeriveSessionKey P shared info = hkdf_sha256 P shared info"

definition DeriveSharedKey :: "'a prims_scheme \<Rightarrow> bytes \<Rightarrow> bytes \<Rightarrow> bytes option" where
  "DeriveSharedKey P privateKey peerPublicKey =
     (case x25519 P privateKey peerPublicKey of None \<Rightarrow> None
      | Some raw \<Rightarrow> Some (DeriveSessionKey P raw ''conner-session-v1''))"

definition Wipe :: "bytes \<Rightarrow> bytes" where
  "Wipe data = map (\<lambda>_. byte 0) data"

definition Sign :: "'a prims_scheme \<Rightarrow> bytes \<Rightarrow> bytes \<Rightarrow> bytes" where
  "Sign P privateKey data = ed25519_sign P privateKey data"

definition Verify :: "'a prims_scheme \<Rightarrow> bytes \<Rightarrow> bytes \<Rightarrow> bytes \<Rightarrow> bool" where
  "Verify P publicKey data signature =
     (if length publicKey \<noteq> 32 \<or> length signature \<noteq> 64 then False
      else ed25519_verify P publicKey data signature)"

lemma shared_key_agrees:
  assumes "dh_commutes P"
    and "GenerateKeyPair P p = ((a, Some pa), p')" and "GenerateKeyPair P q = ((b, Some pb), q')"
  shows "DeriveSharedKey P a pb = DeriveSharedKey P b pa"
proof -
  from assms(2,3) have "x25519 P a (x25519_base P) = Some pa" "x25519 P b (x25519_base P) = Some pb"
    by (auto simp: GenerateKeyPair_def Let_def)
  with assms(1) have "x25519 P a pb = x25519 P b pa"
    unfolding dh_commutes_def by blast
  then show ?thesis by (simp add: DeriveSharedKey_def)
qed

lemma shared_key_size:
  "kdf_sizes P \<Longrightarrow> DeriveSharedKey P a pb = Some k \<Longrightarrow> length k = 32"
  by (auto simp: DeriveSharedKey_def DeriveSessionKey_def kdf_sizes_def split: option.splits)

section \<open>File chunks (chunk.go)\<close>

definition ChunkSize :: nat where
  "ChunkSize = 64 * 1024"

definition chunkAAD :: "string \<Rightarrow> 32 word \<Rightarrow> bytes" where
  "chunkAAD fileID idx = be32 (unat idx) @ fileID"

definition EncryptChunk ::
  "'a prims_scheme \<Rightarrow> nat \<Rightarrow> bytes \<Rightarrow> string \<Rightarrow> 32 word \<Rightarrow> bytes \<Rightarrow> bytes option \<times> nat" where
  "EncryptChunk P pos key fileID idx plaintext =
     encryptWithAAD P pos key plaintext (chunkAAD fileID idx)"

definition DecryptChunk ::
  "'a prims_scheme \<Rightarrow> bytes \<Rightarrow> string \<Rightarrow> 32 word \<Rightarrow> bytes \<Rightarrow> bytes option" where
  "DecryptChunk P key fileID idx ciphertext =
     decryptWithAAD P key ciphertext (chunkAAD fileID idx)"

definition FileContentKey :: "'a prims_scheme \<Rightarrow> string \<Rightarrow> string \<Rightarrow> bytes" where
  "FileContentKey P token fileID = sha256 P (''conner-file-v1'' @ token @ fileID)"

definition FileSHA256 :: "'a prims_scheme \<Rightarrow> bytes \<Rightarrow> bytes" where
  "FileSHA256 P content = sha256 P content"

lemma chunkAAD_inj: "chunkAAD f i = chunkAAD g j \<longleftrightarrow> f = g \<and> i = j"
proof
  assume "chunkAAD f i = chunkAAD g j"
  then have "be32 (unat i) = be32 (unat j)" and "f = g"
    by (simp_all add: chunkAAD_def)
  then show "f = g \<and> i = j"
    using be32_inj [of "unat i" "unat j"] unsigned_less [of i] unsigned_less [of j]
    by (simp add: word_unat_eq_iff)
qed simp

lemma chunk_roundtrip:
  "gcm_correct P \<Longrightarrow> EncryptChunk P pos key f i pt = (Some ct, pos') \<Longrightarrow>
   DecryptChunk P key f i ct = Some pt"
  unfolding EncryptChunk_def DecryptChunk_def by (rule decrypt_encrypt_AAD)

section \<open>Identity keys at rest (wrap.go)\<close>

definition wrapIters :: nat where
  "wrapIters = 200000"

definition WrapKey :: "'a prims_scheme \<Rightarrow> nat \<Rightarrow> string \<Rightarrow> bytes \<Rightarrow> bytes option \<times> nat" where
  "WrapKey P pos passphrase plaintext =
     (let salt = rand_bytes P pos 16;
          key = pbkdf2_sha256 P passphrase salt wrapIters
      in case Encrypt P (pos + 16) key plaintext of
           (None, pos') \<Rightarrow> (None, pos')
         | (Some ct, pos') \<Rightarrow> (Some (salt @ ct), pos'))"

definition UnwrapKey :: "'a prims_scheme \<Rightarrow> string \<Rightarrow> bytes \<Rightarrow> bytes option" where
  "UnwrapKey P passphrase blob =
     (if length blob < 16 + 12 + 16 then None
      else Decrypt P (pbkdf2_sha256 P passphrase (take 16 blob) wrapIters) (drop 16 blob))"

lemma wrap_roundtrip:
  assumes "gcm_correct P" "gcm_overhead P" "WrapKey P pos pass pt = (Some blob, pos')"
  shows "UnwrapKey P pass blob = Some pt"
proof -
  let ?salt = "rand_bytes P pos 16"
  let ?key = "pbkdf2_sha256 P pass ?salt wrapIters"
  from assms(3) obtain ct where ct: "Encrypt P (pos + 16) ?key pt = (Some ct, pos')"
    and blob: "blob = ?salt @ ct"
    by (auto simp: WrapKey_def Let_def split: prod.splits option.splits)
  have "length ct = length pt + 28"
    using length_encryptWithAAD [OF assms(2)] ct by (simp add: Encrypt_AAD)
  then show ?thesis
    using Decrypt_Encrypt [OF assms(1) ct] by (simp add: UnwrapKey_def blob)
qed

section \<open>Proof of work (pow.go)\<close>

definition PoWDifficulty :: nat where
  [cfg]: "PoWDifficulty = 16"

text \<open>\<^verbatim>\<open>big.Int.SetBytes\<close>\<close>

definition int_of_bytes :: "bytes \<Rightarrow> nat" where
  "int_of_bytes bs = foldl (\<lambda>n b. n * 256 + code b) 0 bs"

definition uint64ToBytes :: "64 word \<Rightarrow> bytes" where
  "uint64ToBytes n =
     map (\<lambda>i. byte (unat n div 256 ^ i)) [7, 6, 5, 4, 3, 2, 1, 0]"

text \<open>
  \<^verbatim>\<open>target.Lsh(target, uint(256-difficulty))\<close>: past 256 the shift count is a huge
  unsigned number and the allocation panics, \<open>None\<close> here.
\<close>

definition powTarget :: "nat \<Rightarrow> nat option" where
  "powTarget difficulty = (if difficulty \<le> 256 then Some (2 ^ (256 - difficulty)) else None)"

definition powHash :: "'a prims_scheme \<Rightarrow> bytes \<Rightarrow> 64 word \<Rightarrow> nat" where
  "powHash P data nonce = int_of_bytes (sha256 P (data @ uint64ToBytes nonce))"

definition VerifyPoW :: "'a prims_scheme \<Rightarrow> bytes \<Rightarrow> 64 word \<Rightarrow> nat \<Rightarrow> bool option" where
  "VerifyPoW P data nonce difficulty =
     map_option (\<lambda>target. powHash P data nonce < target) (powTarget difficulty)"

partial_function (option) pow_loop ::
  "'a prims_scheme \<Rightarrow> bytes \<Rightarrow> nat \<Rightarrow> 64 word \<Rightarrow> (64 word) option" where
  "pow_loop C data target nonce =
     (if powHash C data nonce < target then Some nonce
      else pow_loop C data target (nonce + 1))"

definition ComputePoW :: "'a prims_scheme \<Rightarrow> bytes \<Rightarrow> nat \<Rightarrow> (64 word) option" where
  "ComputePoW P data difficulty =
     (case powTarget difficulty of None \<Rightarrow> None | Some target \<Rightarrow> pow_loop P data target 0)"

lemma pow_loop_found:
  assumes "powHash P data n < target" and "m \<le> n"
    and "\<forall>k. m \<le> k \<longrightarrow> k < n \<longrightarrow> \<not> powHash P data k < target"
  shows "pow_loop P data target m = Some n"
  using assms(2,3)
proof (induction "unat n - unat m" arbitrary: m)
  case 0
  then have "m = n" by (simp add: word_le_nat_alt word_unat_eq_iff)
  with assms(1) show ?case by (simp add: pow_loop.simps [of P data target n])
next
  case (Suc d)
  then have less: "m < n" by (auto simp: word_less_nat_alt)
  then have no: "\<not> powHash P data m < target" using Suc.prems by auto
  have succ: "unat (m + 1) = Suc (unat m)"
  proof -
    have "m \<noteq> - 1" using less by (metis word_n1_ge linorder_not_le)
    then have "1 + m \<noteq> 0" by (metis add.commute add_diff_cancel diff_0)
    then show ?thesis using unatSuc [of m] by (simp add: add.commute)
  qed
  have "pow_loop P data target (m + 1) = Some n"
  proof (rule Suc.hyps(1))
    show "d = unat n - unat (m + 1)" using Suc.hyps(2) succ by simp
    show "m + 1 \<le> n" using less by (rule inc_le)
    show "\<forall>k. m + 1 \<le> k \<longrightarrow> k < n \<longrightarrow> \<not> powHash P data k < target"
      using Suc.prems(2) succ by (auto simp: word_le_nat_alt)
  qed
  with no show ?case by (simp add: pow_loop.simps [of P data target m])
qed

lemma pow_loop_sound:
  assumes "pow_loop C data target m = Some n"
  shows "powHash C data n < target"
proof (rule pow_loop.raw_induct
    [where P = "\<lambda>C data target m n. powHash C data n < target", OF _ assms])
  fix f :: "'a prims_scheme \<Rightarrow> bytes \<Rightarrow> nat \<Rightarrow> 64 word \<Rightarrow> 64 word option" and C data target m n
  assume IH: "\<And>C data target m n. f C data target m = Some n \<Longrightarrow> powHash C data n < target"
    and eq: "(if powHash C data m < target then Some m else f C data target (m + 1)) = Some n"
  show "powHash C data n < target"
    using eq IH by (auto split: if_splits)
qed

text \<open>When a nonce passes, the search returns the least one.\<close>

lemma pow_finds:
  assumes "VerifyPoW P data m d = Some True"
  shows "\<exists>n. ComputePoW P data d = Some n \<and> n \<le> m \<and> VerifyPoW P data n d = Some True \<and>
    (\<forall>k. k < n \<longrightarrow> VerifyPoW P data k d = Some False)"
proof -
  obtain target where t: "powTarget d = Some target" "powHash P data m < target"
    using assms by (auto simp: VerifyPoW_def)
  obtain n where n: "powHash P data n < target" "\<And>k. powHash P data k < target \<Longrightarrow> n \<le> k"
    using exists_least_iff [of "\<lambda>n. powHash P data n < target"] t(2) by (metis linorder_not_le)
  have least: "\<not> powHash P data k < target" if "k < n" for k
    using n(2) [of k] that by (auto dest: leD)
  have "pow_loop P data target 0 = Some n"
    by (rule pow_loop_found) (use n least in simp_all)
  then show ?thesis
    using n t least by (intro exI [of _ n]) (simp add: ComputePoW_def VerifyPoW_def)
qed

end
