(* ===== verification/GoStrings.thy ===== *)
theory GoStrings
  imports Prelude
begin

text \<open>
  The functions of Go's \<^verbatim>\<open>strings\<close> and \<^verbatim>\<open>path/filepath\<close>
  packages (Unix rules) that the program calls, on byte strings. White space is what
  \<^verbatim>\<open>unicode.IsSpace\<close> accepts, in UTF-8.
\<close>

section \<open>Prefixes, suffixes, substrings\<close>

definition HasPrefix :: "string \<Rightarrow> string \<Rightarrow> bool" where
  "HasPrefix s p \<longleftrightarrow> take (length p) s = p"

definition HasSuffix :: "string \<Rightarrow> string \<Rightarrow> bool" where
  "HasSuffix s p \<longleftrightarrow> length p \<le> length s \<and> drop (length s - length p) s = p"

definition TrimPrefix :: "string \<Rightarrow> string \<Rightarrow> string" where
  "TrimPrefix s p = (if HasPrefix s p then drop (length p) s else s)"

definition TrimSuffix :: "string \<Rightarrow> string \<Rightarrow> string" where
  "TrimSuffix s p = (if HasSuffix s p then take (length s - length p) s else s)"

fun Contains :: "string \<Rightarrow> string \<Rightarrow> bool" where
  "Contains [] p = (p = [])"
| "Contains (c # s) p = (HasPrefix (c # s) p \<or> Contains s p)"

lemma HasPrefix_append [simp]: "HasPrefix (p @ s) p"
  by (simp add: HasPrefix_def)

lemma HasPrefix_iff: "HasPrefix s p \<longleftrightarrow> (\<exists>r. s = p @ r)"
  by (metis HasPrefix_append HasPrefix_def append_take_drop_id)

lemma TrimPrefix_append [simp]: "TrimPrefix (p @ s) p = s"
  by (simp add: TrimPrefix_def)

text \<open>\<^verbatim>\<open>strings.Cut\<close> at a one-byte separator.\<close>

definition Cut :: "string \<Rightarrow> char \<Rightarrow> string \<times> string \<times> bool" where
  "Cut s c =
     (if c \<in> set s then (takeWhile (\<lambda>x. x \<noteq> c) s, tl (dropWhile (\<lambda>x. x \<noteq> c) s), True)
      else (s, [], False))"

text \<open>\<^verbatim>\<open>strings.Split\<close> at a one-byte separator, and \<^verbatim>\<open>strings.Join\<close>.\<close>

fun Split :: "string \<Rightarrow> char \<Rightarrow> string list" where
  "Split [] c = [[]]"
| "Split (x # s) c =
     (if x = c then [] # Split s c
      else case Split s c of [] \<Rightarrow> [[x]] | w # ws \<Rightarrow> (x # w) # ws)"

fun Join :: "string list \<Rightarrow> string \<Rightarrow> string" where
  "Join [] sep = []"
| "Join [w] sep = w"
| "Join (w # v # ws) sep = w @ sep @ Join (v # ws) sep"

lemma Split_nonempty [simp]: "Split s c \<noteq> []"
  by (cases s) (auto split: list.splits)

lemma Split_noc: "c \<notin> set s \<Longrightarrow> Split s c = [s]"
  by (induction s) auto

lemma Split_append: "Split (xs @ c # ys) c = Split xs c @ Split ys c"
proof (induction xs)
  case Nil
  then show ?case by simp
next
  case (Cons x xs)
  then show ?case by (cases "Split xs c") (auto simp: Split_nonempty)
qed

lemma Split_parts: "w \<in> set (Split s c) \<Longrightarrow> c \<notin> set w"
proof (induction s arbitrary: w)
  case Nil
  then show ?case by simp
next
  case (Cons x s)
  then show ?case by (cases "Split s c") (auto split: if_splits)
qed

lemma Split_Join:
  "ws \<noteq> [] \<Longrightarrow> \<forall>w \<in> set ws. c \<notin> set w \<Longrightarrow> Split (Join ws [c]) c = ws"
  by (induction ws "[c]" rule: Join.induct) (auto simp: Split_noc Split_append)

text \<open>\<^verbatim>\<open>strings.SplitN(s, sep, n)\<close> for a positive \<open>n\<close>: at most \<open>n\<close> parts.\<close>

fun SplitN :: "string \<Rightarrow> char \<Rightarrow> nat \<Rightarrow> string list" where
  "SplitN s c 0 = []"
| "SplitN s c (Suc 0) = [s]"
| "SplitN s c (Suc (Suc n)) =
     (case Cut s c of (a, b, found) \<Rightarrow> if found then a # SplitN b c (Suc n) else [s])"

section \<open>Numbers\<close>

text \<open>\<^verbatim>\<open>fmt.Sprint\<close> of a non-negative integer.\<close>

fun dec :: "nat \<Rightarrow> string" where
  "dec n = (if n < 10 then [byte (48 + n)] else dec (n div 10) @ [byte (48 + n mod 10)])"

declare dec.simps [simp del]

definition int_dec :: "int \<Rightarrow> string" where
  "int_dec i = (if i < 0 then CHR ''-'' # dec (nat (- i)) else dec (nat i))"

definition newline :: char where
  "newline = byte 10"

section \<open>White space\<close>

text \<open>The UTF-8 encodings of the white-space runes.\<close>

definition space_runes :: "string list" where
  "space_runes =
     map (\<lambda>n. [byte n]) [9, 10, 11, 12, 13, 32] @
     [[byte 0xC2, byte 0x85], [byte 0xC2, byte 0xA0], [byte 0xE1, byte 0x9A, byte 0x80]] @
     map (\<lambda>n. [byte 0xE2, byte 0x80, byte n])
       [0x80, 0x81, 0x82, 0x83, 0x84, 0x85, 0x86, 0x87, 0x88, 0x89, 0x8A, 0xA8, 0xA9, 0xAF] @
     [[byte 0xE2, byte 0x81, byte 0x9F], [byte 0xE3, byte 0x80, byte 0x80]]"

definition lead_len :: "string list \<Rightarrow> string \<Rightarrow> nat" where
  "lead_len ws s = (case List.find (\<lambda>w. HasPrefix s w) ws of None \<Rightarrow> 0 | Some w \<Rightarrow> length w)"

function strip_lead :: "string list \<Rightarrow> string \<Rightarrow> string" where
  "strip_lead ws s =
     (if lead_len ws s = 0 \<or> s = [] then s else strip_lead ws (drop (lead_len ws s) s))"
  by pat_completeness auto
termination
  by (relation "measure (\<lambda>(ws, s). length s)") auto

declare strip_lead.simps [simp del]

definition TrimSpace :: "string \<Rightarrow> string" where
  "TrimSpace s = rev (strip_lead (map rev space_runes) (rev (strip_lead space_runes s)))"

function fields_go :: "string \<Rightarrow> string \<Rightarrow> string list" where
  "fields_go cur [] = (if cur = [] then [] else [rev cur])"
| "fields_go cur (c # s) =
     (if lead_len space_runes (c # s) = 0 then fields_go (c # cur) s
      else (if cur = [] then [] else [rev cur]) @
           fields_go [] (drop (lead_len space_runes (c # s) - 1) s))"
  by pat_completeness auto
termination
  by (relation "measure (\<lambda>(cur, s). length s)") (auto simp: less_Suc_eq_le)

definition Fields :: "string \<Rightarrow> string list" where
  "Fields s = fields_go [] s"

lemma fields_go_nonempty: "w \<in> set (fields_go cur s) \<Longrightarrow> w \<noteq> []"
  by (induction cur s rule: fields_go.induct) (auto split: if_splits)

lemma Fields_nonempty: "w \<in> set (Fields s) \<Longrightarrow> w \<noteq> []"
  unfolding Fields_def by (rule fields_go_nonempty)

section \<open>Paths\<close>

definition slash :: char where
  "slash = CHR ''/''"

text \<open>
  \<^verbatim>\<open>filepath.Clean\<close>: the components are taken in order on a stack (last first);
  a \<^verbatim>\<open>..\<close> removes the component before it, is dropped at the root of a rooted
  path and kept at the front of a relative one.
\<close>

definition clean_step :: "bool \<Rightarrow> string list \<Rightarrow> string \<Rightarrow> string list" where
  "clean_step rooted out w =
     (if w = [] \<or> w = ''.'' then out
      else if w = ''..'' then
        (case out of
           v # vs \<Rightarrow> if v = ''..'' then w # out else vs
         | [] \<Rightarrow> if rooted then [] else [w])
      else w # out)"

definition clean_comps :: "bool \<Rightarrow> string list \<Rightarrow> string list" where
  "clean_comps rooted ws = rev (foldl (clean_step rooted) [] ws)"

definition is_rooted :: "string \<Rightarrow> bool" where
  "is_rooted p \<longleftrightarrow> (case p of [] \<Rightarrow> False | c # _ \<Rightarrow> c = slash)"

definition Clean :: "string \<Rightarrow> string" where
  "Clean p =
     (if p = [] then ''.''
      else let ws = clean_comps (is_rooted p) (Split p slash)
           in if is_rooted p then slash # Join ws [slash]
              else if ws = [] then ''.'' else Join ws [slash])"

definition JoinPath :: "string list \<Rightarrow> string" where
  "JoinPath elems =
     (case dropWhile (\<lambda>e. e = []) elems of [] \<Rightarrow> [] | es \<Rightarrow> Clean (Join es [slash]))"

definition Base :: "string \<Rightarrow> string" where
  "Base p =
     (if p = [] then ''.''
      else let q = rev (dropWhile (\<lambda>c. c = slash) (rev p))
           in if q = [] then [slash] else rev (takeWhile (\<lambda>c. c \<noteq> slash) (rev q)))"

definition Dir :: "string \<Rightarrow> string" where
  "Dir p = Clean (rev (dropWhile (\<lambda>c. c \<noteq> slash) (rev p)))"

subsection \<open>Cleaned paths\<close>

text \<open>A proper component: not empty, no separator, not a dot entry.\<close>

definition good_comp :: "string \<Rightarrow> bool" where
  "good_comp w \<longleftrightarrow> w \<noteq> [] \<and> slash \<notin> set w \<and> w \<noteq> ''.'' \<and> w \<noteq> ''..''"

definition abs_path :: "string list \<Rightarrow> string" where
  "abs_path ws = slash # Join ws [slash]"

lemma foldl_clean_good:
  "\<forall>w \<in> set ws. good_comp w \<Longrightarrow> foldl (clean_step r) out ws = rev ws @ out"
  by (induction ws arbitrary: out) (auto simp: clean_step_def good_comp_def)

lemma clean_step_rooted_good:
  "\<forall>v \<in> set out. good_comp v \<Longrightarrow> slash \<notin> set w \<Longrightarrow> \<forall>v \<in> set (clean_step True out w). good_comp v"
  by (cases out) (auto simp: clean_step_def good_comp_def)

lemma clean_comps_rooted_good:
  assumes "\<forall>w \<in> set ws. slash \<notin> set w"
  shows "\<forall>w \<in> set (clean_comps True ws). good_comp w"
proof -
  have "\<forall>v \<in> set out. good_comp v \<Longrightarrow> \<forall>v \<in> set (foldl (clean_step True) out ws). good_comp v"
    for out
    using assms
  proof (induction ws arbitrary: out)
    case Nil
    then show ?case by simp
  next
    case (Cons w ws)
    then show ?case using clean_step_rooted_good [of out w] by simp
  qed
  from this [of "[]"] show ?thesis by (simp add: clean_comps_def)
qed

lemma Split_abs_path:
  "\<forall>w \<in> set ws. good_comp w \<Longrightarrow> Split (abs_path ws) slash = [] # (if ws = [] then [[]] else ws)"
  by (auto simp: abs_path_def Split_Join good_comp_def)

lemma clean_comps_abs:
  "\<forall>w \<in> set ws. good_comp w \<Longrightarrow> clean_comps r (Split (abs_path ws) slash) = ws"
  by (auto simp: Split_abs_path clean_comps_def foldl_clean_good clean_step_def)

lemma abs_path_inj:
  assumes "\<forall>w \<in> set vs. good_comp w" and "\<forall>w \<in> set ws. good_comp w"
  shows "abs_path vs = abs_path ws \<longleftrightarrow> vs = ws"
  using clean_comps_abs [OF assms(1), of True] clean_comps_abs [OF assms(2), of True] by metis

lemma Clean_abs_path: "\<forall>w \<in> set ws. good_comp w \<Longrightarrow> Clean (abs_path ws) = abs_path ws"
  using clean_comps_abs [of ws True] by (simp add: Clean_def is_rooted_def abs_path_def)

lemma Clean_rooted:
  assumes "is_rooted p"
  obtains ws where "Clean p = abs_path ws" and "\<forall>w \<in> set ws. good_comp w"
proof
  show "Clean p = abs_path (clean_comps True (Split p slash))"
    using assms by (cases p) (auto simp: Clean_def abs_path_def is_rooted_def)
  show "\<forall>w \<in> set (clean_comps True (Split p slash)). good_comp w"
    by (rule clean_comps_rooted_good) (auto dest: Split_parts)
qed

lemma Join_snoc: "ws \<noteq> [] \<Longrightarrow> Join (ws @ [w]) sep = Join ws sep @ sep @ w"
  by (induction ws sep rule: Join.induct) auto

lemma JoinPath_child:
  assumes "\<forall>w \<in> set ws. good_comp w" and "good_comp n" and "ws \<noteq> []"
  shows "JoinPath [abs_path ws, n] = abs_path (ws @ [n])"
proof -
  have "Join [abs_path ws, n] [slash] = abs_path (ws @ [n])"
    using assms(3) by (simp add: abs_path_def Join_snoc)
  moreover have "Clean (abs_path (ws @ [n])) = abs_path (ws @ [n])"
    by (rule Clean_abs_path) (use assms in auto)
  ultimately show ?thesis by (simp add: JoinPath_def abs_path_def)
qed

lemma Base_shape: "Base p = [slash] \<or> (Base p \<noteq> [] \<and> slash \<notin> set (Base p))"
proof (cases "p = []")
  case True
  then show ?thesis by (simp add: Base_def slash_def)
next
  case False
  let ?q = "rev (dropWhile (\<lambda>c. c = slash) (rev p))"
  show ?thesis
  proof (cases "?q = []")
    case True
    with False show ?thesis by (simp add: Base_def Let_def)
  next
    case q: False
    then have "hd (dropWhile (\<lambda>c. c = slash) (rev p)) \<noteq> slash"
      using hd_dropWhile [of "\<lambda>c. c = slash" "rev p"] by simp
    then have "takeWhile (\<lambda>c. c \<noteq> slash) (rev ?q) \<noteq> []"
      using q by (cases "dropWhile (\<lambda>c. c = slash) (rev p)") auto
    with q False show ?thesis
      by (auto simp: Base_def Let_def dest: set_takeWhileD)
  qed
qed

lemma Base_good: "Base p \<noteq> [slash] \<Longrightarrow> Base p \<noteq> ''.'' \<Longrightarrow> Base p \<noteq> ''..'' \<Longrightarrow> good_comp (Base p)"
  using Base_shape [of p] by (auto simp: good_comp_def)

lemma Base_comp: "good_comp n \<Longrightarrow> Base n = n"
proof -
  assume n: "good_comp n"
  then have "rev n \<noteq> []" "hd (rev n) \<noteq> slash"
    by (auto simp: good_comp_def hd_rev dest: last_in_set)
  then have d: "dropWhile (\<lambda>c. c = slash) (rev n) = rev n"
    by (cases "rev n") simp_all
  have "\<forall>x \<in> set (rev n). x \<noteq> slash" using n by (auto simp: good_comp_def)
  then have w: "takeWhile (\<lambda>c. c \<noteq> slash) (rev n) = rev n" by (simp only: takeWhile_eq_all_conv)
  from n show ?thesis by (simp add: Base_def d w good_comp_def)
qed

text \<open>A cleaned path that begins with a directory and a separator lies below that directory.\<close>

lemma below_dir:
  assumes "\<forall>w \<in> set ws. good_comp w" and "\<forall>u \<in> set us. good_comp u" and "ws \<noteq> []"
    and "HasPrefix (abs_path us) (abs_path ws @ [slash])"
  shows "\<exists>vs. us = ws @ vs \<and> vs \<noteq> []"
proof -
  obtain t where t: "abs_path us = abs_path ws @ slash # t"
    using assms(4) by (metis HasPrefix_def append.assoc append_Cons append_Nil append_take_drop_id)
  have "us \<noteq> []"
    using t assms(3) by (cases ws) (auto simp: abs_path_def)
  then have "[] # us = Split (abs_path ws @ slash # t) slash"
    using Split_abs_path [OF assms(2)] by (simp add: t)
  also have "\<dots> = ([] # ws) @ Split t slash"
    using Split_abs_path [OF assms(1)] assms(3) by (simp add: Split_append)
  finally show ?thesis by auto
qed

end
