(* ===== verification/GoEncoding.thy ===== *)
theory GoEncoding
  imports Prelude
begin

text \<open>
  Go's \<^verbatim>\<open>encoding/base64\<close> (the standard alphabet with padding, and the URL
  alphabet without) and \<^verbatim>\<open>encoding/hex\<close>, on byte strings.
\<close>

section \<open>Sextets\<close>

text \<open>Three bytes are four sextets; a rest of one or two bytes is two or three sextets.\<close>

fun sextets :: "nat list \<Rightarrow> nat list" where
  "sextets (a # b # c # r) =
     [a div 4, (a mod 4) * 16 + b div 16, (b mod 16) * 4 + c div 64, c mod 64] @ sextets r"
| "sextets [a, b] = [a div 4, (a mod 4) * 16 + b div 16, (b mod 16) * 4]"
| "sextets [a] = [a div 4, (a mod 4) * 16]"
| "sextets [] = []"

text \<open>The inverse; \<open>None\<close> on a lone sextet, which encodes no byte.\<close>

fun octets :: "nat list \<Rightarrow> nat list option" where
  "octets (p # q # r # s # t) =
     map_option (\<lambda>bs. [p * 4 + q div 16, (q mod 16) * 16 + r div 4, (r mod 4) * 64 + s] @ bs)
       (octets t)"
| "octets [p, q, r] = Some [p * 4 + q div 16, (q mod 16) * 16 + r div 4]"
| "octets [p, q] = Some [p * 4 + q div 16]"
| "octets [p] = None"
| "octets [] = Some []"

lemma low_high:
  "b < 256 \<Longrightarrow> b div 16 div 16 = (0::nat)"
  "c < 256 \<Longrightarrow> c div 64 div 4 = (0::nat)"
  "b < 256 \<Longrightarrow> b div 16 mod 16 = b div (16::nat)"
  "c < 256 \<Longrightarrow> c div 64 mod 4 = c div (64::nat)"
  by auto

lemma sextet_arith:
  "b < 256 \<Longrightarrow> c < 256 \<Longrightarrow> b div 16 mod 16 * 16 + (b mod 16 + c div 64 div 4) = (b::nat)"
  "b < 256 \<Longrightarrow> b div 16 mod 16 * 16 + b mod 16 = (b::nat)"
  "c < 256 \<Longrightarrow> c div 64 mod 4 * 64 + c mod 64 = (c::nat)"
  by (simp_all only: low_high add_0_right div_mult_mod_eq)

lemma octets_sextets: "\<forall>b \<in> set bs. b < 256 \<Longrightarrow> octets (sextets bs) = Some bs"
  by (induction bs rule: sextets.induct) (simp_all add: sextet_arith low_high(1,2))

lemma sextets_less: "\<forall>b \<in> set bs. b < 256 \<Longrightarrow> s \<in> set (sextets bs) \<Longrightarrow> s < 64"
  by (induction bs rule: sextets.induct) auto

lemma length_sextets: "length (sextets bs) = (4 * length bs + 2) div 3"
  by (induction bs rule: sextets.induct) auto

section \<open>Alphabets\<close>

definition std_alphabet :: string where
  "std_alphabet = ''ABCDEFGHIJKLMNOPQRSTUVWXYZabcdefghijklmnopqrstuvwxyz0123456789+/''"

definition url_alphabet :: string where
  "url_alphabet = ''ABCDEFGHIJKLMNOPQRSTUVWXYZabcdefghijklmnopqrstuvwxyz0123456789-_''"

fun index_of :: "char \<Rightarrow> string \<Rightarrow> nat option" where
  "index_of c [] = None"
| "index_of c (x # xs) = (if x = c then Some 0 else map_option Suc (index_of c xs))"

lemma index_of_nth: "distinct xs \<Longrightarrow> n < length xs \<Longrightarrow> index_of (xs ! n) xs = Some n"
  by (induction xs arbitrary: n) (auto simp: nth_Cons split: nat.splits)

fun decode_all :: "string \<Rightarrow> string \<Rightarrow> nat list option" where
  "decode_all alpha [] = Some []"
| "decode_all alpha (c # cs) =
     (case index_of c alpha of None \<Rightarrow> None
      | Some n \<Rightarrow> map_option ((#) n) (decode_all alpha cs))"

lemma decode_all_map:
  "distinct alpha \<Longrightarrow> \<forall>n \<in> set ns. n < length alpha \<Longrightarrow>
   decode_all alpha (map ((!) alpha) ns) = Some ns"
  by (induction ns) (simp_all add: index_of_nth)

lemma alphabets: "distinct std_alphabet" "length std_alphabet = 64"
  "distinct url_alphabet" "length url_alphabet = 64"
  by (simp_all add: std_alphabet_def url_alphabet_def)

lemma alphabet_plain:
  "c \<in> set std_alphabet \<Longrightarrow> c \<noteq> CHR ''='' \<and> c \<noteq> CHR 10 \<and> c \<noteq> CHR 13"
  "c \<in> set url_alphabet \<Longrightarrow> c \<noteq> CHR ''='' \<and> c \<noteq> CHR 10 \<and> c \<noteq> CHR 13"
  by (auto simp: std_alphabet_def url_alphabet_def)

text \<open>The decoder skips line breaks anywhere in the input.\<close>

definition unwrap_lines :: "string \<Rightarrow> string" where
  "unwrap_lines s = filter (\<lambda>c. c \<noteq> CHR 10 \<and> c \<noteq> CHR 13) s"

section \<open>RawURLEncoding\<close>

definition RawURLEncode :: "bytes \<Rightarrow> string" where
  "RawURLEncode bs = map ((!) url_alphabet) (sextets (map code bs))"

definition RawURLDecode :: "string \<Rightarrow> bytes option" where
  "RawURLDecode s =
     (case decode_all url_alphabet (unwrap_lines s) of None \<Rightarrow> None
      | Some ns \<Rightarrow> map_option (map byte) (octets ns))"

lemma sextet_codes: "n \<in> set (sextets (map code bs)) \<Longrightarrow> n < 64"
  by (rule sextets_less [of "map code bs"]) (auto simp: code_less)

lemma unwrap_alphabet:
  "\<forall>c \<in> set s. c \<noteq> CHR 10 \<and> c \<noteq> CHR 13 \<Longrightarrow> unwrap_lines s = s"
  by (simp add: unwrap_lines_def)

lemma map_byte_code [simp]: "map byte (map code bs) = bs"
  by (induction bs) simp_all

lemma octets_codes: "octets (sextets (map code bs)) = Some (map code bs)"
  by (rule octets_sextets) (auto simp: code_less)

lemma RawURL_roundtrip: "RawURLDecode (RawURLEncode bs) = Some bs"
proof -
  have "unwrap_lines (RawURLEncode bs) = RawURLEncode bs"
    by (rule unwrap_alphabet)
       (auto simp: RawURLEncode_def alphabets dest!: sextet_codes
         intro!: alphabet_plain [THEN conjunct2, THEN conjunct1]
           alphabet_plain [THEN conjunct2, THEN conjunct2] nth_mem)
  then show ?thesis
    by (simp add: RawURLDecode_def RawURLEncode_def decode_all_map alphabets sextet_codes
        octets_codes comp_def)
qed

section \<open>StdEncoding\<close>

text \<open>The last group is filled up to four characters with the padding character.\<close>

definition b64_pad :: "nat \<Rightarrow> string" where
  "b64_pad n = replicate ((4 - n mod 4) mod 4) (CHR ''='')"

definition Base64Encode :: "bytes \<Rightarrow> string" where
  "Base64Encode bs =
     (let s = map ((!) std_alphabet) (sextets (map code bs)) in s @ b64_pad (length s))"

lemma length_Base64Encode: "length (Base64Encode bs) \<le> 2 * length bs + 4"
proof -
  let ?n = "(4 * length bs + 2) div 3"
  have "?n \<le> (6 * length bs + 3) div 3" by (intro div_le_mono) simp
  moreover have "(6 * length bs + 3) div 3 = 2 * length bs + 1" by simp
  moreover have "(4 - ?n mod 4) mod 4 < 4" by simp
  ultimately have "?n + (4 - ?n mod 4) mod 4 \<le> 2 * length bs + 4" by linarith
  then show ?thesis by (simp add: Base64Encode_def b64_pad_def length_sextets Let_def)
qed

text \<open>
  Decoding takes groups of four. Padding may stand in the last two places of the last
  group only; as in Go's lenient encodings the unused bits before it are not checked. The
  caller gets the bytes of the groups before an error along with the error.
\<close>

fun b64_groups :: "string \<Rightarrow> bytes \<times> bool" where
  "b64_groups (p # q # r # s # t) =
     (if s = CHR ''='' then
        (if r = CHR ''='' then
           (case decode_all std_alphabet [p, q] of
              Some [a, b] \<Rightarrow> ([byte (a * 4 + b div 16)], t = []) | _ \<Rightarrow> ([], False))
         else
           (case decode_all std_alphabet [p, q, r] of
              Some [a, b, c] \<Rightarrow>
                ([byte (a * 4 + b div 16), byte ((b mod 16) * 16 + c div 4)], t = [])
            | _ \<Rightarrow> ([], False)))
      else
        (case decode_all std_alphabet [p, q, r, s] of
           Some [a, b, c, d] \<Rightarrow>
             (let (bs, ok) = b64_groups t
              in ([byte (a * 4 + b div 16), byte ((b mod 16) * 16 + c div 4),
                   byte ((c mod 4) * 64 + d)] @ bs, ok))
         | _ \<Rightarrow> ([], False)))"
| "b64_groups [] = ([], True)"
| "b64_groups _ = ([], False)"

definition Base64DecodeErr :: "string \<Rightarrow> bytes \<times> bool" where
  "Base64DecodeErr s = b64_groups (unwrap_lines s)"

definition Base64Decode :: "string \<Rightarrow> bytes option" where
  "Base64Decode s = (case Base64DecodeErr s of (bs, ok) \<Rightarrow> if ok then Some bs else None)"

abbreviation std :: "nat \<Rightarrow> char" where
  "std n \<equiv> std_alphabet ! n"

lemma std_index: "n < 64 \<Longrightarrow> index_of (std n) std_alphabet = Some n"
  by (simp add: index_of_nth alphabets)

lemma std_plain: "n < 64 \<Longrightarrow> std n \<noteq> CHR ''='' \<and> std n \<noteq> CHR 10 \<and> std n \<noteq> CHR 13"
  by (rule alphabet_plain(1)) (simp add: alphabets nth_mem)

lemma b64_quad:
  "p < 64 \<Longrightarrow> q < 64 \<Longrightarrow> r < 64 \<Longrightarrow> s < 64 \<Longrightarrow> b64_groups t = (bs, True) \<Longrightarrow>
   b64_groups (std p # std q # std r # std s # t) =
     (byte (p * 4 + q div 16) # byte ((q mod 16) * 16 + r div 4) # byte ((r mod 4) * 64 + s) # bs,
      True)"
  by (simp add: std_index std_plain)

lemma b64_triple:
  "p < 64 \<Longrightarrow> q < 64 \<Longrightarrow> r < 64 \<Longrightarrow>
   b64_groups [std p, std q, std r, CHR ''=''] =
     ([byte (p * 4 + q div 16), byte ((q mod 16) * 16 + r div 4)], True)"
  by (simp add: std_index std_plain)

lemma b64_pair:
  "p < 64 \<Longrightarrow> q < 64 \<Longrightarrow>
   b64_groups [std p, std q, CHR ''='', CHR ''=''] = ([byte (p * 4 + q div 16)], True)"
  by (simp add: std_index std_plain)

lemma b64_pads:
  "b64_pad (Suc (Suc 0)) = [CHR ''='', CHR ''='']"
  "b64_pad (Suc (Suc (Suc 0))) = [CHR ''='']"
  by (simp_all add: b64_pad_def numeral_2_eq_2)

lemma b64_pad_Suc4: "b64_pad (Suc (Suc (Suc (Suc n)))) = b64_pad n"
  by (simp add: b64_pad_def)

lemma b64_groups_encode:
  "\<forall>b \<in> set bs. b < 256 \<Longrightarrow>
   b64_groups (map std (sextets bs) @ b64_pad (length (sextets bs))) = (map byte bs, True)"
proof (induction bs rule: sextets.induct)
  case (1 a b c r)
  then have a: "a < 256" "b < 256" "c < 256" by auto
  then have bounds: "a div 4 < 64" "(a mod 4) * 16 + b div 16 < 64"
    "(b mod 16) * 4 + c div 64 < 64" "c mod 64 < 64" by auto
  have eqs: "a div 4 * 4 + ((a mod 4) * 16 + b div 16) div 16 = a"
    "((a mod 4) * 16 + b div 16) mod 16 * 16 + ((b mod 16) * 4 + c div 64) div 4 = b"
    "((b mod 16) * 4 + c div 64) mod 4 * 64 + c mod 64 = c"
    using a by (simp_all add: low_high(1,2) sextet_arith)
  note quad = b64_quad [OF bounds, unfolded eqs]
  have "b64_groups (map std (sextets r) @ b64_pad (length (sextets r))) = (map byte r, True)"
    using 1 by auto
  from quad [OF this] show ?case
    by (simp add: b64_pad_Suc4 del: b64_groups.simps)
next
  case (2 a b)
  then have a: "a < 256" "b < 256" by auto
  then have bounds: "a div 4 < 64" "(a mod 4) * 16 + b div 16 < 64" "(b mod 16) * 4 < 64"
    by auto
  have eqs: "a div 4 * 4 + ((a mod 4) * 16 + b div 16) div 16 = a"
    "((a mod 4) * 16 + b div 16) mod 16 * 16 + ((b mod 16) * 4) div 4 = b"
    using a by (simp_all add: low_high(1,2) sextet_arith)
  show ?case
    using b64_triple [OF bounds, unfolded eqs] by (simp add: b64_pads del: b64_groups.simps)
next
  case (3 a)
  then have bounds: "a div 4 < 64" "(a mod 4) * 16 < 64" by auto
  have eqs: "a div 4 * 4 + ((a mod 4) * 16) div 16 = a" by simp
  show ?case
    using b64_pair [OF bounds, unfolded eqs] by (simp add: b64_pads del: b64_groups.simps)
qed (simp add: b64_pad_def)

lemma Base64_roundtrip_err: "Base64DecodeErr (Base64Encode bs) = (bs, True)"
proof -
  have "unwrap_lines (Base64Encode bs) = Base64Encode bs"
    by (rule unwrap_alphabet)
       (auto simp: Base64Encode_def b64_pad_def Let_def dest!: sextet_codes std_plain)
  then show ?thesis
    using b64_groups_encode [of "map code bs"]
    by (simp add: Base64DecodeErr_def Base64Encode_def Let_def code_less comp_def)
qed

lemma Base64_roundtrip [simp]: "Base64Decode (Base64Encode bs) = Some bs"
  by (simp add: Base64Decode_def Base64_roundtrip_err)

text \<open>The reader and the writer of a text encoding, as its callers rely on them.\<close>

locale codec =
  fixes enc :: "'a \<Rightarrow> string" and dec :: "string \<Rightarrow> 'a option"
  assumes dec_enc: "dec (enc x) = Some x"
begin

lemma enc_inj: "enc x = enc y \<Longrightarrow> x = y"
  by (metis dec_enc option.inject)

lemma dec_map_enc: "map dec (map enc xs) = map Some xs"
  by (simp add: dec_enc)

end

interpretation b64: codec Base64Encode Base64Decode
  by unfold_locales simp

interpretation b64url: codec RawURLEncode RawURLDecode
  by unfold_locales (rule RawURL_roundtrip)

section \<open>Hexadecimal\<close>

definition hex_digits :: string where
  "hex_digits = ''0123456789abcdef''"

fun HexEncode :: "bytes \<Rightarrow> string" where
  "HexEncode [] = []"
| "HexEncode (b # bs) = hex_digits ! (code b div 16) # hex_digits ! (code b mod 16) # HexEncode bs"

lemma length_HexEncode [simp]: "length (HexEncode bs) = 2 * length bs"
  by (induction bs) simp_all

section \<open>Encoded text is ASCII\<close>

definition ascii :: "string \<Rightarrow> bool" where
  "ascii s \<longleftrightarrow> (\<forall>c \<in> set s. code c < 128)"

lemma ascii_append [simp]: "ascii (a @ b) \<longleftrightarrow> ascii a \<and> ascii b"
  by (auto simp: ascii_def)

lemma ascii_Nil [simp]: "ascii []"
  by (simp add: ascii_def)

lemma std_alphabet_ascii: "\<forall>c \<in> set std_alphabet. code c < 128"
  by (simp add: std_alphabet_def)

lemma ascii_Base64Encode [simp]: "ascii (Base64Encode bs)"
proof -
  have "\<forall>n \<in> set (sextets (map code bs)). std n \<in> set std_alphabet"
    using sextet_codes by (auto simp: alphabets intro: nth_mem)
  then have "ascii (map std (sextets (map code bs)))"
    using std_alphabet_ascii by (auto simp: ascii_def)
  moreover have "ascii (b64_pad n)" for n
    by (auto simp: ascii_def b64_pad_def)
  ultimately show ?thesis by (simp add: Base64Encode_def Let_def)
qed

lemma hex_ascii: "n < 16 \<Longrightarrow> code (hex_digits ! n) < 128"
proof -
  have "\<forall>c \<in> set hex_digits. code c < 128" "length hex_digits = 16"
    by (simp_all add: hex_digits_def)
  then show "n < 16 \<Longrightarrow> code (hex_digits ! n) < 128" by (metis nth_mem)
qed

lemma ascii_HexEncode [simp]: "ascii (HexEncode bs)"
proof (induction bs)
  case (Cons b bs)
  have "code b div 16 < 16" using code_less [of b] by (simp add: less_mult_imp_div_less)
  then show ?case using Cons hex_ascii by (simp add: ascii_def)
qed simp

end
