(* ===== verification/Protocol.thy ===== *)
theory Protocol
  imports Config Crypto GoStrings GoEncoding
begin

text \<open>
  \<^verbatim>\<open>internal/protocol\<close>: the messages of \<^verbatim>\<open>conner.proto\<close> as the
  generated structs hold them, length-prefixed frames, the tagged handshake answers and the
  version check. The protobuf wire format belongs to a library: its encoders and decoders,
  one pair per message, are fields of the parameter, as are the two time formats.
\<close>

section \<open>Messages (conner.pb.go)\<close>

record KeyExchange =
  ke_X25519Pub :: bytes
  ke_Nonce :: bytes
  ke_PowDifficulty :: "32 word"
  ke_Version :: string

record ClientHello =
  h_X25519Pub :: bytes
  h_Nickname :: string
  h_Identity :: string
  h_SigningPub :: bytes
  h_Signature :: bytes
  h_PowNonce :: "64 word"
  h_E2EPub :: bytes
  h_Version :: string

record HandshakeOk =
  ok_VaultPort :: "32 word"
  ok_Version :: string
  ok_Approved :: bool

record HandshakeErr =
  err_Reason :: string

record ChatMessage =
  Type :: string
  Content :: string
  Sender :: string
  Timestamp :: string
  MsgIsAdmin :: bool
  Signature :: string
  PubKey :: string
  IsE2Ee :: bool
  ReplyTo :: string
  Mentions :: "string list"
  FileId :: string
  ChunkIdx :: int
  TotalChunks :: int
  OnionAddr :: string
  RatchetStep :: "32 word"
  MessageId :: string
  FileToken :: string

definition empty_message :: ChatMessage where
  "empty_message =
     \<lparr>Type = [], Content = [], Sender = [], Timestamp = [], MsgIsAdmin = False, Signature = [],
      PubKey = [], IsE2Ee = False, ReplyTo = [], Mentions = [], FileId = [], ChunkIdx = 0,
      TotalChunks = 0, OnionAddr = [], RatchetStep = 0, MessageId = [], FileToken = []\<rparr>"

record wire = prims +
  pb_chat :: "ChatMessage \<Rightarrow> bytes option"
  pb_chat_dec :: "bytes \<Rightarrow> ChatMessage option"
  pb_ke :: "KeyExchange \<Rightarrow> bytes option"
  pb_ke_dec :: "bytes \<Rightarrow> KeyExchange option"
  pb_hello :: "ClientHello \<Rightarrow> bytes option"
  pb_hello_dec :: "bytes \<Rightarrow> ClientHello option"
  pb_ok :: "HandshakeOk \<Rightarrow> bytes option"
  pb_ok_dec :: "bytes \<Rightarrow> HandshakeOk option"
  pb_err :: "HandshakeErr \<Rightarrow> bytes option"
  pb_err_dec :: "bytes \<Rightarrow> HandshakeErr option"
  fmt_stamp :: "int \<Rightarrow> string"
  fmt_clock :: "int \<Rightarrow> string"

text \<open>A message that marshals is the one its bytes unmarshal to.\<close>

definition pb_chat_ok :: "'a wire_scheme \<Rightarrow> bool" where
  "pb_chat_ok W \<longleftrightarrow> (\<forall>m b. pb_chat W m = Some b \<longrightarrow> pb_chat_dec W b = Some m)"

definition pb_handshake_ok :: "'a wire_scheme \<Rightarrow> bool" where
  "pb_handshake_ok W \<longleftrightarrow>
     (\<forall>m b. pb_ke W m = Some b \<longrightarrow> pb_ke_dec W b = Some m) \<and>
     (\<forall>m b. pb_hello W m = Some b \<longrightarrow> pb_hello_dec W b = Some m) \<and>
     (\<forall>m b. pb_ok W m = Some b \<longrightarrow> pb_ok_dec W b = Some m) \<and>
     (\<forall>m b. pb_err W m = Some b \<longrightarrow> pb_err_dec W b = Some m)"

text \<open>
  Marshalling refuses a string that is not UTF-8; a message of ASCII strings marshals. The
  time stamps are ASCII.
\<close>

definition ascii_msg :: "ChatMessage \<Rightarrow> bool" where
  "ascii_msg m \<longleftrightarrow>
     ascii (Type m) \<and> ascii (Content m) \<and> ascii (Sender m) \<and> ascii (Timestamp m) \<and>
     ascii (Signature m) \<and> ascii (PubKey m) \<and> ascii (ReplyTo m) \<and> (\<forall>s \<in> set (Mentions m). ascii s) \<and>
     ascii (FileId m) \<and> ascii (OnionAddr m) \<and> ascii (MessageId m) \<and> ascii (FileToken m)"

definition pb_ascii_ok :: "'a wire_scheme \<Rightarrow> bool" where
  "pb_ascii_ok W \<longleftrightarrow> (\<forall>m. ascii_msg m \<longrightarrow> pb_chat W m \<noteq> None) \<and> (\<forall>t. ascii (fmt_stamp W t))"

definition generateID :: "'a prims_scheme \<Rightarrow> nat \<Rightarrow> string \<times> nat" where
  "generateID P pos = (HexEncode (rand_bytes P pos 8), pos + 8)"

definition CreateMessage ::
  "'a wire_scheme \<Rightarrow> int \<Rightarrow> nat \<Rightarrow> string \<Rightarrow> string \<Rightarrow> string \<Rightarrow> ChatMessage \<times> nat" where
  "CreateMessage W now pos msgType content sender =
     (let (mid, pos') = generateID W pos
      in (empty_message\<lparr>Type := msgType, Content := content, Sender := sender,
            Timestamp := fmt_stamp W now, MessageId := mid\<rparr>, pos'))"

definition Encode :: "'a wire_scheme \<Rightarrow> ChatMessage \<Rightarrow> bytes option" where
  "Encode W c = pb_chat W c"

definition Decode :: "'a wire_scheme \<Rightarrow> bytes \<Rightarrow> ChatMessage option" where
  "Decode W data = pb_chat_dec W data"

lemma ascii_CreateMessage:
  "pb_ascii_ok W \<Longrightarrow> ascii ty \<Longrightarrow> ascii c \<Longrightarrow> ascii s \<Longrightarrow>
   ascii_msg (fst (CreateMessage W now pos ty c s))"
  by (simp add: CreateMessage_def generateID_def ascii_msg_def empty_message_def pb_ascii_ok_def)

lemma CreateMessage_fields [simp]:
  "Type (fst (CreateMessage W now pos ty c s)) = ty"
  "Content (fst (CreateMessage W now pos ty c s)) = c"
  "Sender (fst (CreateMessage W now pos ty c s)) = s"
  "snd (CreateMessage W now pos ty c s) = pos + 8"
  by (simp_all add: CreateMessage_def generateID_def)

lemma Encode_ascii:
  assumes "pb_ascii_ok W" and "pb_chat_ok W" and "ascii_msg m"
  obtains b where "Encode W m = Some b" and "Decode W b = Some m"
  using assms by (auto simp: pb_ascii_ok_def pb_chat_ok_def Encode_def Decode_def)

section \<open>Frames\<close>

definition MaxFrame :: nat where
  "MaxFrame = 8 * 1024 * 1024"

datatype io_error = EOF | UnexpectedEOF | FrameTooLarge

text \<open>\<^verbatim>\<open>io.ReadFull\<close>: exactly \<open>n\<close> bytes, or the error that tells an empty
  stream from a short one.\<close>

definition ReadFull :: "nat \<Rightarrow> bytes \<Rightarrow> io_error + bytes \<times> bytes" where
  "ReadFull n s =
     (if n \<le> length s then Inr (take n s, drop n s)
      else Inl (if s = [] then EOF else UnexpectedEOF))"

lemma ReadFull_append: "length a = n \<Longrightarrow> ReadFull n (a @ s) = Inr (a, s)"
  by (simp add: ReadFull_def)

lemma ReadFull_exact: "ReadFull n s = Inr (a, r) \<Longrightarrow> s = a @ r \<and> length a = n"
  by (auto simp: ReadFull_def split: if_splits)

text \<open>The bytes written on the connection, or the refusal.\<close>

definition SendFrame :: "bytes \<Rightarrow> io_error + bytes" where
  "SendFrame payload =
     (if length payload > MaxFrame then Inl FrameTooLarge
      else Inr (be32 (length payload) @ payload))"

definition ReadFrame :: "bytes \<Rightarrow> io_error + bytes \<times> bytes" where
  "ReadFrame conn =
     (case ReadFull 4 conn of Inl e \<Rightarrow> Inl e
      | Inr (header, rest) \<Rightarrow>
          (let n = rd_be32 header
           in if n > MaxFrame then Inl FrameTooLarge else ReadFull n rest))"

lemma ReadFrame_SendFrame:
  "SendFrame p = Inr w \<Longrightarrow> ReadFrame (w @ rest) = Inr (p, rest)"
  by (auto simp: SendFrame_def ReadFrame_def ReadFull_append rd_be32_be32 MaxFrame_def
      split: if_splits)

lemma ReadFrame_bound: "ReadFrame s = Inr (p, rest) \<Longrightarrow> length p \<le> MaxFrame"
  by (auto simp: ReadFrame_def ReadFull_def Let_def split: if_splits)

lemma ReadFrame_exact: "ReadFrame s = Inr (p, rest) \<Longrightarrow> \<exists>h. length h = 4 \<and> s = h @ p @ rest"
  unfolding ReadFrame_def Let_def
  by (fastforce dest!: ReadFull_exact split: if_splits sum.splits)

definition frame_opt :: "bytes \<Rightarrow> (bytes \<times> bytes) option" where
  "frame_opt s = (case ReadFrame s of Inl e \<Rightarrow> None | Inr r \<Rightarrow> Some r)"

definition put_frame :: "bytes \<Rightarrow> bytes" where
  "put_frame p = be32 (length p) @ p"

interpretation frames: framing put_frame frame_opt "\<lambda>p. length p \<le> MaxFrame"
proof
  fix x rest :: bytes
  assume "length x \<le> MaxFrame"
  then have "SendFrame x = Inr (put_frame x)" by (simp add: SendFrame_def put_frame_def)
  then show "frame_opt (put_frame x @ rest) = Some (x, rest)"
    by (simp add: frame_opt_def ReadFrame_SendFrame)
qed

section \<open>Handshake answers\<close>

definition hsOK :: char where
  "hsOK = byte 1"

definition hsErr :: char where
  "hsErr = byte 2"

lemma hs_tags [simp]: "hsOK \<noteq> hsErr" "hsErr \<noteq> hsOK"
  by (simp_all add: hsOK_def hsErr_def)

text \<open>The frame written, or \<open>None\<close> when nothing can be sent.\<close>

definition SendHandshakeErr :: "'a wire_scheme \<Rightarrow> string \<Rightarrow> bytes option" where
  "SendHandshakeErr W reason =
     (case pb_err W \<lparr>err_Reason = reason\<rparr> of None \<Rightarrow> None
      | Some b \<Rightarrow> (case SendFrame (hsErr # b) of Inl e \<Rightarrow> None | Inr w \<Rightarrow> Some w))"

definition SendHandshakeOK :: "'a wire_scheme \<Rightarrow> int \<Rightarrow> bool \<Rightarrow> bytes option" where
  "SendHandshakeOK W vaultPort approved =
     (case pb_ok W \<lparr>ok_VaultPort = word_of_int vaultPort, ok_Version = Version,
             ok_Approved = approved\<rparr> of None \<Rightarrow> None
      | Some b \<Rightarrow> (case SendFrame (hsOK # b) of Inl e \<Rightarrow> None | Inr w \<Rightarrow> Some w))"

definition UnmarshalOK :: "'a wire_scheme \<Rightarrow> bytes \<Rightarrow> HandshakeOk option" where
  "UnmarshalOK W data =
     (if length data < 2 \<or> hd data \<noteq> hsOK then None else pb_ok_dec W (tl data))"

definition UnmarshalErr :: "'a wire_scheme \<Rightarrow> bytes \<Rightarrow> HandshakeErr option" where
  "UnmarshalErr W data =
     (if length data < 2 \<or> hd data \<noteq> hsErr then None
      else case pb_err_dec W (tl data) of None \<Rightarrow> None
           | Some m \<Rightarrow> if err_Reason m = [] then None else Some m)"

definition LooksLikeTextHandshake :: "bytes \<Rightarrow> bool" where
  "LooksLikeTextHandshake b =
     (case b of [] \<Rightarrow> False | c # _ \<Rightarrow> 0x20 \<le> code c \<and> code c < 0x7f)"

section \<open>Versions\<close>

definition is_major_char :: "char \<Rightarrow> bool" where
  "is_major_char c \<longleftrightarrow>
     c = CHR ''v'' \<or> c = CHR ''V'' \<or> (code (CHR ''0'') \<le> code c \<and> code c \<le> code (CHR ''9''))"

definition major :: "string \<Rightarrow> string" where
  "major v = (let p = takeWhile is_major_char v in if p = [] then v else p)"

definition CompatibleVersion :: "string \<Rightarrow> string \<Rightarrow> bool" where
  "CompatibleVersion clientVer serverVer =
     (if clientVer = [] \<or> serverVer = [] then False else major clientVer = major serverVer)"

lemma major_Version: "major Version = ProtocolMajor"
  by (simp add: cfg major_def is_major_char_def)

end
