(* ===== verification/Host.thy ===== *)
theory Host
  imports Protocol
begin

text \<open>
  What a process of the program sees of its machine: the codecs of \<^verbatim>\<open>wire\<close>, the
  profile directory (\<^verbatim>\<open>internal/appdir\<close>) and the file system. A disk maps the path of
  each regular file to its content and modification time; directories come into being when
  needed (every \<^verbatim>\<open>MkdirAll\<close> of the program is of that kind and has no effect on
  files). What the operating system answers is a parameter: which paths can be opened for
  writing, on which a copy completes, which are directories.
\<close>

record vfile =
  content :: bytes
  mtime :: int

type_synonym disk = "string \<Rightarrow> vfile option"

record host = wire +
  app_root :: string
  workdir :: string
  can_write :: "string \<Rightarrow> bool"
  copy_ok :: "string \<Rightarrow> bool"
  is_dir :: "string \<Rightarrow> bool"

text \<open>A map of ASCII strings.\<close>

definition ascii_map :: "strmap \<Rightarrow> bool" where
  "ascii_map m \<longleftrightarrow> (\<forall>x \<in> set m. ascii (fst x) \<and> ascii (snd x))"

section \<open>Files (package os)\<close>

text \<open>The flag is \<^verbatim>\<open>err == nil\<close>.\<close>

definition write_disk :: "'a host_scheme \<Rightarrow> int \<Rightarrow> string \<Rightarrow> bytes \<Rightarrow> disk \<Rightarrow> bool \<times> disk" where
  "write_disk E now p data d =
     (if can_write E p then (True, d(p \<mapsto> \<lparr>content = data, mtime = now\<rparr>)) else (False, d))"

definition append_disk :: "'a host_scheme \<Rightarrow> int \<Rightarrow> string \<Rightarrow> bytes \<Rightarrow> disk \<Rightarrow> bool \<times> disk" where
  "append_disk E now p data d =
     write_disk E now p ((case d p of None \<Rightarrow> [] | Some f \<Rightarrow> content f) @ data) d"

definition rename_disk :: "'a host_scheme \<Rightarrow> string \<Rightarrow> string \<Rightarrow> disk \<Rightarrow> bool \<times> disk" where
  "rename_disk E p q d =
     (if can_write E q \<and> d p \<noteq> None then (True, d(p := None, q := d p)) else (False, d))"

definition remove_disk :: "string \<Rightarrow> disk \<Rightarrow> disk" where
  "remove_disk p d = d(p := None)"

definition read_disk :: "string \<Rightarrow> disk \<Rightarrow> bytes option" where
  "read_disk p d = map_option content (d p)"

lemma read_disk_write:
  "can_write E p \<Longrightarrow> read_disk q (snd (write_disk E now p data d)) = (if q = p then Some data else read_disk q d)"
  by (simp add: read_disk_def write_disk_def)

lemma read_disk_append:
  "can_write E p \<Longrightarrow> read_disk q (snd (append_disk E now p data d)) =
     (if q = p then Some ((case read_disk p d of None \<Rightarrow> [] | Some b \<Rightarrow> b) @ data) else read_disk q d)"
  by (cases "d p") (simp_all add: append_disk_def write_disk_def read_disk_def)

lemma read_disk_remove: "read_disk q (remove_disk p d) = (if q = p then None else read_disk q d)"
  by (simp add: read_disk_def remove_disk_def)

lemma other_file [frame]:
  "q \<noteq> p \<Longrightarrow> snd (write_disk E now p data d) q = d q"
  "q \<noteq> p \<Longrightarrow> snd (append_disk E now p data d) q = d q"
  "q \<noteq> p \<Longrightarrow> remove_disk p d q = d q"
  by (simp_all add: append_disk_def write_disk_def remove_disk_def)

text \<open>A temporary file written and renamed into place, as the access lists and the pinned
  identities are saved.\<close>

definition replace_disk :: "'a host_scheme \<Rightarrow> int \<Rightarrow> string \<Rightarrow> bytes \<Rightarrow> disk \<Rightarrow> disk" where
  "replace_disk E now path data d =
     (let tmp = path @ ''.tmp''; (ok, d1) = write_disk E now tmp data d
      in if \<not> ok then d1 else snd (rename_disk E tmp path d1))"

lemma replace_disk_path:
  "can_write E p \<Longrightarrow> can_write E (p @ ''.tmp'') \<Longrightarrow>
   replace_disk E now p data d p = Some \<lparr>content = data, mtime = now\<rparr>"
  by (simp add: replace_disk_def write_disk_def rename_disk_def)

lemma replace_disk_other [frame]:
  "q \<noteq> p \<Longrightarrow> q \<noteq> p @ ''.tmp'' \<Longrightarrow> replace_disk E now p data d q = d q"
  by (simp add: replace_disk_def write_disk_def rename_disk_def Let_def)

section \<open>The profile directory (appdir.go)\<close>

definition app_path :: "'a host_scheme \<Rightarrow> string list \<Rightarrow> string" where
  "app_path E elems = JoinPath (app_root E # elems)"

definition IdentityKey :: "'a host_scheme \<Rightarrow> string \<Rightarrow> string" where
  "IdentityKey E nick = app_path E [''identity'', ''identity_'' @ nick @ ''.key'']"

definition IdentityStorePath :: "'a host_scheme \<Rightarrow> string \<Rightarrow> string" where
  "IdentityStorePath E nick = app_path E [''identity'', ''identities_'' @ nick @ ''.json'']"

definition TorData :: "'a host_scheme \<Rightarrow> string" where
  "TorData E = app_path E [''tor'']"

definition RoomDir :: "'a host_scheme \<Rightarrow> string \<Rightarrow> string" where
  "RoomDir E roomID = app_path E [''rooms'', roomID]"

definition RoomOutbox :: "'a host_scheme \<Rightarrow> string \<Rightarrow> string" where
  "RoomOutbox E roomID = JoinPath [RoomDir E roomID, ''outbox'']"

definition RoomInbox :: "'a host_scheme \<Rightarrow> string \<Rightarrow> string" where
  "RoomInbox E roomID = JoinPath [RoomDir E roomID, ''inbox'']"

definition HistoryFile :: "'a host_scheme \<Rightarrow> string \<Rightarrow> string" where
  "HistoryFile E roomID = app_path E [''history'', roomID @ ''.bin'']"

definition WrappedKeyFile :: "'a host_scheme \<Rightarrow> string" where
  "WrappedKeyFile E = app_path E [''identity'', ''master.wrap'']"

definition IdentityKeyWrap :: "'a host_scheme \<Rightarrow> string \<Rightarrow> string" where
  "IdentityKeyWrap E nick = app_path E [''identity'', ''identity_'' @ nick @ ''.key.wrap'']"

definition QueueFile :: "'a host_scheme \<Rightarrow> string \<Rightarrow> string" where
  "QueueFile E nick = app_path E [''queue'', nick @ ''.ndjson'']"

end
