(* ===== verification/Rooms.thy ===== *)
theory Rooms
  imports Config
begin

text \<open>
  \<^verbatim>\<open>internal/rooms/rooms.go\<close>: the registry of rooms and their epochs. The map
  is an association list; its order is the (unspecified) order in which Go ranges over it.
\<close>

record Room =
  RoomID :: string
  Epoch :: "64 word"

type_synonym registry = "(string \<times> Room) list"

definition Default :: string where
  "Default = ''general''"

definition NewRegistry :: registry where
  "NewRegistry = AList.update Default \<lparr>RoomID = Default, Epoch = 1\<rparr> []"

definition Get :: "string \<Rightarrow> registry \<Rightarrow> Room option" where
  "Get rid r = map_of r rid"

definition Ensure :: "string \<Rightarrow> registry \<Rightarrow> Room \<times> registry" where
  "Ensure rid0 r =
     (let rid = (if rid0 = [] then Default else rid0)
      in case map_of r rid of
           Some rm \<Rightarrow> (rm, r)
         | None \<Rightarrow> (let rm = \<lparr>RoomID = rid, Epoch = 1\<rparr> in (rm, AList.update rid rm r)))"

definition RoomBumpEpoch :: "string \<Rightarrow> registry \<Rightarrow> 64 word \<times> registry" where
  "RoomBumpEpoch rid r =
     (let rm = (case map_of r rid of Some rm \<Rightarrow> rm | None \<Rightarrow> \<lparr>RoomID = rid, Epoch = 1\<rparr>);
          rm1 = rm\<lparr>Epoch := Epoch rm + 1\<rparr>
      in (Epoch rm1, AList.update rid rm1 r))"

definition ListRooms :: "registry \<Rightarrow> string list" where
  "ListRooms r = map fst r"

section \<open>The registry as its callers see it\<close>

definition registry_ok :: "registry \<Rightarrow> bool" where
  "registry_ok r \<longleftrightarrow>
     distinct (map fst r) \<and> (\<forall>rid rm. map_of r rid = Some rm \<longrightarrow> RoomID rm = rid) \<and>
     map_of r Default \<noteq> None"

text \<open>
  The contract: the default room always exists, a room is filed under its own id, asking
  for a room creates it and disturbs no other, and a bump touches one epoch.
\<close>

locale room_store =
  fixes new :: 'r
    and look :: "string \<Rightarrow> 'r \<Rightarrow> Room option"
    and ensure :: "string \<Rightarrow> 'r \<Rightarrow> Room \<times> 'r"
    and bump :: "string \<Rightarrow> 'r \<Rightarrow> 64 word \<times> 'r"
    and inv :: "'r \<Rightarrow> bool"
  assumes new_inv: "inv new"
    and ensure_inv: "inv r \<Longrightarrow> inv (snd (ensure i r))"
    and bump_inv: "inv r \<Longrightarrow> inv (snd (bump i r))"
    and default_look: "inv r \<Longrightarrow> look Default r \<noteq> None"
    and ensure_look: "inv r \<Longrightarrow> look (if i = [] then Default else i) (snd (ensure i r)) = Some (fst (ensure i r))"
    and ensure_other: "j \<noteq> (if i = [] then Default else i) \<Longrightarrow> look j (snd (ensure i r)) = look j r"
    and ensure_known: "look (if i = [] then Default else i) r = Some rm \<Longrightarrow> ensure i r = (rm, r)"
    and bump_look: "look i (snd (bump i r)) \<noteq> None \<and>
          Epoch (the (look i (snd (bump i r)))) = fst (bump i r)"
    and bump_epoch: "fst (bump i r) = (case look i r of None \<Rightarrow> 2 | Some rm \<Rightarrow> Epoch rm + 1)"
    and bump_other: "j \<noteq> i \<Longrightarrow> look j (snd (bump i r)) = look j r"
begin

lemma ensure_idem: "inv r \<Longrightarrow> ensure i (snd (ensure i r)) = (fst (ensure i r), snd (ensure i r))"
  by (rule ensure_known) (rule ensure_look)

lemma ensure_then_bump:
  assumes "inv r" and "i \<noteq> []"
  shows "fst (bump i (snd (ensure i r))) = Epoch (fst (ensure i r)) + 1"
  using ensure_look [OF assms(1), of i] assms(2) by (simp add: bump_epoch)

end

lemma registry_ok_update:
  assumes "registry_ok r" and "RoomID rm = rid"
  shows "registry_ok (AList.update rid rm r)"
proof -
  have "distinct (map fst (AList.update rid rm r))"
    using assms(1) unfolding registry_ok_def by (blast intro: distinct_update)
  with assms show ?thesis by (auto simp: registry_ok_def update_conv')
qed

interpretation rooms: room_store NewRegistry Get Ensure RoomBumpEpoch registry_ok
proof unfold_locales
  show "registry_ok NewRegistry"
    by (simp add: registry_ok_def NewRegistry_def Default_def)
next
  fix r i assume "registry_ok r"
  then show "registry_ok (snd (Ensure i r))"
    by (simp add: Ensure_def Let_def registry_ok_update split: option.split)
next
  fix r i assume ok: "registry_ok r"
  have "RoomID (case map_of r i of Some rm \<Rightarrow> rm | None \<Rightarrow> \<lparr>RoomID = i, Epoch = 1\<rparr>) = i"
    using ok by (auto simp: registry_ok_def split: option.split)
  with ok show "registry_ok (snd (RoomBumpEpoch i r))"
    by (simp add: RoomBumpEpoch_def Let_def registry_ok_update)
next
  fix r i j assume "j \<noteq> (if i = [] then Default else i)"
  then show "Get j (snd (Ensure i r)) = Get j r"
    by (cases "i = []") (simp_all add: Get_def Ensure_def Let_def update_conv' split: option.split)
next
  fix r i
  show "fst (RoomBumpEpoch i r) = (case Get i r of None \<Rightarrow> 2 | Some rm \<Rightarrow> Epoch rm + 1)"
    by (simp add: Get_def RoomBumpEpoch_def Let_def split: option.split)
qed (auto simp: registry_ok_def Get_def Ensure_def RoomBumpEpoch_def Let_def update_conv'
      split: option.splits)

end
