(* ===== verification/Memory.thy ===== *)
theory Memory
  imports Protocol
begin

text \<open>
  \<^verbatim>\<open>internal/server/memory.go\<close>: the hub's message memory, a slice capped at
  \<open>mlimit\<close> whose entries expire after \<open>ttl\<close> nanoseconds.
\<close>

record HistoryMessage =
  hm_Type :: string
  hm_Content :: string
  hm_Sender :: string
  hm_Timestamp :: string
  hm_ParsedTime :: int

record MemoryManager =
  messages :: "HistoryMessage list"
  mlimit :: nat
  ttl :: int

definition NewMemoryManager :: "nat \<Rightarrow> int \<Rightarrow> MemoryManager" where
  "NewMemoryManager n t = \<lparr>messages = [], mlimit = n, ttl = t\<rparr>"

definition keep_message :: "HistoryMessage \<Rightarrow> MemoryManager \<Rightarrow> MemoryManager" where
  "keep_message msg m = m\<lparr>messages := push_cap (mlimit m) msg (messages m)\<rparr>"

definition SaveMessage ::
  "'a wire_scheme \<Rightarrow> int \<Rightarrow> string \<Rightarrow> string \<Rightarrow> string \<Rightarrow> MemoryManager \<Rightarrow> MemoryManager" where
  "SaveMessage W now msgType content sender m =
     keep_message
       \<lparr>hm_Type = msgType, hm_Content = content, hm_Sender = sender,
        hm_Timestamp = fmt_stamp W now, hm_ParsedTime = now\<rparr> m"

definition GetHistory :: "MemoryManager \<Rightarrow> HistoryMessage list" where
  "GetHistory m = messages m"

fun cleanup_go ::
  "int \<Rightarrow> int \<Rightarrow> HistoryMessage list \<Rightarrow> HistoryMessage list \<times> nat" where
  "cleanup_go now t [] = ([], 0)"
| "cleanup_go now t (msg # ms) =
     (let (kept, purged) = cleanup_go now t ms
      in if now - hm_ParsedTime msg \<le> t then (msg # kept, purged) else (kept, Suc purged))"

definition CleanupOldMessages :: "int \<Rightarrow> MemoryManager \<Rightarrow> nat \<times> MemoryManager" where
  "CleanupOldMessages now m =
     (let (kept, purged) = cleanup_go now (ttl m) (messages m)
      in (purged, m\<lparr>messages := kept\<rparr>))"

definition Clear :: "MemoryManager \<Rightarrow> MemoryManager" where
  "Clear m = m\<lparr>messages := []\<rparr>"

interpretation memory: capped_log keep_message messages mlimit
  by unfold_locales (simp_all add: keep_message_def)

lemma cleanup_go_spec:
  "cleanup_go now t ms =
     (filter (\<lambda>msg. now - hm_ParsedTime msg \<le> t) ms,
      length (filter (\<lambda>msg. \<not> now - hm_ParsedTime msg \<le> t) ms))"
  by (induction ms) simp_all

definition memory_ok :: "MemoryManager \<Rightarrow> bool" where
  "memory_ok m \<longleftrightarrow> length (messages m) \<le> mlimit m"

lemma memory_ok_ops [frame]:
  "memory_ok (NewMemoryManager n t)"
  "memory_ok (SaveMessage W now ty c s m)"
  "memory_ok m \<Longrightarrow> memory_ok (snd (CleanupOldMessages now m))"
  "memory_ok (Clear m)"
  using memory.push_bounded
  by (auto simp: memory_ok_def NewMemoryManager_def SaveMessage_def memory.cap_push
      CleanupOldMessages_def cleanup_go_spec Clear_def intro: le_trans [OF length_filter_le])

lemma mlimit_ops [frame]:
  "mlimit (SaveMessage W now ty c s m) = mlimit m"
  "mlimit (snd (CleanupOldMessages now m)) = mlimit m"
  "mlimit (Clear m) = mlimit m"
  by (simp_all add: SaveMessage_def memory.cap_push CleanupOldMessages_def cleanup_go_spec Clear_def)

end
