(* ===== verification/HubState.thy ===== *)
theory HubState
  imports Host Rooms Memory
begin

text \<open>
  The state of the hub (\<^verbatim>\<open>internal/server\<close>): the \<^verbatim>\<open>Server\<close> and
  \<^verbatim>\<open>Client\<close> structs, \<^verbatim>\<open>manager.go\<close>, the two logs,
  \<^verbatim>\<open>persist.go\<close> and the sending primitives of \<^verbatim>\<open>core.go\<close>.

  Client objects are shared by pointer (the connection's goroutine, the manager's map, the
  delayed removals), so they live in a heap \<open>objs\<close> and the map of the manager holds
  references. Go maps are association lists whose order stands for the order of a
  \<^verbatim>\<open>range\<close>, which Go leaves open. \<open>clock\<close> is the time in nanoseconds,
  \<open>rpos\<close> the position in the random source, \<open>disk\<close> the regular files,
  \<open>pending\<close> the removals scheduled by \<^verbatim>\<open>BlockClient\<close>.
\<close>

section \<open>Data\<close>

record Client =
  Nickname :: string
  Address :: string
  Identity :: string
  JoinTime :: int
  EncryptionKey :: bytes
  State :: string
  MessageCount :: int
  SendChan :: "string list"
  IsAdmin :: bool
  LastSeen :: int
  SigningPubKey :: bytes
  E2EPubKey :: bytes
  winStart :: "int option"
  winCount :: int
  ConnOpen :: bool
  Written :: bytes
  Pumping :: bool
  Reading :: bool

record EventEntry =
  EventTime :: int
  Icon :: string
  EventText :: string

record ServerStats =
  TotalConnections :: int
  MessagesSent :: int
  CommandsExecuted :: int
  KicksIssued :: int
  StartTime :: int
  TorAddress :: string

record aclFile =
  f_Whitelist :: "strmap option"
  f_Blacklist :: "strmap option"
  f_Admins :: "strmap option"
  f_VaultToken :: string

record Hub =
  objs :: "nat \<Rightarrow> Client"
  next_obj :: nat
  clients :: "(string \<times> nat) list"
  DBManager :: MemoryManager
  Running :: bool
  ConsoleHistory :: "string list"
  Stats :: ServerStats
  EventLog :: "EventEntry list"
  BlacklistMap :: strmap
  WhitelistMap :: strmap
  RoomKey :: bytes
  VaultToken :: string
  VaultDir :: string
  HTTPPort :: int
  RawConns :: int
  AutoApprove :: bool
  Rooms :: registry
  Admins :: strmap
  clock :: int
  rpos :: nat
  disk :: disk
  pending :: "nat list"

text \<open>
  The environment: the machine of theory \<open>Host\<close> and JSON for the access lists.
  \<open>workdir\<close> is \<^verbatim>\<open>CONNER_WORKDIR\<close>. The last four fields of a client stand for its connection: open or
  closed, the bytes written to it, and whether its write and read loops still run.
\<close>

record hub_env = host +
  acl_json :: "aclFile \<Rightarrow> bytes option"
  acl_unjson :: "bytes \<Rightarrow> aclFile option"

definition empty_client :: Client where
  "empty_client =
     \<lparr>Nickname = [], Address = [], Identity = [], JoinTime = 0, EncryptionKey = [], State = [],
      MessageCount = 0, SendChan = [], IsAdmin = False, LastSeen = 0, SigningPubKey = [],
      E2EPubKey = [], winStart = None, winCount = 0, ConnOpen = False, Written = [],
      Pumping = False, Reading = False\<rparr>"

definition upd_obj :: "nat \<Rightarrow> (Client \<Rightarrow> Client) \<Rightarrow> Hub \<Rightarrow> Hub" where
  "upd_obj r f H = H\<lparr>objs := (objs H)(r := f (objs H r))\<rparr>"

lemma upd_obj_same [simp]: "objs (upd_obj r f H) r = f (objs H r)"
  by (simp add: upd_obj_def)

lemma upd_obj_other [simp]: "q \<noteq> r \<Longrightarrow> objs (upd_obj r f H) q = objs H q"
  by (simp add: upd_obj_def)

lemma upd_obj_fields [simp]:
  "next_obj (upd_obj r f H) = next_obj H" "clients (upd_obj r f H) = clients H"
  "DBManager (upd_obj r f H) = DBManager H" "Running (upd_obj r f H) = Running H"
  "ConsoleHistory (upd_obj r f H) = ConsoleHistory H" "Stats (upd_obj r f H) = Stats H"
  "EventLog (upd_obj r f H) = EventLog H" "BlacklistMap (upd_obj r f H) = BlacklistMap H"
  "WhitelistMap (upd_obj r f H) = WhitelistMap H" "RoomKey (upd_obj r f H) = RoomKey H"
  "VaultToken (upd_obj r f H) = VaultToken H" "VaultDir (upd_obj r f H) = VaultDir H"
  "HTTPPort (upd_obj r f H) = HTTPPort H" "RawConns (upd_obj r f H) = RawConns H"
  "AutoApprove (upd_obj r f H) = AutoApprove H" "Rooms (upd_obj r f H) = Rooms H"
  "Admins (upd_obj r f H) = Admins H" "clock (upd_obj r f H) = clock H"
  "rpos (upd_obj r f H) = rpos H" "disk (upd_obj r f H) = disk H"
  "pending (upd_obj r f H) = pending H"
  by (simp_all add: upd_obj_def)

section \<open>manager.go\<close>

definition AddClient :: "string \<Rightarrow> nat \<Rightarrow> Hub \<Rightarrow> Hub" where
  "AddClient addr r H = H\<lparr>clients := AList.update addr r (clients H)\<rparr>"

definition RemoveClient :: "string \<Rightarrow> Hub \<Rightarrow> nat option \<times> Hub" where
  "RemoveClient addr H =
     (let client = map_of (clients H) addr
      in (client,
          if client \<noteq> None then H\<lparr>clients := AList.delete addr (clients H)\<rparr> else H))"

definition GetClient :: "string \<Rightarrow> Hub \<Rightarrow> nat option" where
  "GetClient addr H = map_of (clients H) addr"

definition GetAllClients :: "Hub \<Rightarrow> nat list" where
  "GetAllClients H = map snd (clients H)"

definition GetClientByNickname :: "string \<Rightarrow> Hub \<Rightarrow> nat option" where
  "GetClientByNickname nick H = List.find (\<lambda>r. Nickname (objs H r) = nick) (map snd (clients H))"

definition Count :: "Hub \<Rightarrow> nat" where
  "Count H = length (clients H)"

definition WhitelistedCount :: "Hub \<Rightarrow> nat" where
  "WhitelistedCount H = length (filter (\<lambda>r. State (objs H r) = ''WHITELISTED'') (map snd (clients H)))"

section \<open>The two logs\<close>

definition push_event :: "EventEntry \<Rightarrow> Hub \<Rightarrow> Hub" where
  "push_event e H = H\<lparr>EventLog := push_cap 200 e (EventLog H)\<rparr>"

definition AddEvent :: "string \<Rightarrow> string \<Rightarrow> Hub \<Rightarrow> Hub" where
  "AddEvent icon text H = push_event \<lparr>EventTime = clock H, Icon = icon, EventText = text\<rparr> H"

definition push_console :: "string \<Rightarrow> Hub \<Rightarrow> Hub" where
  "push_console entry H = H\<lparr>ConsoleHistory := push_cap 1000 entry (ConsoleHistory H)\<rparr>"

definition Log :: "'a wire_scheme \<Rightarrow> string \<Rightarrow> Hub \<Rightarrow> Hub" where
  "Log E msg H = push_console (''['' @ fmt_clock E (clock H) @ ''] '' @ msg) H"

definition GetEvents :: "Hub \<Rightarrow> EventEntry list" where
  "GetEvents H = EventLog H"

definition GetBlockedList :: "Hub \<Rightarrow> string list" where
  "GetBlockedList H = map (\<lambda>(i, nick). i @ '' ('' @ nick @ '')'') (BlacklistMap H)"

interpretation event_log: capped_log push_event EventLog "\<lambda>_. 200"
  by unfold_locales (simp_all add: push_event_def)

interpretation console_log: capped_log push_console ConsoleHistory "\<lambda>_. 1000"
  by unfold_locales (simp_all add: push_console_def)

section \<open>Operations that only talk\<close>

text \<open>
  Most of what the hub does is to append to logs, count, keep a line of history and queue
  ciphertext. \<open>settled\<close> erases exactly the fields such operations touch; the contract
  says that an operation leaves the rest alone, keeps the logs and queues within their
  bounds and only ever appends to a queue.
\<close>

definition no_stats :: ServerStats where
  "no_stats =
     \<lparr>TotalConnections = 0, MessagesSent = 0, CommandsExecuted = 0, KicksIssued = 0,
      StartTime = 0, TorAddress = []\<rparr>"

definition settled :: "Hub \<Rightarrow> Hub" where
  "settled H =
     H\<lparr>objs := (\<lambda>r. (objs H r)\<lparr>SendChan := []\<rparr>), DBManager := NewMemoryManager 0 0,
       ConsoleHistory := [], Stats := no_stats, EventLog := [], rpos := 0\<rparr>"

definition bounded :: "Hub \<Rightarrow> bool" where
  "bounded H \<longleftrightarrow>
     length (ConsoleHistory H) \<le> 1000 \<and> length (EventLog H) \<le> 200 \<and> memory_ok (DBManager H) \<and>
     mlimit (DBManager H) = MessageHistoryLimit \<and> (\<forall>r. length (SendChan (objs H r)) \<le> 100)"

definition queues_grow :: "Hub \<Rightarrow> Hub \<Rightarrow> bool" where
  "queues_grow H H' \<longleftrightarrow> (\<forall>r. \<exists>d. SendChan (objs H' r) = SendChan (objs H r) @ d)"

lemma queues_grow_refl [simp, intro]: "queues_grow H H"
  by (simp add: queues_grow_def)

lemma queues_grow_trans: "queues_grow H H' \<Longrightarrow> queues_grow H' H'' \<Longrightarrow> queues_grow H H''"
  unfolding queues_grow_def by (metis append.assoc)

definition talks :: "Hub \<Rightarrow> Hub \<Rightarrow> bool" where
  "talks H H' \<longleftrightarrow> settled H' = settled H \<and> (bounded H \<longrightarrow> bounded H') \<and> queues_grow H H'"

lemma talks_refl [simp, intro]: "talks H H"
  by (simp add: talks_def)

lemma talks_trans [trans]: "talks H H' \<Longrightarrow> talks H' H'' \<Longrightarrow> talks H H''"
  by (auto simp: talks_def intro: queues_grow_trans)

lemma settledD:
  assumes "settled H' = settled H"
  shows "next_obj H' = next_obj H" "clients H' = clients H" "Running H' = Running H"
    "BlacklistMap H' = BlacklistMap H" "WhitelistMap H' = WhitelistMap H"
    "RoomKey H' = RoomKey H" "VaultToken H' = VaultToken H" "VaultDir H' = VaultDir H"
    "HTTPPort H' = HTTPPort H" "RawConns H' = RawConns H" "AutoApprove H' = AutoApprove H"
    "Rooms H' = Rooms H" "Admins H' = Admins H" "clock H' = clock H" "disk H' = disk H"
    "pending H' = pending H" "(objs H' r)\<lparr>SendChan := []\<rparr> = (objs H r)\<lparr>SendChan := []\<rparr>"
proof -
  have "\<And>f. f (settled H') = f (settled H)" using assms by simp
  note * = this
  from * [of next_obj] * [of clients] * [of Running] * [of BlacklistMap] * [of WhitelistMap]
    * [of RoomKey] * [of VaultToken] * [of VaultDir] * [of HTTPPort] * [of RawConns]
    * [of AutoApprove] * [of Rooms] * [of Admins] * [of clock] * [of disk] * [of pending]
    * [of "\<lambda>H. objs H r"]
  show "next_obj H' = next_obj H" "clients H' = clients H" "Running H' = Running H"
    "BlacklistMap H' = BlacklistMap H" "WhitelistMap H' = WhitelistMap H"
    "RoomKey H' = RoomKey H" "VaultToken H' = VaultToken H" "VaultDir H' = VaultDir H"
    "HTTPPort H' = HTTPPort H" "RawConns H' = RawConns H" "AutoApprove H' = AutoApprove H"
    "Rooms H' = Rooms H" "Admins H' = Admins H" "clock H' = clock H" "disk H' = disk H"
    "pending H' = pending H" "(objs H' r)\<lparr>SendChan := []\<rparr> = (objs H r)\<lparr>SendChan := []\<rparr>"
    by (simp_all add: settled_def)
qed

lemma client_fields:
  assumes "(c' :: Client)\<lparr>SendChan := []\<rparr> = c\<lparr>SendChan := []\<rparr>"
  shows "Nickname c' = Nickname c" "Address c' = Address c" "Identity c' = Identity c"
    "EncryptionKey c' = EncryptionKey c" "State c' = State c" "IsAdmin c' = IsAdmin c"
    "SigningPubKey c' = SigningPubKey c" "E2EPubKey c' = E2EPubKey c" "LastSeen c' = LastSeen c"
    "ConnOpen c' = ConnOpen c" "winStart c' = winStart c" "winCount c' = winCount c"
    "MessageCount c' = MessageCount c" "Written c' = Written c" "JoinTime c' = JoinTime c"
    "Pumping c' = Pumping c" "Reading c' = Reading c"
  using assms by (cases c', cases c, simp)+

named_theorems talk \<open>introduction rules for \<open>talks\<close>\<close>

lemma talks_if [talk]: "talks H A \<Longrightarrow> talks H B \<Longrightarrow> talks H (if b then A else B)"
  by simp

lemmas talks_refl [talk]

named_theorems bound \<open>introduction rules for \<open>bounded\<close>\<close>

lemma bounded_if [bound]: "bounded A \<Longrightarrow> bounded B \<Longrightarrow> bounded (if b then A else B)"
  by simp

locale talking =
  fixes f :: "Hub \<Rightarrow> Hub"
  assumes talks_f: "talks H (f H)"
begin

lemma after [talk]: "talks H H' \<Longrightarrow> talks H (f H')"
  by (rule talks_trans [OF _ talks_f])

lemma settled_f: "settled (f H) = settled H"
  using talks_f [of H] by (simp add: talks_def)

lemma fields [simp]:
  "next_obj (f H) = next_obj H" "clients (f H) = clients H" "Running (f H) = Running H"
  "BlacklistMap (f H) = BlacklistMap H" "WhitelistMap (f H) = WhitelistMap H"
  "RoomKey (f H) = RoomKey H" "VaultToken (f H) = VaultToken H" "VaultDir (f H) = VaultDir H"
  "HTTPPort (f H) = HTTPPort H" "RawConns (f H) = RawConns H"
  "AutoApprove (f H) = AutoApprove H" "Rooms (f H) = Rooms H" "Admins (f H) = Admins H"
  "clock (f H) = clock H" "disk (f H) = disk H" "pending (f H) = pending H"
  by (rule settledD [OF settled_f])+

lemma obj_fields [simp]:
  "Nickname (objs (f H) r) = Nickname (objs H r)" "Address (objs (f H) r) = Address (objs H r)"
  "Identity (objs (f H) r) = Identity (objs H r)" "State (objs (f H) r) = State (objs H r)"
  "EncryptionKey (objs (f H) r) = EncryptionKey (objs H r)"
  "IsAdmin (objs (f H) r) = IsAdmin (objs H r)"
  "SigningPubKey (objs (f H) r) = SigningPubKey (objs H r)"
  "E2EPubKey (objs (f H) r) = E2EPubKey (objs H r)"
  "LastSeen (objs (f H) r) = LastSeen (objs H r)" "ConnOpen (objs (f H) r) = ConnOpen (objs H r)"
  "winStart (objs (f H) r) = winStart (objs H r)" "winCount (objs (f H) r) = winCount (objs H r)"
  "MessageCount (objs (f H) r) = MessageCount (objs H r)"
  "Written (objs (f H) r) = Written (objs H r)" "JoinTime (objs (f H) r) = JoinTime (objs H r)"
  "Pumping (objs (f H) r) = Pumping (objs H r)" "Reading (objs (f H) r) = Reading (objs H r)"
  by (rule client_fields [OF settledD(17) [OF settled_f]])+

lemma bounded_f [bound]: "bounded H \<Longrightarrow> bounded (f H)"
  using talks_f [of H] by (simp add: talks_def)

lemma grows_f: "queues_grow H (f H)"
  using talks_f [of H] by (simp add: talks_def)

lemma GetAllClients_f [simp]: "GetAllClients (f H) = GetAllClients H"
  by (simp add: GetAllClients_def)

lemma by_nick_f [simp]: "GetClientByNickname nick (f H) = GetClientByNickname nick H"
  by (simp add: GetClientByNickname_def)

lemma count_f [simp]: "WhitelistedCount (f H) = WhitelistedCount H"
  by (simp add: WhitelistedCount_def)

end

lemma talks_fold [talk]:
  "(\<And>x H'. talks H H' \<Longrightarrow> talks H (g x H')) \<Longrightarrow> talks H H' \<Longrightarrow> talks H (fold g xs H')"
  by (induction xs arbitrary: H') simp_all

interpretation AddEvent: talking "AddEvent icon t" for icon t
  using event_log.push_bounded
  by unfold_locales (simp add: talks_def settled_def bounded_def queues_grow_def AddEvent_def push_event_def
      push_cap_lastn)

interpretation Log: talking "Log E msg" for E msg
  by unfold_locales (simp add: talks_def settled_def bounded_def queues_grow_def Log_def push_console_def
      push_cap_lastn)

end
