(* ===== verification/Glyphs.thy ===== *)
theory Glyphs
  imports Prelude
begin

text \<open>
  The string literals of the program that are not ASCII, as the UTF-8 bytes Go compiles
  them to.
\<close>

definition u_check :: string where
  "u_check = map byte [0xE2, 0x9C, 0x85]"

definition u_zap :: string where
  "u_zap = map byte [0xE2, 0x9A, 0xA1]"

definition u_no_entry :: string where
  "u_no_entry = map byte [0xE2, 0x9B, 0x94]"

definition u_warn :: string where
  "u_warn = map byte [0xE2, 0x9A, 0xA0, 0xEF, 0xB8, 0x8F]"

definition u_join :: string where
  "u_join = map byte [0xE2, 0x9E, 0x9C]"

definition u_leave :: string where
  "u_leave = map byte [0xE2, 0x87, 0xA0]"

definition u_wave :: string where
  "u_wave = map byte [0xF0, 0x9F, 0x91, 0x8B]"

definition u_bell :: string where
  "u_bell = map byte [0xF0, 0x9F, 0x94, 0x94]"

definition u_red :: string where
  "u_red = map byte [0xF0, 0x9F, 0x94, 0xB4]"

definition u_plug :: string where
  "u_plug = map byte [0xF0, 0x9F, 0x94, 0x8C]"

definition u_mega :: string where
  "u_mega = map byte [0xF0, 0x9F, 0x93, 0xA2]"

definition u_cycle :: string where
  "u_cycle = map byte [0xF0, 0x9F, 0x94, 0x84]"

definition u_cross :: string where
  "u_cross = map byte [0xE2, 0x9D, 0x8C]"

definition u_dash :: string where
  "u_dash = map byte [0xE2, 0x80, 0x94]"

definition u_arrow :: string where
  "u_arrow = map byte [0xE2, 0x86, 0x92]"

definition u_inbox :: string where
  "u_inbox = map byte [0xF0, 0x9F, 0x93, 0xA5]"

definition u_outbox :: string where
  "u_outbox = map byte [0xF0, 0x9F, 0x93, 0xA4]"

definition u_siren :: string where
  "u_siren = map byte [0xF0, 0x9F, 0x9A, 0xA8]"

definition u_shield :: string where
  "u_shield = map byte [0xF0, 0x9F, 0x9B, 0xA1, 0xEF, 0xB8, 0x8F]"

definition u_middot :: string where
  "u_middot = map byte [0xC2, 0xB7]"

definition u_noteq :: string where
  "u_noteq = map byte [0xE2, 0x89, 0xA0]"

definition u_updown :: string where
  "u_updown = map byte [0xE2, 0x86, 0x91, 0xE2, 0x86, 0x93]"

definition u_tick :: string where
  "u_tick = map byte [0xE2, 0x9C, 0x93]"

definition u_larrow :: string where
  "u_larrow = map byte [0xE2, 0x86, 0x90]"

definition u_bullet :: string where
  "u_bullet = map byte [0xE2, 0x80, 0xA2]"

end
