(* ===== verification/HubSend.thy ===== *)
theory HubSend
  imports HubState Glyphs
begin

text \<open>
  How the hub talks and what it stores: \<^verbatim>\<open>persist.go\<close> and the senders of
  \<^verbatim>\<open>core.go\<close> (\<^verbatim>\<open>SendSystemMessage\<close>, \<^verbatim>\<open>SendMessage\<close>, the
  broadcasts). Every payload is a message encoded, encrypted under the receiver's session
  key and written in base64 to a channel of capacity 100; a full channel drops it.
\<close>

section \<open>persist.go\<close>

definition aclPath :: "'a hub_env_scheme \<Rightarrow> string" where
  "aclPath E = app_path E [''hub-acl.json'']"

definition copyMap :: "strmap \<Rightarrow> strmap" where
  "copyMap m = fold (\<lambda>(k, v) out. AList.update k v out) m []"

definition loadACL :: "'a hub_env_scheme \<Rightarrow> Hub \<Rightarrow> Hub" where
  "loadACL E H0 =
     (let H = H0\<lparr>Admins := []\<rparr>
      in case disk H (aclPath E) of None \<Rightarrow> H
         | Some data \<Rightarrow>
             (case acl_unjson E (content data) of None \<Rightarrow> H
              | Some f \<Rightarrow>
                  H\<lparr>WhitelistMap := (case f_Whitelist f of None \<Rightarrow> WhitelistMap H | Some m \<Rightarrow> m),
                    BlacklistMap := (case f_Blacklist f of None \<Rightarrow> BlacklistMap H | Some m \<Rightarrow> m),
                    Admins := (case f_Admins f of None \<Rightarrow> Admins H | Some m \<Rightarrow> m),
                    VaultToken := (if f_VaultToken f \<noteq> [] then f_VaultToken f else VaultToken H)\<rparr>))"

text \<open>\<^verbatim>\<open>os.WriteFile\<close> and \<^verbatim>\<open>os.Rename\<close>; the flag is \<^verbatim>\<open>err == nil\<close>.\<close>

definition write_file :: "'a hub_env_scheme \<Rightarrow> string \<Rightarrow> bytes \<Rightarrow> Hub \<Rightarrow> bool \<times> Hub" where
  "write_file E p data H =
     (if can_write E p then (True, H\<lparr>disk := (disk H)(p \<mapsto> \<lparr>content = data, mtime = clock H\<rparr>)\<rparr>)
      else (False, H))"

definition rename_file :: "'a hub_env_scheme \<Rightarrow> string \<Rightarrow> string \<Rightarrow> Hub \<Rightarrow> bool \<times> Hub" where
  "rename_file E p q H =
     (if can_write E q \<and> disk H p \<noteq> None then (True, H\<lparr>disk := (disk H)(p := None, q := disk H p)\<rparr>)
      else (False, H))"

definition acl_of :: "Hub \<Rightarrow> aclFile" where
  "acl_of H =
     \<lparr>f_Whitelist = Some (copyMap (WhitelistMap H)), f_Blacklist = Some (copyMap (BlacklistMap H)),
      f_Admins = Some (copyMap (Admins H)), f_VaultToken = VaultToken H\<rparr>"

definition saveACL :: "'a hub_env_scheme \<Rightarrow> Hub \<Rightarrow> Hub" where
  "saveACL E H =
     (case acl_json E (acl_of H) of None \<Rightarrow> H
      | Some data \<Rightarrow>
          (let tmp = aclPath E @ ''.tmp'';
               (ok, H1) = write_file E tmp data H
           in if \<not> ok then H1 else snd (rename_file E tmp (aclPath E) H1)))"

definition rememberAdmin :: "'a hub_env_scheme \<Rightarrow> string \<Rightarrow> string \<Rightarrow> Hub \<Rightarrow> Hub" where
  "rememberAdmin E pubB64 nick H = saveACL E (H\<lparr>Admins := AList.update pubB64 nick (Admins H)\<rparr>)"

definition isStoredAdmin :: "string \<Rightarrow> Hub \<Rightarrow> bool" where
  "isStoredAdmin pubB64 H \<longleftrightarrow> map_of (Admins H) pubB64 \<noteq> None"

lemma saveACL_disk: "\<exists>d. saveACL E H = H\<lparr>disk := d\<rparr> \<and>
    (\<forall>p. p \<noteq> aclPath E \<and> p \<noteq> aclPath E @ ''.tmp'' \<longrightarrow> d p = disk H p)"
proof -
  have H: "\<exists>d. H = H\<lparr>disk := d\<rparr> \<and>
      (\<forall>p. p \<noteq> aclPath E \<and> p \<noteq> aclPath E @ ''.tmp'' \<longrightarrow> d p = disk H p)"
    by (rule exI [of _ "disk H"]) simp
  show ?thesis
  proof (cases "acl_json E (acl_of H)")
    case None
    with H show ?thesis by (simp add: saveACL_def)
  next
    case (Some data)
    show ?thesis
    proof (cases "can_write E (aclPath E @ ''.tmp'')")
      case False
      with H Some show ?thesis by (simp add: saveACL_def write_file_def)
    next
      case True
      let ?f = "Some \<lparr>content = data, mtime = clock H\<rparr>"
      let ?t = "aclPath E @ ''.tmp''"
      have "saveACL E H = H\<lparr>disk := (disk H)(?t := ?f)\<rparr> \<or>
          saveACL E H = H\<lparr>disk := (disk H)(?t := None, aclPath E := ?f)\<rparr>"
        using True Some by (simp add: saveACL_def write_file_def rename_file_def Let_def)
      then show ?thesis
      proof
        assume "saveACL E H = H\<lparr>disk := (disk H)(?t := ?f)\<rparr>"
        then show ?thesis by (intro exI [of _ "(disk H)(?t := ?f)"]) simp
      next
        assume "saveACL E H = H\<lparr>disk := (disk H)(?t := None, aclPath E := ?f)\<rparr>"
        then show ?thesis by (intro exI [of _ "(disk H)(?t := None, aclPath E := ?f)"]) simp
      qed
    qed
  qed
qed

lemma saveACL_fields [simp]:
  "objs (saveACL E H) = objs H" "next_obj (saveACL E H) = next_obj H"
  "clients (saveACL E H) = clients H" "DBManager (saveACL E H) = DBManager H"
  "Running (saveACL E H) = Running H" "ConsoleHistory (saveACL E H) = ConsoleHistory H"
  "Stats (saveACL E H) = Stats H" "EventLog (saveACL E H) = EventLog H"
  "BlacklistMap (saveACL E H) = BlacklistMap H" "WhitelistMap (saveACL E H) = WhitelistMap H"
  "RoomKey (saveACL E H) = RoomKey H" "VaultToken (saveACL E H) = VaultToken H"
  "VaultDir (saveACL E H) = VaultDir H" "HTTPPort (saveACL E H) = HTTPPort H"
  "RawConns (saveACL E H) = RawConns H" "AutoApprove (saveACL E H) = AutoApprove H"
  "Rooms (saveACL E H) = Rooms H" "Admins (saveACL E H) = Admins H"
  "clock (saveACL E H) = clock H" "rpos (saveACL E H) = rpos H"
  "pending (saveACL E H) = pending H" "GetAllClients (saveACL E H) = GetAllClients H"
  "GetClientByNickname n (saveACL E H) = GetClientByNickname n H"
  "WhitelistedCount (saveACL E H) = WhitelistedCount H" "bounded (saveACL E H) = bounded H"
proof -
  obtain d where "saveACL E H = H\<lparr>disk := d\<rparr>" using saveACL_disk by blast
  then show "objs (saveACL E H) = objs H" "next_obj (saveACL E H) = next_obj H"
    "clients (saveACL E H) = clients H" "DBManager (saveACL E H) = DBManager H"
    "Running (saveACL E H) = Running H" "ConsoleHistory (saveACL E H) = ConsoleHistory H"
    "Stats (saveACL E H) = Stats H" "EventLog (saveACL E H) = EventLog H"
    "BlacklistMap (saveACL E H) = BlacklistMap H" "WhitelistMap (saveACL E H) = WhitelistMap H"
    "RoomKey (saveACL E H) = RoomKey H" "VaultToken (saveACL E H) = VaultToken H"
    "VaultDir (saveACL E H) = VaultDir H" "HTTPPort (saveACL E H) = HTTPPort H"
    "RawConns (saveACL E H) = RawConns H" "AutoApprove (saveACL E H) = AutoApprove H"
    "Rooms (saveACL E H) = Rooms H" "Admins (saveACL E H) = Admins H"
    "clock (saveACL E H) = clock H" "rpos (saveACL E H) = rpos H"
    "pending (saveACL E H) = pending H" "GetAllClients (saveACL E H) = GetAllClients H"
    "GetClientByNickname n (saveACL E H) = GetClientByNickname n H"
    "WhitelistedCount (saveACL E H) = WhitelistedCount H" "bounded (saveACL E H) = bounded H"
    by (simp_all add: GetAllClients_def GetClientByNickname_def WhitelistedCount_def bounded_def)
qed

lemma update_new: "k \<notin> fst ` set m \<Longrightarrow> AList.update k v m = m @ [(k, v)]"
  by (induction m) auto

lemma copyMap_id: "distinct (map fst m) \<Longrightarrow> copyMap m = m"
proof -
  have "distinct (map fst (out @ m)) \<Longrightarrow> fold (\<lambda>(k, v). AList.update k v) m out = out @ m" for out
    by (induction m arbitrary: out) (auto simp: update_new)
  from this [of "[]"] show "distinct (map fst m) \<Longrightarrow> copyMap m = m"
    by (simp add: copyMap_def)
qed

section \<open>Senders (core.go)\<close>

definition nil_or :: "bytes option \<Rightarrow> bytes" where
  "nil_or x = (case x of None \<Rightarrow> [] | Some b \<Rightarrow> b)"

definition new_msg ::
  "'a hub_env_scheme \<Rightarrow> string \<Rightarrow> string \<Rightarrow> string \<Rightarrow> Hub \<Rightarrow> ChatMessage \<times> Hub" where
  "new_msg E ty c sender H =
     (let (m, p) = CreateMessage E (clock H) (rpos H) ty c sender in (m, H\<lparr>rpos := p\<rparr>))"

definition seal_for :: "'a hub_env_scheme \<Rightarrow> nat \<Rightarrow> bytes \<Rightarrow> Hub \<Rightarrow> bytes option \<times> Hub" where
  "seal_for E r bs H =
     (let (enc, p) = Encrypt E (rpos H) (EncryptionKey (objs H r)) bs in (enc, H\<lparr>rpos := p\<rparr>))"

definition queue_to :: "nat \<Rightarrow> string \<Rightarrow> Hub \<Rightarrow> bool \<times> Hub" where
  "queue_to r payload H =
     (let (q, sent) = try_send 100 payload (SendChan (objs H r))
      in (sent, upd_obj r (\<lambda>c. c\<lparr>SendChan := q\<rparr>) H))"

text \<open>
  \<^verbatim>\<open>enc, _ := crypto.Encrypt(c.EncryptionKey, bs); select { case c.SendChan <- ...\<close>,
  with the error dropped as the code drops it.
\<close>

definition deliver :: "'a hub_env_scheme \<Rightarrow> nat \<Rightarrow> bytes \<Rightarrow> Hub \<Rightarrow> bool \<times> Hub" where
  "deliver E r bs H =
     (let (enc, H1) = seal_for E r bs H in queue_to r (Base64Encode (nil_or enc)) H1)"

definition SendSystemMessage :: "'a hub_env_scheme \<Rightarrow> nat \<Rightarrow> string \<Rightarrow> Hub \<Rightarrow> Hub" where
  "SendSystemMessage E r c H =
     (let (msg, H1) = new_msg E MsgTypeSystem c ''SERVER'' H;
          (sent, H2) = deliver E r (nil_or (Encode E msg)) H1
      in if sent then H2
         else Log E (''Dropped system message for '' @ Nickname (objs H2 r) @ '' (buffer full)'') H2)"

definition SendMessage :: "'a hub_env_scheme \<Rightarrow> nat \<Rightarrow> ChatMessage \<Rightarrow> Hub \<Rightarrow> Hub" where
  "SendMessage E r msg H =
     (case Encode E msg of None \<Rightarrow> H
      | Some bs \<Rightarrow>
          (let (enc, H1) = seal_for E r bs H
           in case enc of None \<Rightarrow> H1
              | Some ct \<Rightarrow>
                  (let (sent, H2) = queue_to r (Base64Encode ct) H1
                   in if sent then H2
                      else Log E (''Dropped message for '' @ Nickname (objs H2 r) @ '' (buffer full)'') H2)))"

definition relay_one ::
  "'a hub_env_scheme \<Rightarrow> string \<Rightarrow> bytes \<Rightarrow> string \<Rightarrow> nat \<Rightarrow> int \<times> Hub \<Rightarrow> int \<times> Hub" where
  "relay_one E st bs excludeID r s =
     (case s of (n, H) \<Rightarrow>
        if State (objs H r) = st \<and> Address (objs H r) \<noteq> excludeID then
          (let (sent, H1) = deliver E r bs H
           in if sent then (n + 1, H1)
              else (n, Log E (''Dropped message for '' @ Nickname (objs H1 r) @ '' (buffer full)'') H1))
        else (n, H))"

definition BroadcastToState ::
  "'a hub_env_scheme \<Rightarrow> string \<Rightarrow> ChatMessage \<Rightarrow> string \<Rightarrow> Hub \<Rightarrow> Hub" where
  "BroadcastToState E st msg excludeID H =
     (let (n, H1) = fold (relay_one E st (nil_or (Encode E msg)) excludeID) (GetAllClients H) (0, H)
      in H1\<lparr>Stats := (Stats H1)\<lparr>MessagesSent := MessagesSent (Stats H1) + n\<rparr>\<rparr>)"

definition user_info :: "Client \<Rightarrow> string" where
  "user_info c =
     Nickname c @ ''|'' @ Base64Encode (SigningPubKey c) @ ''|'' @ Base64Encode (E2EPubKey c)"

definition userList :: "Hub \<Rightarrow> string" where
  "userList H =
     Join (map (\<lambda>r. user_info (objs H r))
            (filter (\<lambda>r. State (objs H r) = ''WHITELISTED'') (GetAllClients H))) '',''"

definition BroadcastUserList :: "'a hub_env_scheme \<Rightarrow> Hub \<Rightarrow> Hub" where
  "BroadcastUserList E H =
     (let (msg, H1) = new_msg E MsgTypeUserList (userList H) ''SERVER'' H
      in fold (\<lambda>r H. snd (deliver E r (nil_or (Encode E msg)) H)) (GetAllClients H1) H1)"

definition broadcastToWhitelisted :: "'a hub_env_scheme \<Rightarrow> ChatMessage \<Rightarrow> Hub \<Rightarrow> Hub" where
  "broadcastToWhitelisted E msg H =
     fold (\<lambda>r H. if State (objs H r) = ''WHITELISTED'' then SendMessage E r msg H else H)
       (GetAllClients H) H"

definition save_history :: "'a hub_env_scheme \<Rightarrow> string \<Rightarrow> string \<Rightarrow> string \<Rightarrow> Hub \<Rightarrow> Hub" where
  "save_history E ty c sender H = H\<lparr>DBManager := SaveMessage E (clock H) ty c sender (DBManager H)\<rparr>"

definition BroadcastAnnouncement :: "'a hub_env_scheme \<Rightarrow> string \<Rightarrow> Hub \<Rightarrow> Hub" where
  "BroadcastAnnouncement E t H =
     (let fullText = u_mega @ '' ANNOUNCEMENT: '' @ t;
          (msg, H1) = new_msg E MsgTypeSystem fullText ''ADMIN'' H;
          H2 = save_history E MsgTypeSystem fullText ''ADMIN'' H1;
          H3 = BroadcastToState E ''WHITELISTED'' msg [] H2
      in Log E (''[ANN] ADMIN: '' @ t) H3)"

section \<open>The senders only talk\<close>

lemma talks_rpos [simp]: "talks H (H\<lparr>rpos := p\<rparr>)"
  by (simp add: talks_def settled_def bounded_def queues_grow_def)

lemma snd_new_msg: "snd (new_msg E ty c sender H) = H\<lparr>rpos := rpos H + 8\<rparr>"
  by (simp add: new_msg_def CreateMessage_def generateID_def)

lemma fst_new_msg: "fst (new_msg E ty c sender H) = fst (CreateMessage E (clock H) (rpos H) ty c sender)"
  by (simp add: new_msg_def split: prod.split)

interpretation new_msg: talking "\<lambda>H. snd (new_msg E ty c sender H)" for E ty c sender
  by unfold_locales (simp add: snd_new_msg)

interpretation seal_for: talking "\<lambda>H. snd (seal_for E r bs H)" for E r bs
  by unfold_locales (simp add: seal_for_def split: prod.split)

lemma SendChan_new_msg [simp]: "SendChan (objs (snd (new_msg E ty c sender H)) q) = SendChan (objs H q)"
  by (simp add: snd_new_msg)

lemma SendChan_seal_for [simp]: "SendChan (objs (snd (seal_for E r bs H)) q) = SendChan (objs H q)"
  by (simp add: seal_for_def case_prod_beta)

lemma SendChan_queue_to:
  "SendChan (objs (snd (queue_to r p H)) q) =
     SendChan (objs H q) @ (if q = r \<and> length (SendChan (objs H r)) < 100 then [p] else [])"
  by (simp add: queue_to_def try_send_def upd_obj_def)

lemma fst_queue_to: "fst (queue_to r p H) \<longleftrightarrow> length (SendChan (objs H r)) < 100"
  by (simp add: queue_to_def try_send_def)

interpretation queue_to: talking "\<lambda>H. snd (queue_to r p H)" for r p
proof unfold_locales
  fix H
  have "settled (snd (queue_to r p H)) = settled H"
    by (simp add: settled_def queue_to_def upd_obj_def fun_eq_iff split: prod.split)
  moreover have "bounded H \<longrightarrow> bounded (snd (queue_to r p H))"
    unfolding bounded_def SendChan_queue_to
    by (simp add: queue_to_def try_send_def less_eq_Suc_le)
  ultimately show "talks H (snd (queue_to r p H))"
    by (simp add: talks_def queues_grow_def SendChan_queue_to)
qed

lemma snd_deliver:
  "snd (deliver E r bs H) =
     snd (queue_to r (Base64Encode (nil_or (fst (seal_for E r bs H)))) (snd (seal_for E r bs H)))"
  by (simp add: deliver_def split: prod.split)

lemma fst_deliver: "fst (deliver E r bs H) \<longleftrightarrow> length (SendChan (objs H r)) < 100"
  by (simp add: deliver_def fst_queue_to case_prod_beta SendChan_seal_for)

interpretation deliver: talking "\<lambda>H. snd (deliver E r bs H)" for E r bs
  unfolding snd_deliver
  by unfold_locales (rule talks_trans [OF seal_for.talks_f queue_to.talks_f])

lemma SendSystemMessage_alt:
  "SendSystemMessage E r c H =
     (let p = new_msg E MsgTypeSystem c ''SERVER'' H;
          H2 = snd (deliver E r (nil_or (Encode E (fst p))) (snd p))
      in if length (SendChan (objs H r)) < 100 then H2
         else Log E (''Dropped system message for '' @ Nickname (objs H r) @ '' (buffer full)'') H2)"
  by (simp add: SendSystemMessage_def Let_def case_prod_beta fst_deliver SendChan_new_msg)

interpretation SendSystemMessage: talking "SendSystemMessage E r c" for E r c
  by unfold_locales (simp add: SendSystemMessage_alt Let_def talk)

lemma SendMessage_alt:
  "SendMessage E r msg H =
     (case Encode E msg of None \<Rightarrow> H
      | Some bs \<Rightarrow>
          (let H1 = snd (seal_for E r bs H)
           in case fst (seal_for E r bs H) of None \<Rightarrow> H1
              | Some ct \<Rightarrow>
                  (let H2 = snd (queue_to r (Base64Encode ct) H1)
                   in if length (SendChan (objs H r)) < 100 then H2
                      else Log E (''Dropped message for '' @ Nickname (objs H r) @ '' (buffer full)'') H2)))"
  by (simp add: SendMessage_def Let_def case_prod_beta fst_queue_to SendChan_seal_for
      split: option.split)

interpretation SendMessage: talking "SendMessage E r msg" for E r msg
  by unfold_locales (auto simp: SendMessage_alt Let_def talk split: option.split)

lemma relay_one_alt:
  "relay_one E st bs x r s =
     (if State (objs (snd s) r) = st \<and> Address (objs (snd s) r) \<noteq> x then
        (let H1 = snd (deliver E r bs (snd s))
         in if length (SendChan (objs (snd s) r)) < 100 then (fst s + 1, H1)
            else (fst s, Log E (''Dropped message for '' @ Nickname (objs (snd s) r) @ '' (buffer full)'') H1))
      else s)"
  by (cases s) (simp add: relay_one_def Let_def case_prod_beta fst_deliver)

lemma talks_relay_one [talk]: "talks H (snd s) \<Longrightarrow> talks H (snd (relay_one E st bs x r s))"
  by (simp add: relay_one_alt Let_def talk)

lemma talks_fold_relay [talk]:
  "talks H (snd s) \<Longrightarrow> talks H (snd (fold (relay_one E st bs x) rs s))"
  by (induction rs arbitrary: s) (simp_all add: talk)

lemma talks_stats [talk]: "talks H H' \<Longrightarrow> talks H (H'\<lparr>Stats := t\<rparr>)"
  by (auto simp: talks_def settled_def bounded_def queues_grow_def)

interpretation BroadcastToState: talking "BroadcastToState E st msg x" for E st msg x
  by unfold_locales (simp add: BroadcastToState_def case_prod_beta talk)

interpretation BroadcastUserList: talking "BroadcastUserList E" for E
  by unfold_locales (simp add: BroadcastUserList_def case_prod_beta talk)

interpretation broadcastToWhitelisted: talking "broadcastToWhitelisted E msg" for E msg
  by unfold_locales (simp add: broadcastToWhitelisted_def talk)

interpretation save_history: talking "save_history E ty c sender" for E ty c sender
  by unfold_locales
     (simp add: talks_def settled_def bounded_def queues_grow_def save_history_def memory_ok_ops mlimit_ops)

interpretation BroadcastAnnouncement: talking "BroadcastAnnouncement E t" for E t
  by unfold_locales (simp add: BroadcastAnnouncement_def Let_def case_prod_beta talk)

end
