(* ===== verification/HubDelivery.thy ===== *)
theory HubDelivery
  imports HubSend
begin

text \<open>
  What a sender puts into the queues: who receives, what the payload opens to, and that
  nobody else's queue moves.
\<close>

definition opened :: "'a prims_scheme \<Rightarrow> bytes \<Rightarrow> string \<Rightarrow> bytes option" where
  "opened P key p = Option.bind (Base64Decode p) (Decrypt P key)"

text \<open>The queue of \<open>q\<close> gained one payload carrying \<open>bs\<close>, or nothing at all.\<close>

definition gains :: "'a prims_scheme \<Rightarrow> bytes \<Rightarrow> Hub \<Rightarrow> Hub \<Rightarrow> bool \<Rightarrow> nat \<Rightarrow> bool" where
  "gains P bs H H' b q \<longleftrightarrow>
     (if b then \<exists>p. SendChan (objs H' q) = SendChan (objs H q) @ [p] \<and>
                   opened P (EncryptionKey (objs H q)) p = Some bs
      else SendChan (objs H' q) = SendChan (objs H q))"

definition has_room :: "Hub \<Rightarrow> nat \<Rightarrow> bool" where
  "has_room H r \<longleftrightarrow> length (SendChan (objs H r)) < 100"

definition keys_ok :: "Hub \<Rightarrow> bool" where
  "keys_ok H \<longleftrightarrow> (\<forall>r \<in> set (GetAllClients H). aes_key_ok (EncryptionKey (objs H r)))"

lemma gains_refl [simp]: "gains P bs H H False q"
  by (simp add: gains_def)

lemma gains_talk:
  "gains P bs H H' b q \<Longrightarrow> SendChan (objs H'' q) = SendChan (objs H' q) \<Longrightarrow> gains P bs H H'' b q"
  by (simp add: gains_def)

lemma SendChan_logs [simp]:
  "SendChan (objs (Log E m H) q) = SendChan (objs H q)"
  "SendChan (objs (AddEvent i t H) q) = SendChan (objs H q)"
  "SendChan (objs (save_history E ty c s H) q) = SendChan (objs H q)"
  by (simp_all add: Log_def push_console_def AddEvent_def push_event_def save_history_def)

lemma seal_opens:
  assumes "gcm_correct E" and "aes_key_ok (EncryptionKey (objs H r))"
  shows "\<exists>ct. fst (seal_for E r bs H) = Some ct \<and>
    opened E (EncryptionKey (objs H r)) (Base64Encode ct) = Some bs"
proof -
  obtain ct where ct: "Encrypt E (rpos H) (EncryptionKey (objs H r)) bs = (Some ct, rpos H + nonceSize)"
    using Encrypt_total [OF assms(2)] by blast
  then have "Decrypt E (EncryptionKey (objs H r)) ct = Some bs"
    by (rule Decrypt_Encrypt [OF assms(1)])
  with ct show ?thesis by (simp add: seal_for_def opened_def)
qed

lemma deliver_gains:
  assumes "gcm_correct E" and "aes_key_ok (EncryptionKey (objs H r))"
  shows "gains E bs H (snd (deliver E r bs H)) (q = r \<and> has_room H r) q"
  using seal_opens [OF assms, of bs]
  by (auto simp: gains_def snd_deliver SendChan_queue_to nil_or_def has_room_def)

lemma SendMessage_gains:
  assumes "gcm_correct E" and "aes_key_ok (EncryptionKey (objs H r))" and "Encode E msg = Some bs"
  shows "gains E bs H (SendMessage E r msg H) (q = r \<and> has_room H r) q"
  using seal_opens [OF assms(1,2), of bs] assms(3)
  by (auto simp: gains_def SendMessage_alt Let_def SendChan_queue_to has_room_def)

lemma SendSystemMessage_gains:
  assumes "gcm_correct E" and "aes_key_ok (EncryptionKey (objs H r))"
  shows "gains E (nil_or (Encode E (fst (new_msg E MsgTypeSystem c ''SERVER'' H)))) H
    (SendSystemMessage E r c H) (q = r \<and> has_room H r) q"
proof -
  let ?p = "new_msg E MsgTypeSystem c ''SERVER'' H"
  have "gains E (nil_or (Encode E (fst ?p))) (snd ?p)
      (snd (deliver E r (nil_or (Encode E (fst ?p))) (snd ?p))) (q = r \<and> has_room (snd ?p) r) q"
    by (rule deliver_gains) (use assms in simp_all)
  then show ?thesis
    by (auto simp: gains_def SendSystemMessage_alt Let_def has_room_def)
qed

text \<open>A loop over distinct clients, each iteration of which serves its own client only.\<close>

definition receivers :: "string \<Rightarrow> string \<Rightarrow> Hub \<Rightarrow> nat list \<Rightarrow> nat list" where
  "receivers st x H rs =
     filter (\<lambda>r. State (objs H r) = st \<and> Address (objs H r) \<noteq> x \<and> has_room H r) rs"

lemma relay_one_gains:
  assumes "gcm_correct E" and "aes_key_ok (EncryptionKey (objs (snd s) r))"
  shows "gains E bs (snd s) (snd (relay_one E st bs x r s)) (q \<in> set (receivers st x (snd s) [r])) q"
    and "fst (relay_one E st bs x r s) = fst s + int (length (receivers st x (snd s) [r]))"
  using deliver_gains [OF assms, of bs q]
  by (auto simp: relay_one_alt Let_def receivers_def has_room_def gains_def)

text \<open>Serving one client leaves the others' seats and queues as they are.\<close>

lemma relay_one_others:
  assumes "gcm_correct E" and "aes_key_ok (EncryptionKey (objs (snd s) r))"
  shows "State (objs (snd (relay_one E st bs x r s)) q) = State (objs (snd s) q)"
    and "Address (objs (snd (relay_one E st bs x r s)) q) = Address (objs (snd s) q)"
    and "EncryptionKey (objs (snd (relay_one E st bs x r s)) q) = EncryptionKey (objs (snd s) q)"
    and "q \<noteq> r \<Longrightarrow> SendChan (objs (snd (relay_one E st bs x r s)) q) = SendChan (objs (snd s) q)"
proof -
  have "settled (snd (relay_one E st bs x r s)) = settled (snd s)"
    using talks_relay_one [OF talks_refl, of s E st bs x r] by (simp add: talks_def)
  note same = client_fields [OF settledD(17) [OF this]]
  show "State (objs (snd (relay_one E st bs x r s)) q) = State (objs (snd s) q)"
    "Address (objs (snd (relay_one E st bs x r s)) q) = Address (objs (snd s) q)"
    "EncryptionKey (objs (snd (relay_one E st bs x r s)) q) = EncryptionKey (objs (snd s) q)" by (simp_all add: same)
  show "SendChan (objs (snd (relay_one E st bs x r s)) q) = SendChan (objs (snd s) q)" if "q \<noteq> r"
    using relay_one_gains(1) [OF assms, of bs st x q] that by (auto simp: gains_def receivers_def split: if_splits)
qed

lemma receivers_after:
  assumes "gcm_correct E" and "aes_key_ok (EncryptionKey (objs (snd s) r))" and "r \<notin> set rs"
  shows "receivers st x (snd (relay_one E st bs x r s)) rs = receivers st x (snd s) rs"
  unfolding receivers_def
proof (intro filter_cong refl)
  fix q assume "q \<in> set rs"
  then have "q \<noteq> r" using assms(3) by auto
  then show "(State (objs (snd (relay_one E st bs x r s)) q) = st \<and> Address (objs (snd (relay_one E st bs x r s)) q) \<noteq> x \<and>
        has_room (snd (relay_one E st bs x r s)) q) =
      (State (objs (snd s) q) = st \<and> Address (objs (snd s) q) \<noteq> x \<and> has_room (snd s) q)"
    by (simp add: relay_one_others [OF assms(1,2)] has_room_def)
qed

lemma fold_relay_gains:
  assumes "gcm_correct E" and "distinct rs"
    and "\<forall>r \<in> set rs. aes_key_ok (EncryptionKey (objs (snd s) r))"
  shows "(\<forall>q. gains E bs (snd s) (snd (fold (relay_one E st bs x) rs s))
            (q \<in> set (receivers st x (snd s) rs)) q) \<and>
    fst (fold (relay_one E st bs x) rs s) = fst s + int (length (receivers st x (snd s) rs))"
  using assms(2,3)
proof (induction rs arbitrary: s)
  case Nil
  then show ?case by (simp add: receivers_def)
next
  case (Cons r rs)
  let ?s = "relay_one E st bs x r s"
  have key: "aes_key_ok (EncryptionKey (objs (snd s) r))" using Cons.prems by simp
  note one = relay_one_gains [OF assms(1) key] and others = relay_one_others [OF assms(1) key]
  have fresh: "r \<notin> set rs" using Cons.prems(1) by simp
  have IH: "(\<forall>q. gains E bs (snd ?s) (snd (fold (relay_one E st bs x) rs ?s))
        (q \<in> set (receivers st x (snd s) rs)) q) \<and>
      fst (fold (relay_one E st bs x) rs ?s) = fst ?s + int (length (receivers st x (snd s) rs))"
    using Cons.IH [of ?s] Cons.prems by (simp add: others receivers_after [OF assms(1) key fresh])
  have r: "r \<notin> set (receivers st x (snd s) rs)" using fresh by (simp add: receivers_def)
  have "gains E bs (snd s) (snd (fold (relay_one E st bs x) rs ?s)) (q \<in> set (receivers st x (snd s) (r # rs))) q" for q
  proof (cases "q = r")
    case True
    with IH r have "SendChan (objs (snd (fold (relay_one E st bs x) rs ?s)) q) = SendChan (objs (snd ?s) q)"
      by (simp add: gains_def)
    note g = gains_talk [OF one(1) this]
    have "(q \<in> set (receivers st x (snd s) (r # rs))) = (q \<in> set (receivers st x (snd s) [r]))"
      using r True by (auto simp: receivers_def)
    with g show ?thesis by (simp only:)
  next
    case False
    then have "(q \<in> set (receivers st x (snd s) (r # rs))) = (q \<in> set (receivers st x (snd s) rs))"
      by (simp add: receivers_def)
    moreover note IH [THEN conjunct1, rule_format, of q]
    ultimately show ?thesis by (auto simp: gains_def others(3) others(4) [OF False] split: if_splits)
  qed
  moreover have "receivers st x (snd s) (r # rs) = receivers st x (snd s) [r] @ receivers st x (snd s) rs"
    by (simp add: receivers_def)
  ultimately show ?case using IH one(2) by simp
qed

lemma Stats_deliver [simp]: "Stats (snd (deliver E r bs H)) = Stats H"
  by (simp add: deliver_def seal_for_def queue_to_def case_prod_beta)

lemma Stats_logs [simp]: "Stats (Log E m H) = Stats H" "Stats (AddEvent i t H) = Stats H"
  by (simp_all add: Log_def push_console_def AddEvent_def push_event_def)

lemma DBManager_talk [simp]:
  "DBManager (snd (deliver E r bs H)) = DBManager H" "DBManager (Log E m H) = DBManager H"
  "DBManager (AddEvent i t H) = DBManager H" "DBManager (snd (new_msg E ty c s H)) = DBManager H"
  "DBManager (SendSystemMessage E r c H) = DBManager H" "DBManager (SendMessage E r msg H) = DBManager H"
  "DBManager (save_history E ty c s H) = SaveMessage E (clock H) ty c s (DBManager H)"
  by (simp_all add: deliver_def seal_for_def queue_to_def case_prod_beta Log_def push_console_def
      AddEvent_def push_event_def snd_new_msg SendSystemMessage_alt SendMessage_alt Let_def save_history_def
      split: option.split)

lemma DBManager_fold:
  "(\<And>x H. DBManager (g x H) = DBManager H) \<Longrightarrow> DBManager (fold g xs H) = DBManager H"
  by (induction xs arbitrary: H) simp_all

lemma DBManager_fold_relay: "DBManager (snd (fold (relay_one E st bs x) rs s)) = DBManager (snd s)"
  by (induction rs arbitrary: s) (simp_all add: relay_one_alt Let_def)

lemma DBManager_broadcast [simp]:
  "DBManager (BroadcastToState E st msg x H) = DBManager H"
  "DBManager (BroadcastUserList E H) = DBManager H"
  "DBManager (broadcastToWhitelisted E msg H) = DBManager H"
  by (simp_all add: BroadcastToState_def BroadcastUserList_def broadcastToWhitelisted_def case_prod_beta
      DBManager_fold_relay DBManager_fold)

lemma Stats_fold_relay: "Stats (snd (fold (relay_one E st bs x) rs s)) = Stats (snd s)"
  by (induction rs arbitrary: s) (simp_all add: relay_one_alt Let_def)

lemma BroadcastToState_gains:
  assumes "gcm_correct E" and "distinct (GetAllClients H)" and "keys_ok H"
  shows "gains E (nil_or (Encode E msg)) H (BroadcastToState E st msg x H)
      (q \<in> set (receivers st x H (GetAllClients H))) q"
    and "MessagesSent (Stats (BroadcastToState E st msg x H)) =
      MessagesSent (Stats H) + int (length (receivers st x H (GetAllClients H)))"
  using fold_relay_gains [OF assms(1,2), of "(0, H)" "nil_or (Encode E msg)" st x] assms(3)
  by (simp_all add: BroadcastToState_def case_prod_beta keys_ok_def gains_def Stats_fold_relay)

end
