(* ===== verification/HubMembers.thy ===== *)
theory HubMembers
  imports HubDelivery
begin

text \<open>
  Membership (\<^verbatim>\<open>core.go\<close>): the epoch and the vault token, approving, blocking
  and removing a client, and the rate limit.
\<close>

section \<open>Epoch and vault token\<close>

definition fresh_token :: "'a prims_scheme \<Rightarrow> Hub \<Rightarrow> Hub" where
  "fresh_token P H =
     (if VaultToken H = [] then
        H\<lparr>VaultToken := HexEncode (rand_bytes P (rpos H) 32), rpos := rpos H + 32\<rparr>
      else H)"

definition BumpEpoch :: "'a hub_env_scheme \<Rightarrow> Hub \<Rightarrow> Hub" where
  "BumpEpoch E H0 =
     (let H = H0\<lparr>RoomKey := []\<rparr>;
          H1 = fresh_token E H;
          (epochMsg, H2) = new_msg E MsgTypeEpoch (VaultToken H1) ''SERVER'' H1;
          H3 = broadcastToWhitelisted E epochMsg H2
      in AddEvent u_cycle ''Membership epoch bumped. Sender keys rotate; vault token kept.'' H3)"

definition RotateVaultToken :: "'a hub_env_scheme \<Rightarrow> Hub \<Rightarrow> Hub" where
  "RotateVaultToken E H =
     (if VaultToken H \<noteq> [] then H
      else saveACL E (H\<lparr>VaultToken := HexEncode (rand_bytes E (rpos H) 32), rpos := rpos H + 32\<rparr>))"

section \<open>Approve, block, remove\<close>

definition ApproveClient :: "'a hub_env_scheme \<Rightarrow> string \<Rightarrow> Hub \<Rightarrow> bool \<times> Hub" where
  "ApproveClient E nickname H =
     (case GetClientByNickname nickname H of None \<Rightarrow> (False, H)
      | Some target \<Rightarrow>
          (let H1 = upd_obj target (\<lambda>c. c\<lparr>State := ''WHITELISTED''\<rparr>) H;
               pubB64 = Base64Encode (SigningPubKey (objs H1 target));
               H2 = (if isStoredAdmin pubB64 H1 \<or> WhitelistedCount H1 = 1 then
                       SendSystemMessage E target ''You have admin privileges.''
                         (upd_obj target (\<lambda>c. c\<lparr>IsAdmin := True\<rparr>) H1)
                     else H1);
               H3 = BumpEpoch E H2;
               pubKeyB64 = Base64Encode (SigningPubKey (objs H3 target));
               H4 = H3\<lparr>WhitelistMap :=
                          AList.update pubKeyB64 (Nickname (objs H3 target)) (WhitelistMap H3),
                       BlacklistMap := AList.delete (Identity (objs H3 target)) (BlacklistMap H3)\<rparr>;
               H5 = (if IsAdmin (objs H4 target)
                     then rememberAdmin E pubKeyB64 (Nickname (objs H4 target)) H4
                     else saveACL E H4);
               H6 = SendSystemMessage E target
                      (u_check @ '' You have been approved by an admin. Welcome!'') H5;
               H7 = Log E (''Admin approved: '' @ nickname) H6;
               H8 = AddEvent u_check
                      (''Admin approved: '' @ nickname @ '' '' @ u_arrow @ '' CHAT ROOM'') H7
           in (True, BroadcastUserList E H8)))"

definition BlockClient :: "'a hub_env_scheme \<Rightarrow> string \<Rightarrow> Hub \<Rightarrow> bool \<times> Hub" where
  "BlockClient E nickname H =
     (case GetClientByNickname nickname H of None \<Rightarrow> (False, H)
      | Some target \<Rightarrow>
          (let c = objs H target;
               H1 = H\<lparr>BlacklistMap := AList.update (Identity c) (Nickname c) (BlacklistMap H),
                      WhitelistMap := AList.delete (Base64Encode (SigningPubKey c)) (WhitelistMap H),
                      Admins := AList.delete (Base64Encode (SigningPubKey c)) (Admins H)\<rparr>;
               H2 = saveACL E H1;
               H3 = SendSystemMessage E target
                      (u_zap @ '' You have been blocked from the server.'') H2;
               H4 = H3\<lparr>pending := pending H3 @ [target]\<rparr>;
               H5 = Log E (''Admin blocked and disconnected: '' @ nickname) H4;
               H6 = AddEvent u_no_entry (''Admin blocked '' @ nickname) H5
           in (True, BroadcastUserList E H6)))"

definition removeClient :: "'a hub_env_scheme \<Rightarrow> nat \<Rightarrow> Hub \<Rightarrow> Hub" where
  "removeClient E client H =
     (let H1 = snd (RemoveClient (Address (objs H client)) H);
          H2 = upd_obj client (\<lambda>c. c\<lparr>ConnOpen := False\<rparr>) H1;
          c = objs H2 client
      in if State c = ''WHITELISTED'' then
           (let leaveMsg = u_leave @ '' '' @ Nickname c @ '' left the chat'';
                H3 = save_history E MsgTypeJoin leaveMsg ''SERVER'' H2;
                (bMsg, H4) = new_msg E MsgTypeJoin leaveMsg ''SERVER'' H3;
                H5 = BroadcastToState E (State c) bMsg (Address c) H4;
                H6 = Log E (''Client disconnected: '' @ Nickname c @ '' ('' @ Address c @ '')'') H5;
                H7 = AddEvent u_red (''Disconnected: '' @ Nickname c @ '' ['' @ State c @ '']'') H6;
                H8 = BroadcastUserList E H7
            in BumpEpoch E H8)
         else
           (let H3 = Log E (''Pending client disconnected: '' @ Address c) H2
            in AddEvent u_plug (''Pending client dropped: '' @ Address c) H3))"

definition delayed_removal :: "'a hub_env_scheme \<Rightarrow> nat \<Rightarrow> Hub \<Rightarrow> Hub" where
  "delayed_removal E target H = removeClient E target (H\<lparr>pending := remove1 target (pending H)\<rparr>)"

section \<open>The rate limit\<close>

definition allowMessage :: "int \<Rightarrow> Client \<Rightarrow> bool \<times> Client" where
  "allowMessage now c =
     (if (case winStart c of None \<Rightarrow> True | Some t \<Rightarrow> now - t > RateLimitWindow) then
        (True, c\<lparr>winStart := Some now, winCount := 1\<rparr>)
      else
        (let c1 = c\<lparr>winCount := winCount c + 1\<rparr> in (winCount c1 \<le> RateLimitMessages, c1)))"

section \<open>What each operation leaves alone\<close>

lemma fresh_token_fields [simp]:
  "objs (fresh_token P H) = objs H" "next_obj (fresh_token P H) = next_obj H"
  "clients (fresh_token P H) = clients H" "Running (fresh_token P H) = Running H"
  "BlacklistMap (fresh_token P H) = BlacklistMap H" "WhitelistMap (fresh_token P H) = WhitelistMap H"
  "RoomKey (fresh_token P H) = RoomKey H" "VaultDir (fresh_token P H) = VaultDir H"
  "HTTPPort (fresh_token P H) = HTTPPort H" "RawConns (fresh_token P H) = RawConns H"
  "AutoApprove (fresh_token P H) = AutoApprove H" "Rooms (fresh_token P H) = Rooms H"
  "Admins (fresh_token P H) = Admins H" "clock (fresh_token P H) = clock H"
  "disk (fresh_token P H) = disk H" "pending (fresh_token P H) = pending H"
  "Stats (fresh_token P H) = Stats H" "DBManager (fresh_token P H) = DBManager H"
  "GetAllClients (fresh_token P H) = GetAllClients H" "bounded (fresh_token P H) = bounded H"
  by (simp_all add: fresh_token_def GetAllClients_def bounded_def)

lemma fresh_token_kept [simp]:
  "VaultToken (fresh_token P H) =
     (if VaultToken H = [] then HexEncode (rand_bytes P (rpos H) 32) else VaultToken H)"
  by (simp add: fresh_token_def)

lemma BumpEpoch_alt:
  "BumpEpoch E H =
     (let H1 = fresh_token E (H\<lparr>RoomKey := []\<rparr>);
          p = new_msg E MsgTypeEpoch (VaultToken H1) ''SERVER'' H1
      in AddEvent u_cycle ''Membership epoch bumped. Sender keys rotate; vault token kept.''
           (broadcastToWhitelisted E (fst p) (snd p)))"
  by (simp add: BumpEpoch_def Let_def case_prod_beta)

lemma BumpEpoch_talks: "talks (fresh_token E (H\<lparr>RoomKey := []\<rparr>)) (BumpEpoch E H)"
  by (simp add: BumpEpoch_alt Let_def talk)

lemma BumpEpoch_fields [simp]:
  "next_obj (BumpEpoch E H) = next_obj H" "clients (BumpEpoch E H) = clients H"
  "Running (BumpEpoch E H) = Running H" "BlacklistMap (BumpEpoch E H) = BlacklistMap H"
  "WhitelistMap (BumpEpoch E H) = WhitelistMap H" "RoomKey (BumpEpoch E H) = []"
  "VaultDir (BumpEpoch E H) = VaultDir H" "HTTPPort (BumpEpoch E H) = HTTPPort H"
  "RawConns (BumpEpoch E H) = RawConns H" "AutoApprove (BumpEpoch E H) = AutoApprove H"
  "Rooms (BumpEpoch E H) = Rooms H" "Admins (BumpEpoch E H) = Admins H"
  "clock (BumpEpoch E H) = clock H" "disk (BumpEpoch E H) = disk H"
  "pending (BumpEpoch E H) = pending H"
  "GetAllClients (BumpEpoch E H) = GetAllClients H"
  "VaultToken (BumpEpoch E H) =
     (if VaultToken H = [] then HexEncode (rand_bytes E (rpos H) 32) else VaultToken H)"
  by (simp_all add: BumpEpoch_alt Let_def GetAllClients_def)

lemma BumpEpoch_objs [simp]:
  "Nickname (objs (BumpEpoch E H) r) = Nickname (objs H r)"
  "Address (objs (BumpEpoch E H) r) = Address (objs H r)"
  "Identity (objs (BumpEpoch E H) r) = Identity (objs H r)"
  "State (objs (BumpEpoch E H) r) = State (objs H r)"
  "EncryptionKey (objs (BumpEpoch E H) r) = EncryptionKey (objs H r)"
  "IsAdmin (objs (BumpEpoch E H) r) = IsAdmin (objs H r)"
  "SigningPubKey (objs (BumpEpoch E H) r) = SigningPubKey (objs H r)"
  "E2EPubKey (objs (BumpEpoch E H) r) = E2EPubKey (objs H r)"
  "LastSeen (objs (BumpEpoch E H) r) = LastSeen (objs H r)"
  "ConnOpen (objs (BumpEpoch E H) r) = ConnOpen (objs H r)"
  "Written (objs (BumpEpoch E H) r) = Written (objs H r)"
  by (simp_all add: BumpEpoch_alt Let_def)

lemma BumpEpoch_DB [simp]: "DBManager (BumpEpoch E H) = DBManager H"
  by (simp add: BumpEpoch_alt Let_def)

lemma bounded_RoomKey [simp]: "bounded (H\<lparr>RoomKey := k\<rparr>) = bounded H"
  by (simp add: bounded_def)

lemma BumpEpoch_bounded [bound]: "bounded H \<Longrightarrow> bounded (BumpEpoch E H)"
  using BumpEpoch_talks [of E H] by (simp add: talks_def)

lemma rememberAdmin_fields [simp]:
  "objs (rememberAdmin E p n H) = objs H" "next_obj (rememberAdmin E p n H) = next_obj H"
  "clients (rememberAdmin E p n H) = clients H" "Running (rememberAdmin E p n H) = Running H"
  "BlacklistMap (rememberAdmin E p n H) = BlacklistMap H"
  "WhitelistMap (rememberAdmin E p n H) = WhitelistMap H"
  "Admins (rememberAdmin E p n H) = AList.update p n (Admins H)"
  "RoomKey (rememberAdmin E p n H) = RoomKey H" "VaultToken (rememberAdmin E p n H) = VaultToken H"
  "VaultDir (rememberAdmin E p n H) = VaultDir H" "HTTPPort (rememberAdmin E p n H) = HTTPPort H"
  "RawConns (rememberAdmin E p n H) = RawConns H"
  "AutoApprove (rememberAdmin E p n H) = AutoApprove H" "Rooms (rememberAdmin E p n H) = Rooms H"
  "clock (rememberAdmin E p n H) = clock H" "pending (rememberAdmin E p n H) = pending H"
  "ConsoleHistory (rememberAdmin E p n H) = ConsoleHistory H"
  "EventLog (rememberAdmin E p n H) = EventLog H"
  "Stats (rememberAdmin E p n H) = Stats H" "DBManager (rememberAdmin E p n H) = DBManager H"
  "GetAllClients (rememberAdmin E p n H) = GetAllClients H"
  "bounded (rememberAdmin E p n H) = bounded H"
  by (simp_all add: rememberAdmin_def GetAllClients_def bounded_def)

lemma bounded_upd [simp]:
  "(\<And>c. SendChan (f c) = SendChan c) \<Longrightarrow> bounded (upd_obj r f H) = bounded H"
  by (auto simp: bounded_def upd_obj_def)

section \<open>Effects\<close>

lemma by_nick_found:
  "GetClientByNickname n H = Some r \<Longrightarrow> r \<in> set (GetAllClients H) \<and> Nickname (objs H r) = n"
  by (auto simp: GetClientByNickname_def GetAllClients_def find_Some_iff)

lemma by_nick_none:
  "GetClientByNickname n H = None \<longleftrightarrow> (\<forall>r \<in> set (GetAllClients H). Nickname (objs H r) \<noteq> n)"
  by (auto simp: GetClientByNickname_def GetAllClients_def find_None_iff)

text \<open>Who becomes an administrator on approval: a stored one, or whoever is then alone.\<close>

definition becomes_admin :: "nat \<Rightarrow> Hub \<Rightarrow> bool" where
  "becomes_admin r H \<longleftrightarrow>
     IsAdmin (objs H r) \<or> isStoredAdmin (Base64Encode (SigningPubKey (objs H r))) H \<or>
     WhitelistedCount (upd_obj r (\<lambda>c. c\<lparr>State := ''WHITELISTED''\<rparr>) H) = 1"

lemma isStoredAdmin_upd [simp]: "isStoredAdmin p (upd_obj r f H) = isStoredAdmin p H"
  by (simp add: isStoredAdmin_def)

lemma WhitelistedCount_upd_admin [simp]:
  "WhitelistedCount (upd_obj r (\<lambda>c. c\<lparr>IsAdmin := b\<rparr>) H) = WhitelistedCount H"
  by (auto simp: WhitelistedCount_def upd_obj_def intro!: arg_cong [of _ _ length] filter_cong)

lemma objs_map_updates [simp]:
  "objs (H\<lparr>WhitelistMap := w, BlacklistMap := b\<rparr>) = objs H"
  by simp

lemma ApproveClient_none:
  "GetClientByNickname n H = None \<Longrightarrow> ApproveClient E n H = (False, H)"
  by (simp add: ApproveClient_def)

lemma upd_obj_apply: "objs (upd_obj r f H) q = (if q = r then f (objs H r) else objs H q)"
  by (simp add: upd_obj_def)

lemma ApproveClient_effect:
  fixes E :: "'a hub_env_scheme"
  assumes "GetClientByNickname n H = Some r"
  defines "H' \<equiv> snd (ApproveClient E n H)"
  defines "pub \<equiv> Base64Encode (SigningPubKey (objs H r))"
  shows "fst (ApproveClient E n H)"
    and "State (objs H' q) = (if q = r then ''WHITELISTED'' else State (objs H q))"
    and "IsAdmin (objs H' q) = (if q = r then becomes_admin r H else IsAdmin (objs H q))"
    and "WhitelistMap H' = AList.update pub n (WhitelistMap H)"
    and "BlacklistMap H' = AList.delete (Identity (objs H r)) (BlacklistMap H)"
    and "Admins H' = (if becomes_admin r H then AList.update pub n (Admins H) else Admins H)"
    and "clients H' = clients H" and "VaultDir H' = VaultDir H" and "pending H' = pending H"
    and "clock H' = clock H"
    and "VaultToken H' \<noteq> [] \<and> (VaultToken H \<noteq> [] \<longrightarrow> VaultToken H' = VaultToken H)"
proof -
  have n: "Nickname (objs H r) = n" using by_nick_found [OF assms(1)] by simp
  have tok: "HexEncode (rand_bytes E p 32) \<noteq> []" for p
    by (metis length_HexEncode length_rand_bytes list.size(3) mult_is_0 zero_neq_numeral)
  note defs = ApproveClient_def assms(1) Let_def n becomes_admin_def pub_def H'_def upd_obj_apply
  show "fst (ApproveClient E n H)" by (simp add: defs)
  show "State (objs H' q) = (if q = r then ''WHITELISTED'' else State (objs H q))"
    by (simp add: defs)
  show "IsAdmin (objs H' q) = (if q = r then becomes_admin r H else IsAdmin (objs H q))"
    by (simp add: defs)
  show "WhitelistMap H' = AList.update pub n (WhitelistMap H)" by (simp add: defs)
  show "BlacklistMap H' = AList.delete (Identity (objs H r)) (BlacklistMap H)" by (simp add: defs)
  show "Admins H' = (if becomes_admin r H then AList.update pub n (Admins H) else Admins H)"
    by (simp add: defs)
  show "clients H' = clients H" "VaultDir H' = VaultDir H" "pending H' = pending H"
    "clock H' = clock H" by (simp_all add: defs)
  show "VaultToken H' \<noteq> [] \<and> (VaultToken H \<noteq> [] \<longrightarrow> VaultToken H' = VaultToken H)"
    by (simp add: defs tok)
qed

lemma bounded_records [bound]:
  "bounded G \<Longrightarrow> bounded (G\<lparr>WhitelistMap := w, BlacklistMap := b\<rparr>)"
  "bounded G \<Longrightarrow> bounded (G\<lparr>BlacklistMap := b, WhitelistMap := w, Admins := a\<rparr>)"
  "bounded G \<Longrightarrow> bounded (G\<lparr>WhitelistMap := w\<rparr>)"
  "bounded G \<Longrightarrow> bounded (G\<lparr>clients := cs\<rparr>)"
  "bounded G \<Longrightarrow> bounded (G\<lparr>pending := ps\<rparr>)"
  "bounded G \<Longrightarrow> bounded (saveACL E G)"
  "bounded G \<Longrightarrow> bounded (rememberAdmin E p n G)"
  by (simp_all add: bounded_def)

lemma bounded_upd_intro [bound]:
  "bounded G \<Longrightarrow> bounded (upd_obj r (\<lambda>c. c\<lparr>State := st\<rparr>) G)"
  "bounded G \<Longrightarrow> bounded (upd_obj r (\<lambda>c. c\<lparr>IsAdmin := b\<rparr>) G)"
  "bounded G \<Longrightarrow> bounded (upd_obj r (\<lambda>c. c\<lparr>ConnOpen := b\<rparr>) G)"
  by simp_all

lemma ApproveClient_bounded [bound]: "bounded H \<Longrightarrow> bounded (snd (ApproveClient E n H))"
  unfolding ApproveClient_def Let_def
  by (cases "GetClientByNickname n H", simp, simp only: option.case snd_conv) (intro bound)

lemma BlockClient_bounded [bound]: "bounded H \<Longrightarrow> bounded (snd (BlockClient E n H))"
  unfolding BlockClient_def Let_def
  by (cases "GetClientByNickname n H", simp, simp only: option.case snd_conv) (intro bound)

lemma removeClient_bounded [bound]: "bounded H \<Longrightarrow> bounded (removeClient E r H)"
  unfolding removeClient_def RemoveClient_def Let_def case_prod_beta
  by (simp only: snd_conv) (intro bound)

lemma delayed_removal_bounded [bound]: "bounded H \<Longrightarrow> bounded (delayed_removal E r H)"
  unfolding delayed_removal_def by (intro bound)

lemma BlockClient_effect:
  fixes E :: "'a hub_env_scheme"
  assumes "GetClientByNickname n H = Some r"
  defines "H' \<equiv> snd (BlockClient E n H)"
  defines "pub \<equiv> Base64Encode (SigningPubKey (objs H r))"
  shows "fst (BlockClient E n H)"
    and "State (objs H' q) = State (objs H q)" and "IsAdmin (objs H' q) = IsAdmin (objs H q)"
    and "BlacklistMap H' = AList.update (Identity (objs H r)) n (BlacklistMap H)"
    and "WhitelistMap H' = AList.delete pub (WhitelistMap H)"
    and "Admins H' = AList.delete pub (Admins H)"
    and "pending H' = pending H @ [r]" and "clients H' = clients H"
    and "VaultToken H' = VaultToken H" and "VaultDir H' = VaultDir H" and "clock H' = clock H"
  using by_nick_found [OF assms(1)]
  by (simp_all add: H'_def pub_def BlockClient_def assms(1) Let_def)

definition leave_entry :: "'a wire_scheme \<Rightarrow> Client \<Rightarrow> int \<Rightarrow> HistoryMessage" where
  "leave_entry W c now =
     \<lparr>hm_Type = MsgTypeJoin, hm_Content = u_leave @ '' '' @ Nickname c @ '' left the chat'',
      hm_Sender = ''SERVER'', hm_Timestamp = fmt_stamp W now, hm_ParsedTime = now\<rparr>"

lemma removeClient_effect:
  "clients (removeClient E r H) = AList.delete (Address (objs H r)) (clients H)"
  "State (objs (removeClient E r H) q) = State (objs H q)"
  "Nickname (objs (removeClient E r H) q) = Nickname (objs H q)"
  "ConnOpen (objs (removeClient E r H) q) = (q \<noteq> r \<and> ConnOpen (objs H q))"
  "clock (removeClient E r H) = clock H"
  "DBManager (removeClient E r H) =
     (if State (objs H r) = ''WHITELISTED''
      then keep_message (leave_entry E (objs H r) (clock H)) (DBManager H) else DBManager H)"
  by (simp_all add: removeClient_def RemoveClient_def Let_def case_prod_beta upd_obj_apply SaveMessage_def
      leave_entry_def delete_id [where 'a = string] map_of_eq_None_iff)

end
