(* ===== verification/ChunkStream.thy ===== *)
theory ChunkStream
  imports Protocol
begin

text \<open>
  \<^verbatim>\<open>internal/crypto/stream.go\<close>: a file as length-prefixed AEAD chunks with an
  end marker, and the cutting of a file into chunks that \<^verbatim>\<open>UploadMux\<close> shares
  with it. A reader is the bytes it still delivers and whether it then ends in an error
  other than end-of-file; writers accept everything.
\<close>

section \<open>Length-prefixed records\<close>

definition put_record :: "bytes \<Rightarrow> bytes" where
  "put_record ct = be32 (length ct) @ ct"

lemma ReadFull_be32 [simp]: "ReadFull 4 (be32 n @ s) = Inr (be32 n, s)"
  by (simp add: ReadFull_append)

lemma put_record_not_Nil [simp]: "put_record ct \<noteq> []"
  by (simp add: put_record_def be32_def)

section \<open>Cutting a file into chunks\<close>

function chunks_of :: "bytes \<Rightarrow> bytes list" where
  "chunks_of content =
     (if content = [] then [] else take ChunkSize content # chunks_of (drop ChunkSize content))"
  by pat_completeness auto
termination
  by (relation "measure length") (auto simp: ChunkSize_def)

declare chunks_of.simps [simp del]

lemma chunks_of_Nil [simp]: "chunks_of [] = []"
  by (simp add: chunks_of.simps)

lemma concat_chunks_of [simp]: "concat (chunks_of content) = content"
proof (induction content rule: chunks_of.induct)
  case (1 content)
  then show ?case by (cases "content = []") (simp_all add: chunks_of.simps [of content])
qed

lemma chunks_of_size: "c \<in> set (chunks_of content) \<Longrightarrow> 0 < length c \<and> length c \<le> ChunkSize"
proof (induction content rule: chunks_of.induct)
  case (1 content)
  then show ?case
    by (cases "content = []") (auto simp: chunks_of.simps [of content] ChunkSize_def)
qed

section \<open>The encrypting writer\<close>

datatype stream_error = ReaderFailed | CipherFailed | Truncated io_error

function EncryptReader_go ::
  "'a prims_scheme \<Rightarrow> bytes \<Rightarrow> string \<Rightarrow> bool \<Rightarrow> nat \<Rightarrow> 32 word \<Rightarrow> bytes \<Rightarrow>
     stream_error option \<times> bytes \<times> nat" where
  "EncryptReader_go P key fileID bad pos idx content =
     (let buf = take ChunkSize content;
          full = (ChunkSize \<le> length content);
          step = (if length buf > 0
                  then (case EncryptChunk P pos key fileID idx buf of
                          (None, pos1) \<Rightarrow> Inl pos1
                        | (Some ct, pos1) \<Rightarrow> Inr (put_record ct, pos1, idx + 1))
                  else Inr ([], pos, idx))
      in case step of
           Inl pos1 \<Rightarrow> (Some CipherFailed, [], pos1)
         | Inr (w, pos1, idx1) \<Rightarrow>
             if full then
               (let (e, out, pos2) =
                      EncryptReader_go P key fileID bad pos1 idx1 (drop ChunkSize content)
                in (e, w @ out, pos2))
             else if bad then (Some ReaderFailed, w, pos1)
             else (None, w @ be32 0, pos1))"
  by pat_completeness auto
termination
  by (relation "measure (\<lambda>(P, key, fileID, bad, pos, idx, content). length content)")
     (auto simp: ChunkSize_def)

declare EncryptReader_go.simps [simp del]

definition EncryptReaderTo ::
  "'a prims_scheme \<Rightarrow> nat \<Rightarrow> bytes \<times> bool \<Rightarrow> bytes \<Rightarrow> string \<Rightarrow>
     stream_error option \<times> bytes \<times> nat" where
  "EncryptReaderTo P pos r key fileID =
     EncryptReader_go P key fileID (snd r) pos 0 (fst r)"

section \<open>The decrypting reader\<close>

function DecryptReader_go ::
  "'a prims_scheme \<Rightarrow> bytes \<Rightarrow> string \<Rightarrow> 32 word \<Rightarrow> bytes \<Rightarrow> stream_error option \<times> bytes" where
  "DecryptReader_go P key fileID idx s =
     (case ReadFull 4 s of
        Inl e \<Rightarrow> (Some (Truncated e), [])
      | Inr (hdr, rest) \<Rightarrow>
          let n = rd_be32 hdr
          in if n = 0 then (None, [])
             else if n > 2 * ChunkSize then (Some (Truncated UnexpectedEOF), [])
             else (case ReadFull n rest of
                     Inl e \<Rightarrow> (Some (Truncated e), [])
                   | Inr (ct, rest1) \<Rightarrow>
                       (case DecryptChunk P key fileID idx ct of
                          None \<Rightarrow> (Some CipherFailed, [])
                        | Some pt \<Rightarrow>
                            (let (e, out) = DecryptReader_go P key fileID (idx + 1) rest1
                             in (e, pt @ out)))))"
  by pat_completeness auto
termination
  by (relation "measure (\<lambda>(P, key, fileID, idx, s). length s)") (auto dest!: ReadFull_exact)

declare DecryptReader_go.simps [simp del]

definition DecryptReaderTo ::
  "'a prims_scheme \<Rightarrow> bytes \<Rightarrow> bytes \<Rightarrow> string \<Rightarrow> stream_error option \<times> bytes" where
  "DecryptReaderTo P s key fileID = DecryptReader_go P key fileID 0 s"

section \<open>What the reader makes of a run of records\<close>

text \<open>
  \<open>opens P key f i cts pts\<close>: the records \<open>cts\<close> are within the reader's size limits and
  decrypt, from index \<open>i\<close> on, to \<open>pts\<close>.
\<close>

fun opens :: "'a prims_scheme \<Rightarrow> bytes \<Rightarrow> string \<Rightarrow> 32 word \<Rightarrow> bytes list \<Rightarrow> bytes list \<Rightarrow> bool" where
  "opens P key f i [] [] = True"
| "opens P key f i (ct # cts) (pt # pts) =
     (0 < length ct \<and> length ct \<le> 2 * ChunkSize \<and> DecryptChunk P key f i ct = Some pt \<and>
      opens P key f (i + 1) cts pts)"
| "opens P key f i _ _ = False"

lemma opens_length: "opens P key f i cts pts \<Longrightarrow> length cts = length pts"
  by (induction P key f i cts pts rule: opens.induct) auto

lemma opens_append:
  "opens P key f i cts pts \<Longrightarrow> opens P key f (i + of_nat (length cts)) cts' pts' \<Longrightarrow>
   opens P key f i (cts @ cts') (pts @ pts')"
  by (induction P key f i cts pts rule: opens.induct) (auto simp: add.assoc)

lemma opens_take: "opens P key f i cts pts \<Longrightarrow> opens P key f i (take n cts) (take n pts)"
  by (induction P key f i cts pts arbitrary: n rule: opens.induct) (auto simp: take_Cons split: nat.splits)

lemma decrypt_records:
  "opens P key f i cts pts \<Longrightarrow>
   DecryptReader_go P key f i (concat (map put_record cts) @ tail) =
     (let (e, out) = DecryptReader_go P key f (i + of_nat (length cts)) tail
      in (e, concat pts @ out))"
proof (induction P key f i cts pts rule: opens.induct)
  case (1 P key f i)
  then show ?case by simp
next
  case (2 P key f i ct cts pt pts)
  let ?rest = "concat (map put_record cts) @ tail"
  have n: "rd_be32 (be32 (length ct)) = length ct"
    using 2 by (simp add: rd_be32_be32 ChunkSize_def)
  have "DecryptReader_go P key f i (put_record ct @ ?rest) =
    (let (e, out) = DecryptReader_go P key f (i + 1) ?rest in (e, pt @ out))"
    using 2 n by (simp add: DecryptReader_go.simps [of P key f i] put_record_def ReadFull_append)
  with 2 show ?case by (simp add: add.assoc split: prod.split)
qed simp_all

lemma decrypt_end: "DecryptReader_go P key f i (be32 0 @ junk) = (None, [])"
  by (simp add: DecryptReader_go.simps rd_be32_be32)

lemma decrypt_eof: "DecryptReader_go P key f i [] = (Some (Truncated EOF), [])"
  by (simp add: DecryptReader_go.simps ReadFull_def)

text \<open>Conversely, whatever the reader outputs was a run of records in order.\<close>

lemma decrypt_sound:
  "DecryptReader_go P key f i s = (e, out) \<Longrightarrow>
   \<exists>cts pts tail. s = concat (map put_record cts) @ tail \<and> opens P key f i cts pts \<and> out = concat pts"
proof (induction P key f i s arbitrary: e out rule: DecryptReader_go.induct)
  case (1 P key f i s)
  show ?case
  proof (cases "out = []")
    case True
    then have "s = concat (map put_record []) @ s \<and> opens P key f i [] [] \<and> out = concat []"
      by simp
    then show ?thesis by blast
  next
    case False
    with "1.prems" obtain hdr rest where hdr: "ReadFull 4 s = Inr (hdr, rest)"
      by (auto simp: DecryptReader_go.simps [of P key f i s] split: sum.splits)
    let ?n = "rd_be32 hdr"
    from "1.prems" hdr False have n: "?n \<noteq> 0" "\<not> ?n > 2 * ChunkSize"
      by (auto simp: DecryptReader_go.simps [of P key f i s] Let_def split: if_splits)
    from "1.prems" hdr False n obtain ct rest1 where ct: "ReadFull ?n rest = Inr (ct, rest1)"
      by (auto simp: DecryptReader_go.simps [of P key f i s] Let_def split: sum.splits)
    from "1.prems" hdr False n ct obtain pt where pt: "DecryptChunk P key f i ct = Some pt"
      by (auto simp: DecryptReader_go.simps [of P key f i s] Let_def split: option.splits)
    obtain e1 out1 where go: "DecryptReader_go P key f (i + 1) rest1 = (e1, out1)" by fastforce
    with "1.prems" hdr n ct pt have out: "out = pt @ out1"
      by (auto simp: DecryptReader_go.simps [of P key f i s] Let_def)
    from "1.IH" [OF hdr refl refl n(1) n(2) ct refl pt go] obtain cts pts tail where
      IH: "rest1 = concat (map put_record cts) @ tail" "opens P key f (i + 1) cts pts"
        "out1 = concat pts" by blast
    from ReadFull_exact [OF hdr] ReadFull_exact [OF ct] n
    have s: "s = hdr @ ct @ rest1" "length hdr = 4" "length ct = ?n" by auto
    have "be32 (length ct) = hdr"
      using s(2,3) by (simp add: be32_rd_be32)
    then have "s = concat (map put_record (ct # cts)) @ tail"
      using s(1) IH(1) by (simp add: put_record_def)
    moreover have "opens P key f i (ct # cts) (pt # pts)"
      using n s(3) pt IH(2) by simp
    moreover have "out = concat (pt # pts)"
      using out IH(3) by simp
    ultimately show ?thesis by blast
  qed
qed

text \<open>The writer's output is the run of records of the file's chunks.\<close>

lemma sealed_chunk:
  assumes "gcm_correct P" "gcm_overhead P" "EncryptChunk P pos key f i c = (Some ct, pos')"
    and "length c \<le> ChunkSize"
  shows "0 < length ct \<and> length ct \<le> 2 * ChunkSize \<and> DecryptChunk P key f i ct = Some c"
proof -
  have "length ct = length c + 28"
    using assms(2,3) unfolding EncryptChunk_def by (rule length_encryptWithAAD)
  moreover have "DecryptChunk P key f i ct = Some c"
    using assms(1,3) by (rule chunk_roundtrip)
  ultimately show ?thesis using assms(4) by (simp add: ChunkSize_def)
qed

lemma encrypt_records:
  assumes P: "gcm_correct P" "gcm_overhead P" and key: "aes_key_ok key"
  shows "\<exists>cts pos'. EncryptReader_go P key f False pos i content =
           (None, concat (map put_record cts) @ be32 0, pos') \<and>
         opens P key f i cts (chunks_of content)"
proof (induction content arbitrary: pos i rule: chunks_of.induct)
  case (1 content)
  let ?buf = "take ChunkSize content"
  obtain ct where ct: "EncryptChunk P pos key f i ?buf = (Some ct, pos + nonceSize)"
    using encryptWithAAD_total [OF key] unfolding EncryptChunk_def by blast
  have sealed: "0 < length ct \<and> length ct \<le> 2 * ChunkSize \<and> DecryptChunk P key f i ct = Some ?buf"
    by (rule sealed_chunk [OF P ct]) simp
  show ?case
  proof (cases "content = []")
    case True
    then show ?thesis
      by (intro exI [of _ "[]"]) (simp add: EncryptReader_go.simps [of P key f False] ChunkSize_def)
  next
    case False
    then have chunks: "chunks_of content = ?buf # chunks_of (drop ChunkSize content)"
      by (simp add: chunks_of.simps [of content])
    show ?thesis
    proof (cases "ChunkSize \<le> length content")
      case True
      from "1.IH" [OF False, of "pos + nonceSize" "i + 1"] obtain cts pos' where
        IH: "EncryptReader_go P key f False (pos + nonceSize) (i + 1) (drop ChunkSize content) =
          (None, concat (map put_record cts) @ be32 0, pos')"
          "opens P key f (i + 1) cts (chunks_of (drop ChunkSize content))" by blast
      have "EncryptReader_go P key f False pos i content =
        (None, concat (map put_record (ct # cts)) @ be32 0, pos')"
        using False True ct IH(1)
        by (simp add: EncryptReader_go.simps [of P key f False pos i content] ChunkSize_def)
      moreover have "opens P key f i (ct # cts) (chunks_of content)"
        unfolding chunks using sealed IH(2) by simp
      ultimately show ?thesis by blast
    next
      case small: False
      then have "EncryptReader_go P key f False pos i content =
        (None, concat (map put_record [ct]) @ be32 0, pos + nonceSize)"
        using False ct by (simp add: EncryptReader_go.simps [of P key f False pos i content])
      moreover have "opens P key f i [ct] (chunks_of content)"
        unfolding chunks using sealed small by simp
      ultimately show ?thesis by blast
    qed
  qed
qed

end
