(* ===== verification/HubVault.thy ===== *)
theory HubVault
  imports HubMembers ChunkStream
begin

text \<open>
  The vault (\<^verbatim>\<open>core.go\<close>): ciphertext files of the hub, stored and fetched in
  chunks over the session (\<^verbatim>\<open>handleFilePut\<close>, \<^verbatim>\<open>handleFileGet\<close>) or whole
  over HTTP, and swept after ten minutes. A directory can be opened for reading, but every
  read of it fails.
\<close>

section \<open>Chunks over the session\<close>

definition read_open :: "'a hub_env_scheme \<Rightarrow> string \<Rightarrow> Hub \<Rightarrow> bytes option" where
  "read_open E path H =
     (case disk H path of Some f \<Rightarrow> Some (content f) | None \<Rightarrow> if is_dir E path then Some [] else None)"

definition handleFilePut :: "'a hub_env_scheme \<Rightarrow> nat \<Rightarrow> ChatMessage \<Rightarrow> Hub \<Rightarrow> Hub" where
  "handleFilePut E client msg H =
     (let name = Base (FileId msg)
      in if name = [] \<or> name = ''.'' then H
         else
           (let path = JoinPath [VaultDir H, name]
            in if ChunkIdx msg < 0 then
                 Log E (''[VAULT-MUX] '' @ Nickname (objs H client) @ '' put '' @ name @ '' done'') H
               else
                 (case Base64Decode (Content msg) of None \<Rightarrow> H
                  | Some ct \<Rightarrow>
                      if can_write E path \<and> \<not> is_dir E path then
                        (let old = (if ChunkIdx msg = 0 then []
                                    else case disk H path of None \<Rightarrow> [] | Some f \<Rightarrow> content f)
                         in H\<lparr>disk := (disk H)(path \<mapsto>
                                \<lparr>content = old @ be32 (length ct) @ ct, mtime = clock H\<rparr>)\<rparr>)
                      else H)))"

definition int32 :: "int \<Rightarrow> int" where
  "int32 x = sint (word_of_int x :: 32 word)"

definition file_data ::
  "'a hub_env_scheme \<Rightarrow> string \<Rightarrow> string \<Rightarrow> int \<Rightarrow> int \<Rightarrow> Hub \<Rightarrow> ChatMessage \<times> Hub" where
  "file_data E name c idx tot H =
     (let (out, H1) = new_msg E MsgTypeFileData c ''SERVER'' H
      in (out\<lparr>FileId := name, ChunkIdx := idx, TotalChunks := tot\<rparr>, H1))"

text \<open>The loop of \<^verbatim>\<open>handleFileGet\<close> over the bytes of the file still unread.\<close>

function get_loop ::
  "'a hub_env_scheme \<Rightarrow> nat \<Rightarrow> string \<Rightarrow> int \<Rightarrow> bytes \<Rightarrow> Hub \<Rightarrow> int \<times> Hub" where
  "get_loop E client name idx f H =
     (case ReadFull 4 f of Inl e \<Rightarrow> (idx, H)
      | Inr (hdr, rest) \<Rightarrow>
          let n = rd_be32 hdr
          in if n = 0 \<or> n > 8 * 1024 * 1024 then (idx, H)
             else (case ReadFull n rest of Inl e \<Rightarrow> (idx, H)
                   | Inr (ct, rest1) \<Rightarrow>
                       (let (out, H1) = file_data E name (Base64Encode ct) idx 0 H
                        in get_loop E client name (int32 (idx + 1)) rest1
                             (SendMessage E client out H1))))"
  by pat_completeness auto
termination
  by (relation "measure (\<lambda>(E, client, name, idx, f, H). length f)") (auto dest!: ReadFull_exact)

declare get_loop.simps [simp del]

definition handleFileGet :: "'a hub_env_scheme \<Rightarrow> nat \<Rightarrow> ChatMessage \<Rightarrow> Hub \<Rightarrow> Hub" where
  "handleFileGet E client msg H =
     (let name0 = Base (FileId msg);
          name = (if name0 = [] then Base (Content msg) else name0);
          path = JoinPath [VaultDir H, name]
      in case read_open E path H of
           None \<Rightarrow> SendSystemMessage E client (''file not in vault: '' @ name) H
         | Some f \<Rightarrow>
             (let (idx, H1) = get_loop E client name 0 f H;
                  (fin, H2) = file_data E name [] (-1) idx H1
              in SendMessage E client fin H2))"

section \<open>Whole files over HTTP\<close>

text \<open>A request as the handlers read it; the form file is absent when the body does not
  parse. The text of an operating system error is left out of the answer.\<close>

record http_request =
  q_f :: string
  q_t :: string
  q_u :: string
  authorization :: string
  body_size :: nat
  form_file :: "(string \<times> bytes) option"

datatype http_reply = Reply nat bytes

definition authorized :: "http_request \<Rightarrow> Hub \<Rightarrow> bool" where
  "authorized r H \<longleftrightarrow>
     \<not> (TrimPrefix (authorization r) ''Bearer '' \<noteq> VaultToken H \<and> q_t r \<noteq> VaultToken H)"

definition http_download :: "'a hub_env_scheme \<Rightarrow> http_request \<Rightarrow> Hub \<Rightarrow> http_reply" where
  "http_download E r H =
     (let filename = Base (q_f r)
      in if \<not> authorized r H then Reply 401 ''Unauthorized''
         else
           (case read_open E (JoinPath [VaultDir H, filename]) H of
              None \<Rightarrow> Reply 404 ''Not Found''
            | Some f \<Rightarrow> Reply 200 f))"

definition http_upload :: "'a hub_env_scheme \<Rightarrow> http_request \<Rightarrow> Hub \<Rightarrow> http_reply \<times> Hub" where
  "http_upload E r H =
     (if \<not> authorized r H then (Reply 401 ''Unauthorized'', H)
      else
        (let uploader = (if q_u r = [] then ''Unknown'' else q_u r)
         in case (if body_size r > 100 * 1024 * 1024 then None else form_file r) of
              None \<Rightarrow> (Reply 400 ''File too large or invalid'', H)
            | Some (hname, data) \<Rightarrow>
                (let safeFilename = Base hname;
                     dstPath = JoinPath [VaultDir H, safeFilename]
                 in if \<not> can_write E dstPath \<or> is_dir E dstPath then (Reply 500 [], H)
                    else if \<not> copy_ok E dstPath then
                      (Reply 500 ''write failed'', H\<lparr>disk := (disk H)(dstPath := None)\<rparr>)
                    else
                      (Reply 200 ''OK'',
                       Log E (''[VAULT] '' @ uploader @ '' uploaded '' @ safeFilename)
                         (H\<lparr>disk := (disk H)(dstPath \<mapsto>
                              \<lparr>content = data, mtime = clock H\<rparr>)\<rparr>)))))"

section \<open>The sweep and the listener\<close>

definition in_dir :: "string \<Rightarrow> string \<Rightarrow> bool" where
  "in_dir d p \<longleftrightarrow> p = JoinPath [d, Base p]"

definition vault_sweep :: "Hub \<Rightarrow> Hub" where
  "vault_sweep H =
     (if VaultDir H = [] then H
      else H\<lparr>disk := (\<lambda>p. case disk H p of None \<Rightarrow> None
                       | Some f \<Rightarrow> if in_dir (VaultDir H) p \<and> clock H - mtime f > 10 * 60 * second
                                  then None else Some f)\<rparr>)"

text \<open>The first free port of ten, or none; the flag says that the server goes on to serve.\<close>

definition startFileServer :: "'a hub_env_scheme \<Rightarrow> (int \<Rightarrow> bool) \<Rightarrow> Hub \<Rightarrow> bool \<times> Hub" where
  "startFileServer E listen_ok H =
     (case List.find listen_ok (map (\<lambda>i. 6667 + int i) [0..<10]) of
        None \<Rightarrow> (False, Log E ''Failed to start file server listener after 10 attempts'' H)
      | Some port \<Rightarrow>
          (let H1 = H\<lparr>HTTPPort := port\<rparr>;
               H2 = Log E (''File server (Vault) started on port '' @ dec (nat port)) H1
           in (True, RotateVaultToken E H2)))"

section \<open>Where the vault writes\<close>

lemma JoinPath_step:
  assumes ws: "\<forall>w \<in> set ws. good_comp w" "ws \<noteq> []" and w: "slash \<notin> set w"
  shows "JoinPath [abs_path ws, w] = abs_path (rev (clean_step True (rev ws) w))"
proof -
  have "Split (abs_path ws @ slash # w) slash = [] # ws @ [w]"
    using ws by (simp add: Split_append Split_abs_path Split_noc [OF w])
  then have "clean_comps True (Split (abs_path ws @ slash # w) slash) =
      rev (clean_step True (rev ws) w)"
    using ws by (simp add: clean_comps_def foldl_clean_good clean_step_def [of True "[]" "[]"])
  then show ?thesis
    by (simp add: JoinPath_def abs_path_def Clean_def is_rooted_def)
qed

lemma Split_slash: "Split (abs_path ws @ [slash, slash]) slash = Split (abs_path ws) slash @ [[], []]"
  using Split_append [of "abs_path ws" slash "[slash]"] Split_append [of "[]" slash "[]"] by simp

lemma JoinPath_slash:
  assumes "\<forall>w \<in> set ws. good_comp w" "ws \<noteq> []"
  shows "JoinPath [abs_path ws, [slash]] = abs_path ws"
proof -
  have "clean_comps True (Split (abs_path ws @ [slash, slash]) slash) = ws"
    using assms by (simp add: Split_slash Split_abs_path clean_comps_def foldl_clean_good clean_step_def)
  then show ?thesis by (simp add: JoinPath_def abs_path_def Clean_def is_rooted_def)
qed

text \<open>A name off the wire stays below the vault directory, or names that directory or its
  parent.\<close>

lemma vault_path:
  assumes ws: "\<forall>w \<in> set ws. good_comp w" "ws \<noteq> []"
  shows "JoinPath [abs_path ws, Base p] \<in> {abs_path ws, abs_path (butlast ws)} \<or>
    (good_comp (Base p) \<and> JoinPath [abs_path ws, Base p] = abs_path (ws @ [Base p]))"
proof (cases "Base p = [slash]")
  case True
  with JoinPath_slash [OF ws] show ?thesis by simp
next
  case False
  then have s: "slash \<notin> set (Base p)" "Base p \<noteq> []" using Base_shape [of p] by auto
  show ?thesis
  proof (cases "Base p = ''.'' \<or> Base p = ''..''")
    case True
    obtain v vs where "rev ws = v # vs" using ws(2) by (cases "rev ws") auto
    then have v: "ws = rev vs @ [v]" by simp
    then have "v \<noteq> ''..''" using ws(1) by (simp add: good_comp_def)
    with True v have "rev (clean_step True (rev ws) (Base p)) \<in> {ws, butlast ws}"
      by (auto simp: clean_step_def)
    then show ?thesis unfolding JoinPath_step [OF ws s(1)] by auto
  next
    case False
    with \<open>Base p \<noteq> [slash]\<close> have "good_comp (Base p)" using Base_good by blast
    then show ?thesis using JoinPath_child [OF ws(1) _ ws(2)] by blast
  qed
qed

definition vault_at :: "'a hub_env_scheme \<Rightarrow> string list \<Rightarrow> Hub \<Rightarrow> bool" where
  "vault_at E ws H \<longleftrightarrow>
     VaultDir H = abs_path ws \<and> (\<forall>w \<in> set ws. good_comp w) \<and> ws \<noteq> [] \<and>
     is_dir E (abs_path ws) \<and> is_dir E (abs_path (butlast ws))"

lemma vault_file:
  assumes "vault_at E ws H" and "\<not> is_dir E (JoinPath [VaultDir H, Base p])"
  shows "good_comp (Base p) \<and> JoinPath [VaultDir H, Base p] = abs_path (ws @ [Base p])"
  using assms vault_path [of ws p] by (auto simp: vault_at_def)

lemma Log_disk [simp]: "disk (Log E m H) = disk H"
  by simp

lemma put_confined:
  assumes "vault_at E ws H" and "disk (handleFilePut E r msg H) p \<noteq> disk H p"
  shows "good_comp (Base (FileId msg)) \<and> p = abs_path (ws @ [Base (FileId msg)])"
  using assms(2) vault_file [OF assms(1), of "FileId msg"]
  by (auto simp: handleFilePut_def Let_def split: if_splits option.splits)

lemma upload_confined:
  assumes "vault_at E ws H" and "disk (snd (http_upload E q H)) p \<noteq> disk H p"
  shows "\<exists>n. good_comp n \<and> p = abs_path (ws @ [n])"
proof -
  obtain n d where "form_file q = Some (n, d)" "p = JoinPath [VaultDir H, Base n]" "\<not> is_dir E p"
    using assms(2)
    by (auto simp: http_upload_def Let_def split: if_splits option.splits prod.splits)
  with vault_file [OF assms(1), of n] show ?thesis by auto
qed

section \<open>What was put is what is got\<close>

definition put_msg :: "string \<Rightarrow> nat \<times> bytes \<Rightarrow> ChatMessage" where
  "put_msg name x =
     empty_message\<lparr>Type := MsgTypeFilePut, FileId := name, ChunkIdx := int (fst x),
       Content := Base64Encode (snd x)\<rparr>"

definition put_all :: "'a hub_env_scheme \<Rightarrow> nat \<Rightarrow> string \<Rightarrow> nat \<Rightarrow> bytes list \<Rightarrow> Hub \<Rightarrow> Hub" where
  "put_all E r name i cts H = fold (\<lambda>x. handleFilePut E r (put_msg name x)) (enumerate i cts) H"

lemma put_one:
  assumes "Base name = name" "name \<noteq> []" "name \<noteq> ''.''"
    and "can_write E (JoinPath [VaultDir H, name])" "\<not> is_dir E (JoinPath [VaultDir H, name])"
  shows "handleFilePut E r (put_msg name (i, ct)) H =
    H\<lparr>disk := (disk H)(JoinPath [VaultDir H, name] \<mapsto>
       \<lparr>content = (if i = 0 then [] else case disk H (JoinPath [VaultDir H, name]) of
                    None \<Rightarrow> [] | Some f \<Rightarrow> content f) @ put_record ct,
        mtime = clock H\<rparr>)\<rparr>"
  using assms by (simp add: handleFilePut_def put_msg_def put_record_def Let_def)

lemma put_all_content:
  assumes "Base name = name" "name \<noteq> []" "name \<noteq> ''.''"
    and "can_write E (JoinPath [VaultDir H, name])" "\<not> is_dir E (JoinPath [VaultDir H, name])"
    and "cts \<noteq> []"
  shows "\<exists>f. put_all E r name 0 cts H = H\<lparr>disk := (disk H)(JoinPath [VaultDir H, name] \<mapsto> f)\<rparr> \<and>
    content f = concat (map put_record cts)"
  using assms(6)
proof (induction cts rule: rev_induct)
  case (snoc ct cts)
  let ?p = "JoinPath [VaultDir H, name]"
  have step: "put_all E r name 0 (cts @ [ct]) H =
      handleFilePut E r (put_msg name (length cts, ct)) (put_all E r name 0 cts H)"
    by (simp add: put_all_def enumerate_append_eq)
  show ?case
  proof (cases "cts = []")
    case True
    then have "put_all E r name 0 (cts @ [ct]) H =
        H\<lparr>disk := (disk H)(?p \<mapsto> \<lparr>content = put_record ct, mtime = clock H\<rparr>)\<rparr>"
      using put_one [OF assms(1-5), of r 0 ct] by (simp add: put_all_def)
    with True show ?thesis
      by (intro exI [of _ "\<lparr>content = put_record ct, mtime = clock H\<rparr>"]) (simp add: fun_upd_def)
  next
    case False
    then obtain f where f: "put_all E r name 0 cts H = H\<lparr>disk := (disk H)(?p \<mapsto> f)\<rparr>"
      "content f = concat (map put_record cts)"
      using snoc.IH by blast
    let ?g = "\<lparr>content = concat (map put_record (cts @ [ct])), mtime = clock H\<rparr>"
    have "put_all E r name 0 (cts @ [ct]) H = H\<lparr>disk := (disk H)(?p \<mapsto> ?g)\<rparr>"
      using f put_one [OF assms(1-3), of E "H\<lparr>disk := (disk H)(?p \<mapsto> f)\<rparr>" r "length cts" ct]
        assms(4,5) False
      by (simp add: step)
    then show ?thesis by (intro exI [of _ ?g]) (simp add: fun_upd_def)
  qed
qed simp

text \<open>What a client reads when it opens a queued payload.\<close>

definition received :: "'a wire_scheme \<Rightarrow> bytes \<Rightarrow> string \<Rightarrow> ChatMessage option" where
  "received W key p = Option.bind (opened W key p) (Decode W)"

definition is_chunk :: "'a wire_scheme \<Rightarrow> bytes \<Rightarrow> string \<Rightarrow> string \<Rightarrow> nat \<times> bytes \<Rightarrow> bool" where
  "is_chunk W key name p x \<longleftrightarrow>
     (case received W key p of None \<Rightarrow> False
      | Some m \<Rightarrow> Type m = MsgTypeFileData \<and> FileId m = name \<and> ChunkIdx m = int (fst x) \<and>
                 Base64Decode (Content m) = Some (snd x))"

definition wire_ok :: "'a wire_scheme \<Rightarrow> bool" where
  "wire_ok W \<longleftrightarrow> gcm_correct W \<and> pb_chat_ok W \<and> pb_ascii_ok W"

lemma int32_small: "- (2 ^ 31) \<le> x \<Longrightarrow> x < 2 ^ 31 \<Longrightarrow> int32 x = x"
  by (simp add: int32_def sint_sbintrunc' signed_take_bit_int_eq_self)

lemma file_data_fields:
  "snd (file_data E name c idx tot H) = H\<lparr>rpos := rpos H + 8\<rparr>"
  "Type (fst (file_data E name c idx tot H)) = MsgTypeFileData"
  "Content (fst (file_data E name c idx tot H)) = c"
  "FileId (fst (file_data E name c idx tot H)) = name"
  "ChunkIdx (fst (file_data E name c idx tot H)) = idx"
  "TotalChunks (fst (file_data E name c idx tot H)) = tot"
  by (simp_all add: file_data_def case_prod_beta snd_new_msg fst_new_msg)

lemma ascii_file_data:
  assumes "pb_ascii_ok E" "ascii name" "ascii c"
  shows "ascii_msg (fst (file_data E name c idx tot H))"
proof -
  have "ascii_msg (fst (new_msg E MsgTypeFileData c ''SERVER'' H))"
    unfolding fst_new_msg by (rule ascii_CreateMessage [OF assms(1) _ assms(3)])
      (simp_all add: cfg ascii_def)
  with assms(2) show ?thesis
    by (simp add: file_data_def case_prod_beta ascii_msg_def)
qed

lemma SendMessage_received:
  assumes "wire_ok E" "ascii_msg m" "aes_key_ok (EncryptionKey (objs H r))" "has_room H r"
  shows "\<exists>p. SendChan (objs (SendMessage E r m H) r) = SendChan (objs H r) @ [p] \<and>
    received E (EncryptionKey (objs H r)) p = Some m"
proof -
  obtain b where b: "Encode E m = Some b" "Decode E b = Some m"
    using assms(1,2) by (metis Encode_ascii wire_ok_def)
  have "gains E b H (SendMessage E r m H) (r = r \<and> has_room H r) r"
    using assms(1) by (intro SendMessage_gains) (simp_all add: b assms(3) wire_ok_def)
  with assms(4) b(2) show ?thesis by (auto simp: gains_def received_def)
qed

lemma get_loop_step:
  assumes "0 < length ct" "length ct \<le> 8 * 1024 * 1024"
  shows "get_loop E r name idx (put_record ct @ rest) H =
    get_loop E r name (int32 (idx + 1)) rest
      (SendMessage E r (fst (file_data E name (Base64Encode ct) idx 0 H))
        (snd (file_data E name (Base64Encode ct) idx 0 H)))"
proof -
  have n: "rd_be32 (be32 (length ct)) = length ct" using assms(2) by (simp add: rd_be32_be32)
  show ?thesis
    unfolding get_loop.simps [of E r name idx "be32 (length ct) @ ct @ rest"] put_record_def append_assoc
    using assms by (simp add: n ReadFull_append case_prod_beta)
qed

lemma get_loop_end: "get_loop E r name idx [] H = (idx, H)"
  by (simp add: get_loop.simps ReadFull_def)

text \<open>A record of length 0 reads as the end of the file.\<close>

lemma get_loop_zero: "get_loop E r name idx (put_record [] @ rest) H = (idx, H)"
proof -
  have "rd_be32 (be32 0) = 0" using rd_be32_be32 [of 0] by simp
  then show ?thesis
    using get_loop.simps [of E r name idx "be32 0 @ rest"] by (simp add: put_record_def ReadFull_append)
qed

lemma get_loop_records:
  assumes "wire_ok E" "ascii name"
    and "\<forall>ct \<in> set cts. length ct \<le> 8 * 1024 * 1024"
    and "aes_key_ok (EncryptionKey (objs H r))"
    and "length (SendChan (objs H r)) + length cts \<le> 100" and "i + length cts < 2 ^ 31"
  shows "\<exists>ps H'. get_loop E r name (int i) (concat (map put_record cts)) H =
      (int (i + length (takeWhile (\<lambda>ct. ct \<noteq> []) cts)), H') \<and>
    talks H H' \<and> SendChan (objs H' r) = SendChan (objs H r) @ ps \<and>
    list_all2 (is_chunk E (EncryptionKey (objs H r)) name) ps (enumerate i (takeWhile (\<lambda>ct. ct \<noteq> []) cts))"
  using assms(3-)
proof (induction cts arbitrary: i H)
  case Nil
  then show ?case by (auto simp: get_loop_end)
next
  case (Cons ct cts)
  show ?case
  proof (cases "ct = []")
    case True
    then show ?thesis using get_loop_zero [of E r name "int i" "concat (map put_record cts)" H] by auto
  next
  case False
    let ?good = "takeWhile (\<lambda>ct. ct \<noteq> []) cts"
    let ?m = "fst (file_data E name (Base64Encode ct) (int i) 0 H)"
    let ?H1 = "H\<lparr>rpos := rpos H + 8\<rparr>"
    let ?H2 = "SendMessage E r ?m ?H1"
    have asc: "ascii_msg ?m" using assms(1,2) by (simp add: ascii_file_data wire_ok_def)
    have "has_room ?H1 r" using Cons.prems(3) by (simp add: has_room_def)
    with SendMessage_received [OF assms(1) asc, of ?H1 r] Cons.prems(2)
    obtain p where p: "SendChan (objs ?H2 r) = SendChan (objs H r) @ [p]"
      "received E (EncryptionKey (objs H r)) p = Some ?m" by auto
    have chunk: "is_chunk E (EncryptionKey (objs H r)) name p (i, ct)"
      by (simp add: is_chunk_def p(2) file_data_fields)
    have t: "talks H ?H2" by (intro SendMessage.after) (simp add: talks_def settled_def bounded_def queues_grow_def)
    have "int32 (int i + 1) = int (Suc i)" using Cons.prems(4) by (simp add: int32_small)
    then have step: "get_loop E r name (int i) (concat (map put_record (ct # cts))) H =
        get_loop E r name (int (Suc i)) (concat (map put_record cts)) ?H2"
      using get_loop_step [of ct E r name "int i" "concat (map put_record cts)" H] Cons.prems(1) False
      by (simp add: file_data_fields)
    have "\<exists>ps H'. get_loop E r name (int (Suc i)) (concat (map put_record cts)) ?H2 =
          (int (Suc i + length ?good), H') \<and> talks ?H2 H' \<and>
        SendChan (objs H' r) = SendChan (objs ?H2 r) @ ps \<and>
        list_all2 (is_chunk E (EncryptionKey (objs ?H2 r)) name) ps (enumerate (Suc i) ?good)"
      using Cons.prems by (intro Cons.IH) (simp_all add: p(1))
    then obtain ps H' where IH: "get_loop E r name (int (Suc i)) (concat (map put_record cts)) ?H2 =
          (int (Suc i + length ?good), H')" "talks ?H2 H'"
        "SendChan (objs H' r) = SendChan (objs ?H2 r) @ ps"
        "list_all2 (is_chunk E (EncryptionKey (objs H r)) name) ps (enumerate (Suc i) ?good)"
      by auto
    show ?thesis
      using False IH step chunk p(1) talks_trans [OF t IH(2)]
      by (intro exI [of _ "p # ps"] exI [of _ H']) simp
  qed
qed

end
