(* ===== verification/HubCommands.thy ===== *)
theory HubCommands
  imports HubVault
begin

text \<open>
  What a member sends: the slash commands (\<^verbatim>\<open>commands.go\<close>) and the dispatcher
  \<^verbatim>\<open>processClientMessage\<close> (\<^verbatim>\<open>core.go\<close>).
\<close>

section \<open>commands.go\<close>

type_synonym handler = "nat \<Rightarrow> string list \<Rightarrow> Hub \<Rightarrow> Hub"

definition handleList :: "'a hub_env_scheme \<Rightarrow> handler" where
  "handleList E client args H =
     (let users = map (\<lambda>r. Nickname (objs H r))
                    (filter (\<lambda>r. State (objs H r) = State (objs H client)) (GetAllClients H))
      in SendSystemMessage E client (''Online: '' @ Join users '', '') H)"

definition handlePrivate :: "'a hub_env_scheme \<Rightarrow> handler" where
  "handlePrivate E client args H =
     (case args of
        targetNick # w # ws \<Rightarrow>
          (let txt = Join (w # ws) '' '';
               notfound = SendSystemMessage E client (''User not found: '' @ targetNick) H
           in case GetClientByNickname targetNick H of
                None \<Rightarrow> notfound
              | Some target \<Rightarrow>
                  if State (objs H target) = State (objs H client) then
                    (let me = Nickname (objs H client);
                         (pm, H1) = new_msg E ''PRIVATE'' (''[PM from '' @ me @ '']: '' @ txt) me H;
                         H2 = SendMessage E target pm H1
                     in SendSystemMessage E client (''PM sent to '' @ targetNick) H2)
                  else notfound)
      | _ \<Rightarrow> SendSystemMessage E client ''Usage: /private <nick> <message>'' H)"

definition handleAnn :: "'a hub_env_scheme \<Rightarrow> handler" where
  "handleAnn E client args H =
     (if \<not> IsAdmin (objs H client) then SendSystemMessage E client ''Admin only.'' H
      else if args = [] then H
      else BroadcastAnnouncement E (Join args '' '') H)"

definition handleOp :: "'a hub_env_scheme \<Rightarrow> handler" where
  "handleOp E client args H =
     (if \<not> IsAdmin (objs H client) \<or> args = [] then
        SendSystemMessage E client ''Unauthorized or missing argument.'' H
      else
        (case GetClientByNickname (hd args) H of None \<Rightarrow> H
         | Some target \<Rightarrow>
             (let H1 = upd_obj target (\<lambda>c. c\<lparr>IsAdmin := True\<rparr>) H;
                  H2 = rememberAdmin E (Base64Encode (SigningPubKey (objs H1 target)))
                         (Nickname (objs H1 target)) H1;
                  H3 = SendSystemMessage E target ''You have been granted admin privileges.'' H2
              in SendSystemMessage E client (hd args @ '' is now an admin.'') H3)))"

definition handleApprove :: "'a hub_env_scheme \<Rightarrow> handler" where
  "handleApprove E client args H =
     (if \<not> IsAdmin (objs H client) \<or> args = [] then H
      else
        (let (ok, H1) = ApproveClient E (hd args) H
         in if ok then SendSystemMessage E client (hd args @ '' approved.'') H1
            else SendSystemMessage E client (''User not found: '' @ hd args) H1))"

definition handleBlock :: "'a hub_env_scheme \<Rightarrow> handler" where
  "handleBlock E client args H =
     (if \<not> IsAdmin (objs H client) \<or> args = [] then H
      else
        (let (ok, H1) = BlockClient E (hd args) H
         in if ok then SendSystemMessage E client (hd args @ '' blocked.'') H1
            else SendSystemMessage E client (''User not found: '' @ hd args) H1))"

definition handleKick :: "'a hub_env_scheme \<Rightarrow> handler" where
  "handleKick E client args H =
     (if \<not> IsAdmin (objs H client) \<or> args = [] then H
      else
        (case GetClientByNickname (hd args) H of None \<Rightarrow> H
         | Some target \<Rightarrow>
             SendSystemMessage E client (hd args @ '' kicked.'') (removeClient E target H)))"

definition handleRoom :: "'a hub_env_scheme \<Rightarrow> handler" where
  "handleRoom E client args H =
     (if args = [] then SendSystemMessage E client ''Usage: /room <name>'' H
      else
        (let (rm, reg) = Ensure (hd args) (Rooms H)
         in SendSystemMessage E client
              (''room '' @ RoomID rm @ '' epoch '' @ dec (unat (Epoch rm))) (H\<lparr>Rooms := reg\<rparr>)))"

definition handleRooms :: "'a hub_env_scheme \<Rightarrow> handler" where
  "handleRooms E client args H =
     SendSystemMessage E client (''Rooms: '' @ Join (ListRooms (Rooms H)) '', '') H"

definition Register :: "string \<Rightarrow> handler \<Rightarrow> (string \<times> handler) list \<Rightarrow> (string \<times> handler) list" where
  "Register name h reg = AList.update name h reg"

definition registerDefaults :: "'a hub_env_scheme \<Rightarrow> (string \<times> handler) list" where
  "registerDefaults E =
     fold (\<lambda>(name, h). Register name h)
       [(''/list'', handleList E), (''/private'', handlePrivate E), (''/ann'', handleAnn E),
        (''/op'', handleOp E), (''/approve'', handleApprove E), (''/block'', handleBlock E),
        (''/blacklist'', handleBlock E), (''/kick'', handleKick E), (''/room'', handleRoom E),
        (''/rooms'', handleRooms E)] []"

definition Handle :: "'a hub_env_scheme \<Rightarrow> nat \<Rightarrow> string \<Rightarrow> Hub \<Rightarrow> Hub" where
  "Handle E client input H =
     (case Fields input of [] \<Rightarrow> H
      | cmdName # args \<Rightarrow>
          (case map_of (registerDefaults E) cmdName of
             Some h \<Rightarrow> h client args H
           | None \<Rightarrow> SendSystemMessage E client (''Unknown command: '' @ cmdName) H))"

definition handleCommand :: "'a hub_env_scheme \<Rightarrow> nat \<Rightarrow> string \<Rightarrow> Hub \<Rightarrow> Hub" where
  "handleCommand E client c H =
     Handle E client c
       (H\<lparr>Stats := (Stats H)\<lparr>CommandsExecuted := CommandsExecuted (Stats H) + 1\<rparr>\<rparr>)"

section \<open>processClientMessage\<close>

definition open_message :: "'a wire_scheme \<Rightarrow> Client \<Rightarrow> string \<Rightarrow> ChatMessage option" where
  "open_message W c txt =
     (case Base64Decode txt of None \<Rightarrow> None
      | Some encBytes \<Rightarrow>
          (case Decrypt W (EncryptionKey c) encBytes of None \<Rightarrow> None
           | Some decryptedBytes \<Rightarrow> Decode W decryptedBytes))"

definition send_ack :: "'a hub_env_scheme \<Rightarrow> nat \<Rightarrow> ChatMessage \<Rightarrow> Hub \<Rightarrow> Hub" where
  "send_ack E client msg H =
     (if (Type msg = MsgTypeChat \<or> Type msg = MsgTypePrivate) \<and> MessageId msg \<noteq> [] then
        (let (ackMsg, H1) = new_msg E MsgTypeAck (MessageId msg) ''SERVER'' H
         in snd (deliver E client (nil_or (Encode E ackMsg)) H1))
      else H)"

definition relay_private :: "'a hub_env_scheme \<Rightarrow> nat \<Rightarrow> ChatMessage \<Rightarrow> Hub \<Rightarrow> Hub" where
  "relay_private E client msg H0 =
     (let H = Log E (''[PRIVATE] '' @ Nickname (objs H0 client) @ '' -> '' @ ReplyTo msg @ '' (ciphertext)'') H0;
          missing = SendSystemMessage E client (u_cross @ '' User not found or offline: '' @ ReplyTo msg) H
      in case GetClientByNickname (ReplyTo msg) H of
           None \<Rightarrow> missing
         | Some target \<Rightarrow>
             if State (objs H target) = ''WHITELISTED'' then
               snd (deliver E target (nil_or (Encode E msg)) H)
             else missing)"

definition dispatch :: "'a hub_env_scheme \<Rightarrow> nat \<Rightarrow> ChatMessage \<Rightarrow> Hub \<Rightarrow> Hub" where
  "dispatch E client msg H0 =
     (let H = send_ack E client msg H0;
          st = State (objs H client); addr = Address (objs H client)
      in if Type msg = MsgTypeCmd \<or>
            (Type msg = MsgTypeChat \<and> \<not> IsE2Ee msg \<and> HasPrefix (Content msg) ''/'') then
           handleCommand E client (Content msg) H
         else if Type msg = MsgTypePrivate then relay_private E client msg H
         else if Type msg = MsgTypeFileOffer then
           BroadcastToState E st msg addr
             (Log E (''[FILE_OFFER] '' @ Nickname (objs H client) @ '' shared metadata: '' @ Content msg) H)
         else if Type msg = MsgTypeFilePut then handleFilePut E client msg H
         else if Type msg = MsgTypeFileGet then handleFileGet E client msg H
         else
           (let H1 = upd_obj client (\<lambda>c. c\<lparr>MessageCount := MessageCount c + 1\<rparr>) H;
                nick = Nickname (objs H1 client);
                H2 = (if st = ''WHITELISTED'' then
                        Log E (''[WHITELIST] '' @ nick @ '': ciphertext'')
                          (save_history E MsgTypeChat ''[e2ee]'' nick H1)
                      else H1)
            in BroadcastToState E st msg addr H2))"

definition rate_limited :: "string \<Rightarrow> bool" where
  "rate_limited ty \<longleftrightarrow> ty = MsgTypeChat \<or> ty = MsgTypePrivate \<or> ty = MsgTypeFileOffer"

definition processClientMessage :: "'a hub_env_scheme \<Rightarrow> nat \<Rightarrow> string \<Rightarrow> Hub \<Rightarrow> Hub" where
  "processClientMessage E client txt H =
     (case open_message E (objs H client) txt of None \<Rightarrow> H
      | Some msg \<Rightarrow>
          if State (objs H client) = ''PENDING'' then
            SendSystemMessage E client ''You are waiting for admin approval.'' H
          else if Type msg = MsgTypePong \<or> Type msg = MsgTypePing then H
          else
            (let (allowed, c) = (if rate_limited (Type msg)
                                 then allowMessage (clock H) (objs H client)
                                 else (True, objs H client));
                 H1 = upd_obj client (\<lambda>_. c) H
             in if \<not> allowed then SendSystemMessage E client ''slow down (rate limit)'' H1
                else if Type msg = MsgTypeTyping then
                  (let (b, H2) = new_msg E MsgTypeTyping [] (Nickname c) H1
                   in BroadcastToState E (State c) b (Address c) H2)
                else if Type msg = MsgTypeReaction then
                  (let (b, H2) = new_msg E MsgTypeReaction (Content msg) (Nickname c) H1
                   in BroadcastToState E (State c) b (Address c) H2)
                else dispatch E client msg H1))"

section \<open>Commands and privileges\<close>

text \<open>
  \<open>roles\<close> keeps what decides who is who on the hub (membership, states, administrators,
  keys, access lists, tokens, scheduled removals) and erases queues, logs, counters, rooms
  and stored files.
\<close>

definition roles :: "Hub \<Rightarrow> Hub" where
  "roles H =
     H\<lparr>objs := (\<lambda>r. (objs H r)\<lparr>SendChan := [], MessageCount := 0, winStart := None, winCount := 0\<rparr>),
       DBManager := NewMemoryManager 0 0, ConsoleHistory := [], Stats := no_stats, EventLog := [],
       rpos := 0, Rooms := [], disk := (\<lambda>_. None)\<rparr>"

lemma roles_settled: "roles (settled H) = roles H"
  by (simp add: roles_def settled_def)

lemma talks_roles: "talks H H' \<Longrightarrow> roles H' = roles H"
  unfolding talks_def by (metis roles_settled)

lemma roles_talk [simp]:
  "roles (SendSystemMessage E r c H) = roles H" "roles (SendMessage E r msg H) = roles H"
  "roles (BroadcastToState E st msg x H) = roles H" "roles (Log E m H) = roles H"
  "roles (snd (deliver E r bs H)) = roles H" "roles (snd (new_msg E ty c s H)) = roles H"
  "roles (save_history E ty c s H) = roles H" "roles (BroadcastAnnouncement E t H) = roles H"
  by (rule talks_roles, rule SendSystemMessage.talks_f SendMessage.talks_f BroadcastToState.talks_f
      Log.talks_f deliver.talks_f new_msg.talks_f save_history.talks_f
      BroadcastAnnouncement.talks_f)+

lemma roles_updates [simp]:
  "roles (H\<lparr>Rooms := g\<rparr>) = roles H" "roles (H\<lparr>Stats := t\<rparr>) = roles H"
  "roles (H\<lparr>disk := d\<rparr>) = roles H" "roles (H\<lparr>rpos := p\<rparr>) = roles H"
  by (simp_all add: roles_def)

lemma roles_upd [simp]:
  "roles (upd_obj r (\<lambda>c. c\<lparr>MessageCount := f c\<rparr>) H) = roles H"
  by (simp add: roles_def upd_obj_def fun_eq_iff)

lemma roles_allow [simp]:
  "roles (upd_obj r (\<lambda>_. snd (allowMessage now (objs H r))) H) = roles H"
  by (simp add: roles_def upd_obj_def fun_eq_iff allowMessage_def Let_def)

lemma upd_obj_id [simp]: "upd_obj r (\<lambda>_. objs H r) H = H"
  by (simp add: upd_obj_def)

lemma talks_get_loop [talk]:
  "talks G H \<Longrightarrow> talks G (snd (get_loop E r name idx f H))"
proof (induction E r name idx f H rule: get_loop.induct)
  case (1 E r name idx f H)
  show ?case
  proof (cases "\<exists>hdr rest ct rest1. ReadFull 4 f = Inr (hdr, rest) \<and>
      \<not> (rd_be32 hdr = 0 \<or> rd_be32 hdr > 8 * 1024 * 1024) \<and>
      ReadFull (rd_be32 hdr) rest = Inr (ct, rest1)")
    case False
    then have "snd (get_loop E r name idx f H) = H"
      by (auto simp: get_loop.simps [of E r name idx f H] Let_def split: sum.split)
    with 1(2) show ?thesis by simp
  next
    case True
    then obtain hdr rest ct rest1 where s: "ReadFull 4 f = Inr (hdr, rest)"
      "\<not> (rd_be32 hdr = 0 \<or> rd_be32 hdr > 8 * 1024 * 1024)"
      "ReadFull (rd_be32 hdr) rest = Inr (ct, rest1)" by blast
    let ?d = "file_data E name (Base64Encode ct) idx 0 H"
    have "talks H (snd ?d)"
      by (simp add: file_data_fields talks_def settled_def bounded_def queues_grow_def)
    with 1(2) have "talks G (SendMessage E r (fst ?d) (snd ?d))"
      by (intro SendMessage.after) (rule talks_trans)
    then have "talks G (snd (get_loop E r name (int32 (idx + 1)) rest1
        (SendMessage E r (fst ?d) (snd ?d))))"
      by (rule 1(1) [OF s(1) refl refl s(2,3) refl refl prod.collapse])
    then show ?thesis
      using s(2) by (simp add: get_loop.simps [of E r name idx f H] s(1,3) case_prod_beta Let_def)
  qed
qed

lemma snd_file_data [simp]: "snd (file_data E name c idx tot H) = H\<lparr>rpos := rpos H + 8\<rparr>"
  by (rule file_data_fields)

lemma talks_draw [talk]: "talks H H' \<Longrightarrow> talks H (H'\<lparr>rpos := p\<rparr>)"
  by (auto simp: talks_def settled_def bounded_def queues_grow_def)

interpretation handleFileGet: talking "handleFileGet E r msg" for E r msg
  by unfold_locales
     (auto simp: handleFileGet_def Let_def case_prod_beta talk split: option.split)

interpretation handleList: talking "handleList E r args" for E r args
  by unfold_locales (simp add: handleList_def talk)

interpretation handleRooms: talking "handleRooms E r args" for E r args
  by unfold_locales (simp add: handleRooms_def talk)

interpretation handlePrivate: talking "handlePrivate E r args" for E r args
  by unfold_locales
     (auto simp: handlePrivate_def Let_def case_prod_beta talk split: list.split option.split)

interpretation relay_private: talking "relay_private E r msg" for E r msg
  by unfold_locales
     (auto simp: relay_private_def Let_def case_prod_beta talk split: option.split)

interpretation send_ack: talking "send_ack E r msg" for E r msg
  by unfold_locales (simp add: send_ack_def Let_def case_prod_beta talk)

lemma roles_talk2 [simp]:
  "roles (handleFileGet E r msg H) = roles H" "roles (handleList E r args H) = roles H"
  "roles (handleRooms E r args H) = roles H" "roles (handlePrivate E r args H) = roles H"
  "roles (relay_private E r msg H) = roles H" "roles (send_ack E r msg H) = roles H"
  by (rule talks_roles, rule handleFileGet.talks_f handleList.talks_f handleRooms.talks_f
      handlePrivate.talks_f relay_private.talks_f send_ack.talks_f)+

lemma roles_FilePut [simp]: "roles (handleFilePut E r msg H) = roles H"
  by (simp add: handleFilePut_def Let_def split: option.split)

lemma roles_handleRoom [simp]: "roles (handleRoom E r args H) = roles H"
  by (simp add: handleRoom_def case_prod_beta)

lemma registry_lookup:
  "map_of (registerDefaults E) name =
     map_of [(''/list'', handleList E), (''/private'', handlePrivate E), (''/ann'', handleAnn E),
        (''/op'', handleOp E), (''/approve'', handleApprove E), (''/block'', handleBlock E),
        (''/blacklist'', handleBlock E), (''/kick'', handleKick E), (''/room'', handleRoom E),
        (''/rooms'', handleRooms E)] name"
  by (simp add: registerDefaults_def Register_def)

lemma roles_Handle:
  assumes "\<not> IsAdmin (objs H r)"
  shows "roles (Handle E r input H) = roles H"
  using assms
  by (auto simp: Handle_def registry_lookup handleAnn_def handleOp_def handleApprove_def
      handleBlock_def handleKick_def split: list.split)

lemma roles_dispatch:
  assumes "\<not> IsAdmin (objs H r)"
  shows "roles (dispatch E r msg H) = roles H"
  using assms by (simp add: dispatch_def Let_def handleCommand_def roles_Handle)

lemma IsAdmin_allow [simp]: "IsAdmin (snd (allowMessage now c)) = IsAdmin c"
  by (simp add: allowMessage_def Let_def)

lemma roles_process:
  assumes "\<not> IsAdmin (objs H r)"
  shows "roles (processClientMessage E r txt H) = roles H"
  using assms
  by (auto simp: processClientMessage_def Let_def case_prod_beta roles_dispatch split: option.split)

section \<open>Bounds\<close>

lemma bounded_records2 [bound]:
  "bounded G \<Longrightarrow> bounded (G\<lparr>Rooms := g\<rparr>)" "bounded G \<Longrightarrow> bounded (G\<lparr>disk := d\<rparr>)"
  "bounded G \<Longrightarrow> bounded (G\<lparr>Stats := t\<rparr>)"
  "bounded G \<Longrightarrow> bounded (upd_obj r (\<lambda>c. c\<lparr>MessageCount := f c\<rparr>) G)"
  "bounded G \<Longrightarrow> bounded (upd_obj r (\<lambda>_. snd (allowMessage now (objs G r))) G)"
  by (auto simp: bounded_def upd_obj_def allowMessage_def Let_def)

lemma handler_bounded [bound]:
  assumes "bounded H"
  shows "bounded (handleAnn E r args H)" "bounded (handleOp E r args H)"
    "bounded (handleApprove E r args H)" "bounded (handleBlock E r args H)"
    "bounded (handleKick E r args H)" "bounded (handleRoom E r args H)"
  using assms
  by (simp_all add: handleAnn_def handleOp_def handleApprove_def handleBlock_def handleKick_def
      handleRoom_def Let_def case_prod_beta bound split: option.split)

lemma Handle_bounded [bound]: "bounded H \<Longrightarrow> bounded (Handle E r input H)"
  by (auto simp: Handle_def registry_lookup bound split: list.split)

lemma FilePut_bounded [bound]: "bounded H \<Longrightarrow> bounded (handleFilePut E r msg H)"
  by (simp add: handleFilePut_def Let_def bound split: option.split)

lemma dispatch_bounded [bound]: "bounded H \<Longrightarrow> bounded (dispatch E r msg H)"
  by (simp add: dispatch_def Let_def handleCommand_def bound)

lemma process_bounded [bound]: "bounded H \<Longrightarrow> bounded (processClientMessage E r txt H)"
  by (auto simp: processClientMessage_def Let_def case_prod_beta bound split: option.split)

section \<open>A client that waits for approval\<close>

lemma process_pending:
  assumes "State (objs H r) = ''PENDING''"
  shows "processClientMessage E r txt H =
    (if open_message E (objs H r) txt = None then H
     else SendSystemMessage E r ''You are waiting for admin approval.'' H)"
  using assms by (simp add: processClientMessage_def split: option.split)

lemma SendSystemMessage_other:
  "q \<noteq> r \<Longrightarrow> SendChan (objs (SendSystemMessage E r c H) q) = SendChan (objs H q)"
  by (simp add: SendSystemMessage_alt Let_def snd_deliver SendChan_queue_to)

section \<open>The rate limit over a run\<close>

fun allow_run :: "int list \<Rightarrow> Client \<Rightarrow> nat" where
  "allow_run [] c = 0"
| "allow_run (t # ts) c =
     (let (ok, c') = allowMessage t c in (if ok then 1 else 0) + allow_run ts c')"

lemma allow_run_open:
  assumes "winStart c = Some s" and "\<forall>t \<in> set ts. t - s \<le> RateLimitWindow"
  shows "allow_run ts c = min (length ts) (nat (RateLimitMessages - winCount c))"
  using assms
proof (induction ts arbitrary: c)
  case (Cons t ts)
  then have "allowMessage t c =
      (winCount c + 1 \<le> RateLimitMessages, c\<lparr>winCount := winCount c + 1\<rparr>)"
    by (simp add: allowMessage_def Let_def)
  with Cons show ?case by auto
qed simp

lemma allow_run_interval:
  assumes "\<forall>t \<in> set ts. a \<le> t \<and> t \<le> a + RateLimitWindow" and "0 \<le> winCount c"
  shows "allow_run ts c \<le> nat (RateLimitMessages - winCount c) + nat RateLimitMessages"
  using assms
proof (induction ts arbitrary: c)
  case (Cons t ts)
  show ?case
  proof (cases "case winStart c of None \<Rightarrow> True | Some s \<Rightarrow> t - s > RateLimitWindow")
    case True
    then have A: "allowMessage t c = (True, c\<lparr>winStart := Some t, winCount := 1\<rparr>)"
      by (simp add: allowMessage_def)
    have "\<forall>u \<in> set ts. u - t \<le> RateLimitWindow" using Cons.prems(1) by fastforce
    then have "allow_run ts (c\<lparr>winStart := Some t, winCount := 1\<rparr>)
        = min (length ts) (nat (RateLimitMessages - 1))"
      using allow_run_open [of "c\<lparr>winStart := Some t, winCount := 1\<rparr>" t ts] by simp
    with A show ?thesis by (simp add: cfg)
  next
    case False
    then have "allowMessage t c =
        (winCount c + 1 \<le> RateLimitMessages, c\<lparr>winCount := winCount c + 1\<rparr>)"
      by (auto simp: allowMessage_def Let_def)
    moreover have "allow_run ts (c\<lparr>winCount := winCount c + 1\<rparr>) \<le>
        nat (RateLimitMessages - (winCount c + 1)) + nat RateLimitMessages"
      using Cons.IH [of "c\<lparr>winCount := winCount c + 1\<rparr>"] Cons.prems by simp
    ultimately show ?thesis by auto
  qed
qed simp

end
