(* ===== verification/HubServer.thy ===== *)
theory HubServer
  imports HubCommands
begin

text \<open>
  The hub's goroutines (\<^verbatim>\<open>core.go\<close>): start-up, the accept loop, the handshake of
  \<^verbatim>\<open>handleConnection\<close>, the read and write pumps, the heartbeat and the expiry of
  the message memory.
\<close>

section \<open>Start-up\<close>

definition hostname_files :: "'a hub_env_scheme \<Rightarrow> string list" where
  "hostname_files E =
     (if workdir E \<noteq> [] then [Clean (workdir E @ ''/hostname'')] else []) @
     [''hostname'', ''/var/lib/tor/conner_chat/hostname'', ''/var/lib/tor/hidden_service/hostname'',
      ''/var/lib/tor/onion/hostname'']"

definition find_tor_address :: "'a hub_env_scheme \<Rightarrow> (string \<Rightarrow> vfile option) \<Rightarrow> string" where
  "find_tor_address E d =
     (case List.find (\<lambda>p. d p \<noteq> None) (hostname_files E) of
        None \<Rightarrow> ''NOT GENERATED / HIDDEN SERVICE DISABLED''
      | Some p \<Rightarrow> TrimSpace (content (the (d p))))"

definition NewServer :: "'a hub_env_scheme \<Rightarrow> int \<Rightarrow> nat \<Rightarrow> (string \<Rightarrow> vfile option) \<Rightarrow> Hub" where
  "NewServer E now pos d =
     loadACL E
       \<lparr>objs = (\<lambda>_. empty_client), next_obj = 0, clients = [],
        DBManager = NewMemoryManager MessageHistoryLimit MessageTTL, Running = True,
        ConsoleHistory = [],
        Stats = no_stats\<lparr>StartTime := now, TorAddress := find_tor_address E d\<rparr>,
        EventLog = [], BlacklistMap = [], WhitelistMap = [], RoomKey = [], VaultToken = [],
        VaultDir = [], HTTPPort = 0, RawConns = 0, AutoApprove = False, Rooms = NewRegistry,
        Admins = [], clock = now, rpos = pos, disk = d, pending = []\<rparr>"

definition StartOn :: "'a hub_env_scheme \<Rightarrow> string \<Rightarrow> Hub \<Rightarrow> Hub" where
  "StartOn E addr H = (Log E (''Server started on '' @ addr) H)\<lparr>VaultDir := app_path E [''vault'']\<rparr>"

definition Stop :: "Hub \<Rightarrow> Hub" where
  "Stop H = H\<lparr>Running := False\<rparr>"

text \<open>One turn of the accept loop; the flag says that the connection gets a goroutine.\<close>

definition accept :: "Hub \<Rightarrow> bool \<times> Hub" where
  "accept H0 =
     (let H = H0\<lparr>Stats := (Stats H0)\<lparr>TotalConnections := TotalConnections (Stats H0) + 1\<rparr>\<rparr>
      in if RawConns H > 500 then
           (False, AddEvent u_warn
              ''DDoS GUARD: Max raw connections (500) reached. Dropping incoming.'' H)
         else (True, H\<lparr>RawConns := RawConns H + 1\<rparr>))"

section \<open>The handshake\<close>

text \<open>The hub's greeting: its key, the challenge and the frame it sends, unless a step
  fails.\<close>

definition hs_greet ::
  "'a hub_env_scheme \<Rightarrow> string \<Rightarrow> Hub \<Rightarrow> (bytes \<times> bytes \<times> bytes) option \<times> Hub" where
  "hs_greet E remoteAddr H0 =
     (let H = Log E (''Incoming connection: '' @ remoteAddr) H0;
          ((priv, pub), p1) = GenerateKeyPair E (rpos H);
          H1 = H\<lparr>rpos := p1\<rparr>
      in case pub of None \<Rightarrow> (None, H1)
         | Some pub \<Rightarrow>
             (let (nonce, p2) = GenerateRandomKey E p1;
                  H2 = H1\<lparr>rpos := p2\<rparr>
              in case pb_ke E \<lparr>ke_X25519Pub = pub, ke_Nonce = nonce,
                        ke_PowDifficulty = of_nat PoWDifficulty, ke_Version = Version\<rparr> of
                   None \<Rightarrow> (None, H2)
                 | Some keBytes \<Rightarrow>
                     (case SendFrame keBytes of
                        Inl e \<Rightarrow> (None,
                          Log E (''Handshake failed: could not send KEY_EXCHANGE to '' @ remoteAddr) H2)
                      | Inr w \<Rightarrow> (Some (priv, nonce, w), H2))))"

datatype hs_verdict = Drop | Refuse string | Pass ClientHello bytes

text \<open>What the hub checks of a hello, in its order.\<close>

definition hs_verify ::
  "'a hub_env_scheme \<Rightarrow> bytes \<Rightarrow> bytes \<Rightarrow> bytes \<Rightarrow> Hub \<Rightarrow> hs_verdict" where
  "hs_verify E priv nonce payload H =
     (case pb_hello_dec E payload of None \<Rightarrow> Refuse ''invalid hello''
      | Some hello \<Rightarrow>
          if h_X25519Pub hello = [] then Refuse ''invalid hello''
          else if \<not> CompatibleVersion (h_Version hello) Version then
            Refuse (''incompatible version: want '' @ ProtocolMajor)
          else if h_Nickname hello = [] \<or> length (h_Nickname hello) > 32 then
            Refuse ''invalid nickname''
          else if VerifyPoW E nonce (h_PowNonce hello) PoWDifficulty \<noteq> Some True then
            Refuse ''Proof of Work verification failed''
          else
            (case DeriveSharedKey E priv (h_X25519Pub hello) of None \<Rightarrow> Drop
             | Some sessionKey \<Rightarrow>
                 let nickname = h_Nickname hello;
                     pubKeyB64 = Base64Encode (h_SigningPub hello)
                 in if \<not> Verify E (h_SigningPub hello) nonce (h_Signature hello) then
                      Refuse ''bad identity signature''
                    else if \<exists>(k, v) \<in> set (WhitelistMap H). v = nickname \<and> k \<noteq> pubKeyB64 then
                      Refuse ''nickname owned by another identity''
                    else
                      (case map_of (BlacklistMap H) (h_Identity hello) of
                         Some banNick \<Rightarrow> Refuse (''banned: '' @ banNick)
                       | None \<Rightarrow>
                           if GetClientByNickname nickname H \<noteq> None then
                             Refuse ''nickname already taken''
                           else Pass hello sessionKey)))"

definition new_client :: "string \<Rightarrow> ClientHello \<Rightarrow> bytes \<Rightarrow> int \<Rightarrow> Client" where
  "new_client addr hello sessionKey now =
     empty_client\<lparr>Nickname := h_Nickname hello, Address := addr, Identity := h_Identity hello,
       JoinTime := now, EncryptionKey := sessionKey, State := ''PENDING'', LastSeen := now,
       SigningPubKey := h_SigningPub hello, E2EPubKey := h_E2EPub hello, ConnOpen := True\<rparr>"

text \<open>The client object is made and entered; the flag is \<^verbatim>\<open>isKeyWhitelisted\<close>.\<close>

definition hs_register ::
  "'a hub_env_scheme \<Rightarrow> string \<Rightarrow> ClientHello \<Rightarrow> bytes \<Rightarrow> Hub \<Rightarrow> (nat \<times> bool) \<times> Hub" where
  "hs_register E addr hello sessionKey H =
     (let pubKeyB64 = Base64Encode (h_SigningPub hello);
          r = next_obj H;
          c = new_client addr hello sessionKey (clock H);
          H1 = H\<lparr>objs := (objs H)(r := c), next_obj := Suc r\<rparr>
      in case map_of (WhitelistMap H) pubKeyB64 of
           None \<Rightarrow> ((r, False), AddClient addr r H1)
         | Some whitelistedNick \<Rightarrow>
             (let c1 = c\<lparr>Nickname := whitelistedNick, State := ''WHITELISTED''\<rparr>;
                  c2 = (if isStoredAdmin pubKeyB64 H1 then c1\<lparr>IsAdmin := True\<rparr> else c1);
                  H2 = upd_obj r (\<lambda>_. c2) H1;
                  H3 = Log E (''Auto-approved returning user: '' @ whitelistedNick) H2
              in ((r, True), AddClient addr r H3)))"

text \<open>After the OK frame: the welcome of a member, in two parts, or the notice to wait.\<close>

definition join_line :: "string \<Rightarrow> string" where
  "join_line nick = u_join @ '' '' @ nick @ '' joined the chat''"

definition welcome_member :: "'a hub_env_scheme \<Rightarrow> nat \<Rightarrow> string \<Rightarrow> Hub \<Rightarrow> Hub" where
  "welcome_member E r addr H =
     (let H1 = upd_obj r (\<lambda>c. c\<lparr>State := ''WHITELISTED''\<rparr>) H;
          H2 = SendSystemMessage E r (u_check @ '' You have been approved!'') H1;
          H3 = BroadcastUserList E H2;
          nick = Nickname (objs H3 r);
          H4 = save_history E MsgTypeJoin (join_line nick) ''SERVER'' H3
      in Log E (''Auto-approved user: '' @ nick @ '' ('' @ addr @ '')'') H4)"

definition enroll_member :: "'a hub_env_scheme \<Rightarrow> nat \<Rightarrow> Hub \<Rightarrow> Hub" where
  "enroll_member E r H =
     (let pubB = Base64Encode (SigningPubKey (objs H r)); nick = Nickname (objs H r)
      in if isStoredAdmin pubB H \<or> WhitelistedCount H = 1 then
           rememberAdmin E pubB nick
             (SendSystemMessage E r ''You have admin privileges.''
               (upd_obj r (\<lambda>c. c\<lparr>IsAdmin := True\<rparr>) H))
         else saveACL E (H\<lparr>WhitelistMap := AList.update pubB nick (WhitelistMap H)\<rparr>))"

definition hs_welcome ::
  "'a hub_env_scheme \<Rightarrow> nat \<Rightarrow> string \<Rightarrow> string \<Rightarrow> bool \<Rightarrow> Hub \<Rightarrow> Hub" where
  "hs_welcome E r addr nickname isKeyWhitelisted H =
     (if isKeyWhitelisted \<or> AutoApprove H then
        (let H1 = welcome_member E r addr H;
             H2 = BumpEpoch E (enroll_member E r H1);
             (bMsg, H3) = new_msg E MsgTypeJoin (join_line (Nickname (objs H1 r))) ''SERVER'' H2
         in BroadcastToState E ''WHITELISTED'' bMsg addr H3)
      else
        (let H1 = SendSystemMessage E r (u_wave @ '' Waiting for admin approval...'') H;
             H2 = Log E (''Pending approval: '' @ nickname @ '' ('' @ addr @ '')'') H1
         in AddEvent u_bell
              (''New connection: '' @ nickname @ '' ('' @ addr @ '') '' @ u_dash @ '' PENDING approval'') H2))"

text \<open>
  The goroutine up to its read loop, for a connection whose peer sends \<open>payload\<close> as its
  hello; \<open>up\<close> says whether the peer still takes the OK frame. The result is the client, when
  the read loop is entered, and the answer written. The \<^verbatim>\<open>%v\<close> of an I/O error is
  left out of the log line.
\<close>

definition hs_answer ::
  "'a hub_env_scheme \<Rightarrow> string \<Rightarrow> bytes \<Rightarrow> bytes \<Rightarrow> bytes option \<Rightarrow> bool \<Rightarrow> Hub \<Rightarrow>
     (nat option \<times> bytes option) \<times> Hub" where
  "hs_answer E addr priv nonce payload up H =
     (case payload of
        None \<Rightarrow> ((None, None),
          Log E (''Handshake failed: could not read CLIENT_HELLO from '' @ addr) H)
      | Some hellob \<Rightarrow>
          (case hs_verify E priv nonce hellob H of
             Drop \<Rightarrow> ((None, None), H)
           | Refuse reason \<Rightarrow> ((None, SendHandshakeErr E reason), H)
           | Pass hello sessionKey \<Rightarrow>
               (let ((r, known), H1) = hs_register E addr hello sessionKey H
                in case (if up then SendHandshakeOK E (HTTPPort H1) (known \<or> AutoApprove H1) else None) of
                     None \<Rightarrow> ((None, None), upd_obj r (\<lambda>c. c\<lparr>ConnOpen := False\<rparr>) H1)
                   | Some w \<Rightarrow>
                       ((Some r, Some w),
                        upd_obj r (\<lambda>c. c\<lparr>Pumping := True, Reading := True\<rparr>)
                          (hs_welcome E r addr (h_Nickname hello) known H1)))))"

definition close_raw :: "Hub \<Rightarrow> Hub" where
  "close_raw H = H\<lparr>RawConns := RawConns H - 1\<rparr>"

definition handleConnection ::
  "'a hub_env_scheme \<Rightarrow> string \<Rightarrow> bytes option \<Rightarrow> bool \<Rightarrow> Hub \<Rightarrow>
     (nat option \<times> bytes option) \<times> Hub" where
  "handleConnection E addr payload up H =
     (case hs_greet E addr H of
        (None, H1) \<Rightarrow> ((None, None), close_raw H1)
      | (Some (priv, nonce, _), H1) \<Rightarrow>
          (let ((r, out), H2) = hs_answer E addr priv nonce payload up H1
           in ((r, out), if r = None then close_raw H2 else H2)))"

section \<open>Pumps and timers\<close>

definition read_pump :: "'a hub_env_scheme \<Rightarrow> nat \<Rightarrow> bytes \<Rightarrow> Hub \<Rightarrow> Hub" where
  "read_pump E r payload H =
     processClientMessage E r payload (upd_obj r (\<lambda>c. c\<lparr>LastSeen := clock H\<rparr>) H)"

definition read_end :: "'a hub_env_scheme \<Rightarrow> nat \<Rightarrow> Hub \<Rightarrow> Hub" where
  "read_end E r H = close_raw (removeClient E r (upd_obj r (\<lambda>c. c\<lparr>Reading := False\<rparr>) H))"

definition write_pump :: "nat \<Rightarrow> Hub \<Rightarrow> Hub" where
  "write_pump r H =
     (let c = objs H r
      in if \<not> Pumping c then H
         else
           (case SendChan c of [] \<Rightarrow> H
            | m # ms \<Rightarrow>
                (case SendFrame m of
                   Inr w \<Rightarrow>
                     if ConnOpen c
                     then upd_obj r (\<lambda>c. c\<lparr>SendChan := ms, Written := Written c @ w\<rparr>) H
                     else upd_obj r (\<lambda>c. c\<lparr>SendChan := ms, Pumping := False\<rparr>) H
                 | Inl e \<Rightarrow> upd_obj r (\<lambda>c. c\<lparr>SendChan := ms, Pumping := False\<rparr>) H)))"

definition ping_one :: "'a hub_env_scheme \<Rightarrow> bytes \<Rightarrow> nat \<Rightarrow> Hub \<Rightarrow> Hub" where
  "ping_one E encoded r H =
     (let c = objs H r
      in if clock H - LastSeen c > 90 * second then
           upd_obj r (\<lambda>c. c\<lparr>ConnOpen := False\<rparr>)
             (Log E (''Heartbeat timeout: '' @ Nickname c @ '' ('' @ Address c @ '')'') H)
         else snd (deliver E r encoded H))"

definition heartbeat :: "'a hub_env_scheme \<Rightarrow> Hub \<Rightarrow> Hub" where
  "heartbeat E H =
     (let (pingMsg, H1) = new_msg E MsgTypePing [] ''SERVER'' H
      in fold (ping_one E (nil_or (Encode E pingMsg))) (GetAllClients H1) H1)"

definition expire_messages :: "'a hub_env_scheme \<Rightarrow> Hub \<Rightarrow> Hub" where
  "expire_messages E H =
     (let (count, m) = CleanupOldMessages (clock H) (DBManager H);
          H1 = H\<lparr>DBManager := m\<rparr>
      in if count > 0
         then Log E (''TTL: Purged '' @ dec count @ '' expired messages'') H1 else H1)"

end
