(* ===== verification/Invite.thy ===== *)
theory Invite
  imports Config GoStrings GoEncoding
begin

text \<open>
  \<^verbatim>\<open>internal/invite/invite.go\<close>: join tickets. The JSON form of a ticket is an
  argument (\<open>je\<close> marshals, \<open>jd\<close> unmarshals).
\<close>

record Blob =
  b_V :: int
  b_Onion :: string
  b_Host :: string
  b_Port :: string
  b_Room :: string
  b_FP :: string
  b_Tor :: bool
  b_PT :: string

definition empty_blob :: Blob where
  "empty_blob =
     \<lparr>b_V = 0, b_Onion = [], b_Host = [], b_Port = [], b_Room = [], b_FP = [], b_Tor = False,
      b_PT = []\<rparr>"

datatype invite_error = BadBase64 | BadJSON | Unrecognized string

definition scheme :: string where
  "scheme = ''conner://v1/''"

definition EncodeInvite :: "(Blob \<Rightarrow> bytes) \<Rightarrow> Blob \<Rightarrow> string" where
  "EncodeInvite je b = scheme @ RawURLEncode (je (b\<lparr>b_V := 1\<rparr>))"

definition DecodeInvite :: "(bytes \<Rightarrow> Blob option) \<Rightarrow> string \<Rightarrow> invite_error + Blob" where
  "DecodeInvite jd s0 =
     (let s = TrimSpace s0
      in if HasPrefix s scheme then
           (case RawURLDecode (TrimPrefix s scheme) of
              None \<Rightarrow> Inl BadBase64
            | Some raw \<Rightarrow> (case jd raw of None \<Rightarrow> Inl BadJSON | Some b \<Rightarrow> Inr b))
         else if Contains s ''.onion'' then
           (let (host, port) =
                  (case Cut s (CHR '':'') of (h, p, ok) \<Rightarrow> if ok then (h, p) else (s, ''6666''))
            in Inr (empty_blob\<lparr>b_V := 1, b_Onion := host, b_Port := port, b_Tor := True,
                      b_Room := ''general''\<rparr>))
         else if Contains s '':'' then
           (case Cut s (CHR '':'') of (h, p, _) \<Rightarrow>
              Inr (empty_blob\<lparr>b_V := 1, b_Host := h, b_Port := p, b_Tor := False,
                     b_Room := ''general''\<rparr>))
         else Inl (Unrecognized s))"

definition DialAddr :: "Blob \<Rightarrow> string" where
  "DialAddr b =
     (let port = (if b_Port b = [] then ''6666'' else b_Port b)
      in if b_Tor b \<or> b_Onion b \<noteq> [] then
           (let host = (if b_Onion b = [] then b_Host b else b_Onion b) in host @ '':'' @ port)
         else b_Host b @ '':'' @ port)"

section \<open>Trimming printable strings\<close>

definition printable :: "char \<Rightarrow> bool" where
  "printable c \<longleftrightarrow> 0x21 \<le> code c \<and> code c \<le> 0x7E"

lemma find_none: "\<forall>w \<in> set ws. \<not> Q w \<Longrightarrow> List.find Q ws = None"
  by (simp add: find_None_iff)

lemma no_space_rune:
  assumes "printable c" and "w \<in> set space_runes \<union> set (map rev space_runes)"
  shows "\<not> HasPrefix (c # s) w"
proof
  assume p: "HasPrefix (c # s) w"
  have "\<forall>w \<in> set space_runes \<union> set (map rev space_runes). w \<noteq> [] \<and> \<not> printable (hd w)"
    by (simp add: space_runes_def printable_def)
  from bspec [OF this assms(2)] have w: "w \<noteq> []" "\<not> printable (hd w)" by simp_all
  from w(1) p have "hd w = c" by (cases w) (simp_all add: HasPrefix_def)
  with w(2) assms(1) show False by simp
qed

lemma lead_len_printable:
  assumes "printable c"
  shows "lead_len space_runes (c # s) = 0" and "lead_len (map rev space_runes) (c # s) = 0"
proof -
  have "List.find (\<lambda>w. HasPrefix (c # s) w) space_runes = None"
    "List.find (\<lambda>w. HasPrefix (c # s) w) (map rev space_runes) = None"
    by (intro find_none ballI, rule no_space_rune [OF assms], simp)+
  then show "lead_len space_runes (c # s) = 0" "lead_len (map rev space_runes) (c # s) = 0"
    by (simp_all add: lead_len_def)
qed

lemma TrimSpace_printable:
  assumes "s \<noteq> []" and "printable (hd s)" and "printable (last s)"
  shows "TrimSpace s = s"
proof -
  obtain c t where s: "s = c # t" using assms(1) by (cases s) auto
  obtain d u where r: "rev s = d # u" using assms(1) by (cases "rev s") auto
  then have d: "d = last s" by (metis hd_rev list.sel(1))
  have "strip_lead space_runes s = s"
    using assms(2) by (simp add: s strip_lead.simps lead_len_printable)
  moreover have "strip_lead (map rev space_runes) (rev s) = rev s"
    using assms(3) unfolding r d by (simp add: strip_lead.simps lead_len_printable)
  ultimately show ?thesis by (simp add: TrimSpace_def)
qed

lemma url_printable: "c \<in> set url_alphabet \<Longrightarrow> printable c"
  by (auto simp: url_alphabet_def printable_def)

lemma scheme_printable: "printable (hd scheme)" "printable (last scheme)" "scheme \<noteq> []"
  by (simp_all add: scheme_def printable_def)

lemma RawURLEncode_alphabet: "set (RawURLEncode bs) \<subseteq> set url_alphabet"
proof
  fix x assume "x \<in> set (RawURLEncode bs)"
  then obtain k where k: "k \<in> set (sextets (map code bs))" "x = url_alphabet ! k"
    by (auto simp: RawURLEncode_def)
  have "k < length url_alphabet"
    using sextet_codes k(1) by (auto simp: alphabets)
  then show "x \<in> set url_alphabet" unfolding k(2) by (rule nth_mem)
qed

lemma TrimSpace_invite: "TrimSpace (EncodeInvite je b) = EncodeInvite je b"
proof (rule TrimSpace_printable)
  let ?e = "RawURLEncode (je (b\<lparr>b_V := 1\<rparr>))"
  show "printable (last (EncodeInvite je b))"
  proof (cases "?e = []")
    case True
    then show ?thesis using scheme_printable by (simp add: EncodeInvite_def)
  next
    case False
    then have "last ?e \<in> set url_alphabet"
      using RawURLEncode_alphabet last_in_set by blast
    with False show ?thesis by (simp add: EncodeInvite_def url_printable)
  qed
  show "EncodeInvite je b \<noteq> []" "printable (hd (EncodeInvite je b))"
    using scheme_printable by (simp_all add: EncodeInvite_def)
qed

text \<open>A ticket decodes, with any code that reads the JSON it writes, to the same ticket
  (version 1).\<close>

lemma DecodeInvite_EncodeInvite:
  assumes "jd (je (b\<lparr>b_V := 1\<rparr>)) = Some (b\<lparr>b_V := 1\<rparr>)"
  shows "DecodeInvite jd (EncodeInvite je b) = Inr (b\<lparr>b_V := 1\<rparr>)"
  using assms
  by (simp add: DecodeInvite_def TrimSpace_invite Let_def)
     (simp add: EncodeInvite_def RawURL_roundtrip)

lemma Cut_at: "c \<notin> set a \<Longrightarrow> Cut (a @ c # b) c = (a, b, True)"
proof -
  assume "c \<notin> set a"
  then have "takeWhile (\<lambda>x. x \<noteq> c) (a @ c # b) = a" "dropWhile (\<lambda>x. x \<noteq> c) (a @ c # b) = c # b"
    by (induction a) auto
  then show ?thesis by (simp add: Cut_def)
qed

lemma Contains_char: "Contains s [c] \<longleftrightarrow> c \<in> set s"
  by (induction s) (auto simp: HasPrefix_def)

end
