(* ===== verification/Terminal.thy ===== *)
theory Terminal
  imports GoStrings Glyphs
begin

text \<open>
  What the two screens draw with: runes and padding (\<^verbatim>\<open>utf8\<close>,
  \<^verbatim>\<open>fmt\<close>), the text a clipboard may carry (\<^verbatim>\<open>internal/clipx\<close>), and
  the terminal library as a parameter. A style is the list of the attributes the code gives
  it; what the library makes of a style, a position or a widget is a field of
  \<open>terminal\<close>.
\<close>

section \<open>Runes\<close>

text \<open>The length of the first rune's encoding; a byte that starts no valid encoding is a rune of
  its own.\<close>

definition is_cont :: "char \<Rightarrow> bool" where
  "is_cont c \<longleftrightarrow> 0x80 \<le> code c \<and> code c \<le> 0xBF"

fun second_ok :: "nat \<Rightarrow> char \<Rightarrow> bool" where
  "second_ok b c =
     (if b = 0xE0 then 0xA0 \<le> code c \<and> code c \<le> 0xBF
      else if b = 0xED then 0x80 \<le> code c \<and> code c \<le> 0x9F
      else if b = 0xF0 then 0x90 \<le> code c \<and> code c \<le> 0xBF
      else if b = 0xF4 then 0x80 \<le> code c \<and> code c \<le> 0x8F
      else is_cont c)"

definition rune_len :: "string \<Rightarrow> nat" where
  "rune_len s =
     (case s of
        [] \<Rightarrow> 0
      | c # s1 \<Rightarrow>
          (let b = code c;
               need = (if 0xC2 \<le> b \<and> b \<le> 0xDF then 1 else if 0xE0 \<le> b \<and> b \<le> 0xEF then 2
                       else if 0xF0 \<le> b \<and> b \<le> 0xF4 then 3 else 0)
           in if 0 < need \<and> need \<le> length s1 \<and> second_ok b (hd s1) \<and> list_all is_cont (take need s1)
              then Suc need else 1))"

definition rune_valid :: "string \<Rightarrow> bool" where
  "rune_valid r \<longleftrightarrow> length r > 1 \<or> (\<forall>c \<in> set r. code c < 0x80)"

lemma rune_len_pos: "s \<noteq> [] \<Longrightarrow> 0 < rune_len s"
  by (cases s) (simp_all add: rune_len_def Let_def)

function runes :: "string \<Rightarrow> string list" where
  "runes s = (if s = [] then [] else take (rune_len s) s # runes (drop (rune_len s) s))"
  by pat_completeness auto
termination
  by (relation "measure length") (auto simp: rune_len_pos)

declare runes.simps [simp del]

definition RuneCount :: "string \<Rightarrow> nat" where
  "RuneCount s = length (runes s)"

lemma runes_Nil [simp]: "runes [] = []"
  by (simp add: runes.simps)

lemma runes_ascii: "(\<forall>c \<in> set s. code c < 0x80) \<Longrightarrow> runes s = map (\<lambda>c. [c]) s"
proof (induction s)
  case (Cons c s)
  have "rune_len (c # s) = 1" using Cons.prems by (simp add: rune_len_def Let_def)
  then show ?case using Cons by (subst runes.simps) simp
qed simp

lemma RuneCount_ascii: "(\<forall>c \<in> set s. code c < 0x80) \<Longrightarrow> RuneCount s = length s"
  by (simp add: RuneCount_def runes_ascii)

lemma concat_runes: "concat (runes s) = s"
proof (induction s rule: runes.induct)
  case (1 s)
  then show ?case by (cases "s = []") (simp_all add: runes.simps [of s])
qed

text \<open>\<^verbatim>\<open>%-ns\<close> pads on the right, counting runes.\<close>

definition pad :: "nat \<Rightarrow> string \<Rightarrow> string" where
  "pad n s = s @ replicate (n - RuneCount s) (CHR '' '')"

section \<open>The clipboard\<close>

definition MaxRunes :: nat where
  "MaxRunes = 32 * 1024"

text \<open>A rune that is not valid is written as the replacement character.\<close>

definition u_replacement :: string where
  "u_replacement = map byte [0xEF, 0xBF, 0xBD]"

definition Sanitize :: "string \<Rightarrow> string" where
  "Sanitize s0 =
     (let s = filter (\<lambda>c. c \<noteq> byte 0) s0
      in if RuneCount s > MaxRunes
         then concat (map (\<lambda>r. if rune_valid r then r else u_replacement) (take MaxRunes (runes s)))
         else s)"

lemma Sanitize_no_nul: "byte 0 \<notin> set (Sanitize s)"
proof -
  let ?s = "filter (\<lambda>c. c \<noteq> byte 0) s"
  have "byte 0 \<notin> set (concat (runes ?s))" by (simp add: concat_runes)
  then have "\<forall>r \<in> set (runes ?s). byte 0 \<notin> set r" by auto
  then have "\<forall>r \<in> set (take MaxRunes (runes ?s)). byte 0 \<notin> set r" by (auto dest: in_set_takeD)
  then show ?thesis
    by (auto simp: Sanitize_def Let_def u_replacement_def)
qed

lemma Sanitize_short: "byte 0 \<notin> set s \<Longrightarrow> RuneCount s \<le> MaxRunes \<Longrightarrow> Sanitize s = s"
proof -
  assume "byte 0 \<notin> set s" "RuneCount s \<le> MaxRunes"
  moreover from this have "filter (\<lambda>c. c \<noteq> byte 0) s = s" by (auto simp: filter_id_conv)
  ultimately show ?thesis by (simp add: Sanitize_def)
qed

text \<open>
  What the machine offers: the clipboard library (whether it takes a text, what it holds), the
  programs on the path, whether a program takes a text on its standard input, and what one prints.
\<close>

record clipboard =
  lib_write :: "string \<Rightarrow> bool"
  lib_read :: "string option"
  on_path :: "string \<Rightarrow> bool"
  takes :: "string list \<Rightarrow> string \<Rightarrow> bool"
  prints :: "string list \<Rightarrow> string option"

text \<open>The flag is \<^verbatim>\<open>err == nil\<close>.\<close>

definition writeFallback :: "clipboard \<Rightarrow> string \<Rightarrow> bool" where
  "writeFallback C s \<longleftrightarrow>
     list_ex (\<lambda>name. on_path C name \<and> takes C [name] s) [''wl-copy'', ''pbcopy''] \<or>
     (on_path C ''xclip'' \<and> takes C [''xclip'', ''-selection'', ''clipboard''] s)"

definition ClipWrite :: "clipboard \<Rightarrow> string \<Rightarrow> bool" where
  "ClipWrite C s0 = (let s = Sanitize s0 in lib_write C s \<or> writeFallback C s)"

text \<open>The first program that is there and answers.\<close>

fun first_output :: "clipboard \<Rightarrow> string list list \<Rightarrow> string option" where
  "first_output C [] = None"
| "first_output C (cmd # cmds) =
     (case (if on_path C (hd cmd) then prints C cmd else None) of
        None \<Rightarrow> first_output C cmds
      | Some out \<Rightarrow> Some (Sanitize out))"

definition readFallback :: "clipboard \<Rightarrow> string option" where
  "readFallback C = first_output C [[''wl-paste''], [''pbpaste''], [''xclip'', ''-selection'', ''clipboard'', ''-o'']]"

definition ClipRead :: "clipboard \<Rightarrow> string option" where
  "ClipRead C = (case lib_read C of Some s \<Rightarrow> Some (Sanitize s) | None \<Rightarrow> readFallback C)"

text \<open>Whatever the source, what is pasted carries no zero byte.\<close>

lemma ClipRead_no_nul: "ClipRead C = Some s \<Longrightarrow> byte 0 \<notin> set s"
proof -
  have out: "first_output C cmds = Some s \<Longrightarrow> byte 0 \<notin> set s" for cmds
    by (induction cmds) (auto simp: Sanitize_no_nul split: option.splits if_splits)
  assume "ClipRead C = Some s"
  then show ?thesis
    using out by (auto simp: ClipRead_def readFallback_def Sanitize_no_nul split: option.splits simp del: first_output.simps)
qed

section \<open>The terminal\<close>

datatype attr =
  Foreground string
| Background string
| Bold
| Italic
| Underline
| Border string
| LeftBorder string
| BorderBottom
| BorderLeft
| BorderStyle string
| BorderForeground string
| Padding nat nat
| PaddingLeft nat
| MarginBottom nat
| MarginRight nat
| Width int
| Height int
| AlignRight

type_synonym style = "attr list"

text \<open>
  \<open>draw\<close> renders a text in a style, \<open>centred\<close> places a box in the middle of a screen,
  \<open>beside\<close> joins blocks at their tops, \<open>pane\<close> is what a viewport of a width and a height
  shows of its content at its scroll position, \<open>field\<close> is an input of a width.
\<close>

record terminal =
  draw :: "style \<Rightarrow> string \<Rightarrow> string"
  centred :: "int \<Rightarrow> int \<Rightarrow> string \<Rightarrow> string"
  beside :: "string list \<Rightarrow> string"
  pane :: "int \<Rightarrow> int \<Rightarrow> string \<Rightarrow> string"
  field :: "int \<Rightarrow> string \<Rightarrow> string"

definition u_hline :: string where
  "u_hline = map byte [0xE2, 0x94, 0x80]"

definition rule :: "nat \<Rightarrow> string" where
  "rule n = concat (replicate n u_hline)"

end
