(* ===== verification/VaultUi.thy ===== *)
theory VaultUi
  imports Host Glyphs
begin

text \<open>
  \<^verbatim>\<open>internal/vaultui/list.go\<close>: listings of a directory for the two screens. What the
  operating system lists is an argument; files of the same time keep its order (Go leaves it
  open).
\<close>

record Entry =
  en_name :: string
  en_size :: int
  en_mod :: int
  en_dir :: bool

definition ListEntries :: "Entry list \<Rightarrow> Entry list" where
  "ListEntries ents = sort_key (\<lambda>e. - en_mod e) ents"

text \<open>\<^verbatim>\<open>%.1f\<close> of a quotient by a power of two, which a float64 holds exactly: tenths,
  rounded half to even.\<close>

definition tenths :: "nat \<Rightarrow> nat \<Rightarrow> nat" where
  "tenths n d =
     (let q = 10 * n div d; r = 10 * n mod d
      in if 2 * r > d \<or> (2 * r = d \<and> odd q) then Suc q else q)"

definition fixed1 :: "nat \<Rightarrow> nat \<Rightarrow> string" where
  "fixed1 n d = (let t = tenths n d in dec (t div 10) @ ''.'' @ dec (t mod 10))"

definition FormatSize :: "int \<Rightarrow> string" where
  "FormatSize n =
     (if n < 0 then CHR ''-'' # dec (nat (- n)) @ '' B''
      else if n < 1024 then dec (nat n) @ '' B''
      else if n < 1024 * 1024 then fixed1 (nat n) 1024 @ '' KiB''
      else fixed1 (nat n) (1024 * 1024) @ '' MiB'')"

definition int64 :: "int \<Rightarrow> int" where
  "int64 x = sint (word_of_int x :: 64 word)"

definition TotalBytes :: "Entry list \<Rightarrow> int" where
  "TotalBytes ents = foldl (\<lambda>n e. int64 (n + en_size e)) 0 ents"

definition u_ellipsis :: string where
  "u_ellipsis = map byte [0xE2, 0x80, 0xA6]"

text \<open>\<open>stamp\<close> is the formatted time; lengths are in bytes, as \<^verbatim>\<open>len\<close> counts.\<close>

definition Line :: "string \<Rightarrow> Entry \<Rightarrow> bool \<Rightarrow> int \<Rightarrow> string" where
  "Line stamp e selected width =
     (let mark = (if selected then ''> '' else ''  '');
          kind = (if en_dir e then ''dir '' else ''file'');
          size = FormatSize (en_size e);
          meta = kind @ ''  '' @ replicate (8 - length size) (CHR '' '') @ size @ ''  '' @ stamp;
          keep0 = width - int (length meta) - 7;
          keep = (if keep0 < 8 then 8 else keep0);
          name = (if width > 28 \<and> int (length (en_name e) + length meta + 4) > width \<and>
                     int (length (en_name e)) > keep
                  then take (nat keep - 1) (en_name e) @ u_ellipsis else en_name e)
      in mark @ name @ '' '' @ meta)"

definition SafeJoin :: "string \<Rightarrow> string \<Rightarrow> string" where
  "SafeJoin dir name = JoinPath [dir, Base name]"

section \<open>Completion\<close>

text \<open>Both screens complete the word before the cursor and rotate through the matches.\<close>

definition next_match :: "(string \<Rightarrow> bool) \<Rightarrow> string list \<Rightarrow> string option" where
  "next_match same matches =
     (if matches = [] then None
      else
        (let i = length (takeWhile (\<lambda>m. \<not> same m) matches)
         in if i < length matches then Some (matches ! (Suc i mod length matches))
            else Some (hd matches)))"

lemma next_match_in: "next_match same matches = Some m \<Longrightarrow> m \<in> set matches"
  by (auto simp: next_match_def Let_def split: if_splits)

end
