(* ===== verification/Floats.thy ===== *)
theory Floats
  imports Complex_Main GoStrings
begin

text \<open>
  The \<^verbatim>\<open>float64\<close> arithmetic of the system monitor. A non-negative float is the rational
  it stands for; an operation is the exact one followed by rounding to 53 significant bits, half to
  even. None of the program's figures comes near the ends of the range of exponents, so overflow and
  denormal numbers are left out; load averages have no sign.
\<close>

type_synonym f64 = rat

section \<open>Rounding\<close>

definition half_even :: "rat \<Rightarrow> int" where
  "half_even x =
     (let f = \<lfloor>x\<rfloor>; r = x - of_int f in if r > 1 / 2 \<or> (r = 1 / 2 \<and> odd f) then f + 1 else f)"

fun bits :: "nat \<Rightarrow> nat" where
  "bits n = (if n = 0 then 0 else Suc (bits (n div 2)))"

declare bits.simps [simp del]

definition scale2 :: "rat \<Rightarrow> int \<Rightarrow> rat" where
  "scale2 x k = x * 2 powi k"

text \<open>The power of two that brings a number between the 52nd and the 53rd.\<close>

definition exponent :: "rat \<Rightarrow> int" where
  "exponent x =
     (let (n, d) = quotient_of x; k = 53 - int (bits (nat n)) + int (bits (nat d))
      in if scale2 x k \<ge> 2 ^ 53 then k - 1 else k)"

definition rnd64 :: "rat \<Rightarrow> f64" where
  "rnd64 x = (if x \<le> 0 then 0 else let k = exponent x in scale2 (of_int (half_even (scale2 x k))) (- k))"

definition f_of :: "nat \<Rightarrow> f64" where
  "f_of n = rnd64 (of_nat n)"

definition f_mul :: "f64 \<Rightarrow> f64 \<Rightarrow> f64" where
  "f_mul x y = rnd64 (x * y)"

definition f_div :: "f64 \<Rightarrow> f64 \<Rightarrow> f64" where
  "f_div x y = rnd64 (x / y)"

text \<open>\<^verbatim>\<open>math.Round\<close> of a non-negative float, and its integer part.\<close>

definition Round :: "f64 \<Rightarrow> f64" where
  "Round x = of_int \<lfloor>x + 1 / 2\<rfloor>"

definition trunc :: "f64 \<Rightarrow> int" where
  "trunc x = \<lfloor>x\<rfloor>"

section \<open>Reading and printing\<close>

fun digits_val :: "nat \<Rightarrow> string \<Rightarrow> nat option" where
  "digits_val n [] = Some n"
| "digits_val n (c # s) = (if 48 \<le> code c \<and> code c \<le> 57 then digits_val (10 * n + (code c - 48)) s else None)"

text \<open>\<^verbatim>\<open>strconv.ParseFloat\<close> with its error dropped, on decimal numbers, the form of the file
  it reads; the other forms Go takes (signs, exponents, hexadecimals) do not occur there and count as
  errors.\<close>

definition ParseFloat :: "string \<Rightarrow> f64" where
  "ParseFloat s =
     (let (a, b, found) = Cut s (CHR ''.'')
      in if a @ b = [] then 0
         else case digits_val 0 (a @ b) of None \<Rightarrow> 0
              | Some n \<Rightarrow> rnd64 (of_nat n / 10 ^ (if found then length b else 0)))"

text \<open>\<^verbatim>\<open>%.nf\<close> for one and two places: the value of the float, exactly, rounded half to
  even.\<close>

definition show_f1 :: "f64 \<Rightarrow> string" where
  "show_f1 x = (let t = nat (half_even (x * 10)) in dec (t div 10) @ ''.'' @ dec (t mod 10))"

definition show_f2 :: "f64 \<Rightarrow> string" where
  "show_f2 x =
     (let h = nat (half_even (x * 100)); c = h mod 100
      in dec (h div 100) @ ''.'' @ (if c < 10 then ''0'' else []) @ dec c)"

section \<open>What holds of them\<close>

text \<open>A rounded number is off by at most half a unit in its 53rd place.\<close>

lemma half_even_near: "\<bar>of_int (half_even x) - x\<bar> \<le> 1 / 2"
proof -
  have "of_int \<lfloor>x\<rfloor> \<le> x" "x < of_int \<lfloor>x\<rfloor> + 1" by linarith+
  then show ?thesis by (auto simp: half_even_def Let_def abs_le_iff)
qed

lemma half_even_nonneg: "0 \<le> x \<Longrightarrow> 0 \<le> half_even x"
  using floor_mono [of 0 x] by (auto simp: half_even_def Let_def)

lemma scale2_nonneg: "0 \<le> x \<Longrightarrow> 0 \<le> scale2 x k"
  by (simp add: scale2_def)

lemma rnd64_nonneg: "0 \<le> rnd64 x"
  by (auto simp: rnd64_def Let_def intro!: scale2_nonneg half_even_nonneg)

lemma scale2_scale2: "scale2 (scale2 x k) j = scale2 x (k + j)"
  by (simp add: scale2_def power_int_add)

lemma scale2_0 [simp]: "scale2 x 0 = x"
  by (simp add: scale2_def)

lemma scale2_mono: "x \<le> y \<Longrightarrow> scale2 x k \<le> scale2 y k"
  by (simp add: scale2_def mult_right_mono)

lemma bits_bounds: "0 < n \<Longrightarrow> 2 ^ bits n \<le> 2 * n \<and> n < 2 ^ bits n"
proof (induction n rule: bits.induct)
  case (1 n)
  have step: "bits n = Suc (bits (n div 2))" using 1(2) by (simp add: bits.simps)
  show ?case
  proof (cases "n div 2 = 0")
    case True
    then have "n = 1" using 1(2) by linarith
    then show ?thesis by (simp add: bits.simps)
  next
    case False
    then have "2 ^ bits (n div 2) \<le> 2 * (n div 2) \<and> n div 2 < 2 ^ bits (n div 2)" using 1 by simp
    then show ?thesis unfolding step power_Suc by linarith
  qed
qed

lemma scale2_exponent:
  assumes "0 < x"
  shows "2 ^ 52 \<le> scale2 x (exponent x)"
proof -
  obtain n d where q: "quotient_of x = (n, d)" by (cases "quotient_of x")
  have d: "0 < d" by (rule quotient_of_denom_pos [OF q])
  have x: "x = of_int n / of_int d" by (rule quotient_of_div [OF q])
  with assms d have n: "0 < n" by (simp add: zero_less_divide_iff)
  let ?b = "bits (nat n)" and ?c = "bits (nat d)"
  let ?k = "53 - int ?b + int ?c"
  have nb: "2 ^ ?b \<le> 2 * (rat_of_int n)"
  proof -
    have "2 ^ ?b \<le> 2 * nat n" using bits_bounds n by simp
    then have "rat_of_nat (2 ^ ?b) \<le> rat_of_nat (2 * nat n)" by (rule of_nat_mono)
    then show ?thesis using n by simp
  qed
  have dc: "rat_of_int d \<le> 2 ^ ?c"
  proof -
    have "nat d \<le> 2 ^ ?c" using bits_bounds [of "nat d"] d by simp
    then have "rat_of_nat (nat d) \<le> rat_of_nat (2 ^ ?c)" by (rule of_nat_mono)
    then show ?thesis using d by simp
  qed
  have "2 ^ 52 * rat_of_int d * 2 ^ ?b \<le> 2 ^ 52 * 2 ^ ?c * (2 * rat_of_int n)"
    using nb dc d n by (intro mult_mono) auto
  then have "2 ^ 52 \<le> rat_of_int n / rat_of_int d * (2 ^ 53 * 2 ^ ?c / 2 ^ ?b)"
    using d by (simp add: field_simps)
  moreover have "(2 powi ?k :: rat) = 2 ^ 53 * 2 ^ ?c / 2 ^ ?b"
    by (simp add: power_int_add power_int_diff)
  ultimately have big: "2 ^ 52 \<le> scale2 x ?k" by (simp add: scale2_def x)
  have "2 ^ 52 \<le> scale2 x (?k - 1)" if "2 ^ 53 \<le> scale2 x ?k"
  proof -
    have "scale2 x (?k - 1) = scale2 (scale2 x ?k) (- 1)" by (simp add: scale2_scale2)
    also have "\<dots> = scale2 x ?k / 2" by (simp add: scale2_def power_int_minus)
    finally show ?thesis using that by simp
  qed
  then show ?thesis using big by (auto simp: exponent_def q Let_def)
qed

lemma rnd64_near:
  assumes "0 < x"
  shows "\<bar>rnd64 x - x\<bar> \<le> x / 2 ^ 53"
proof -
  note x = assms
  let ?k = "exponent x"
  let ?y = "scale2 x ?k"
  have same: "x = scale2 ?y (- ?k)" by (simp add: scale2_scale2)
  have "rnd64 x - x = scale2 (of_int (half_even ?y)) (- ?k) - scale2 ?y (- ?k)"
    using x same by (simp add: rnd64_def Let_def)
  also have "\<dots> = scale2 (of_int (half_even ?y) - ?y) (- ?k)" by (simp add: scale2_def left_diff_distrib)
  finally have "\<bar>rnd64 x - x\<bar> = scale2 \<bar>of_int (half_even ?y) - ?y\<bar> (- ?k)" by (simp add: scale2_def abs_mult)
  also have "\<dots> \<le> scale2 (?y / 2 ^ 53) (- ?k)"
  proof (rule scale2_mono)
    have "1 / 2 \<le> ?y / 2 ^ 53" using scale2_exponent [OF x] by simp
    then show "\<bar>of_int (half_even ?y) - ?y\<bar> \<le> ?y / 2 ^ 53" using half_even_near by (rule order_trans [rotated])
  qed
  also have "\<dots> = x / 2 ^ 53" using same by (simp add: scale2_def)
  finally show ?thesis .
qed

end
