(* ===== verification/Sysmon.thy ===== *)
theory Sysmon
  imports Terminal Floats "HOL-Library.Word"
begin

text \<open>
  \<^verbatim>\<open>internal/server/sysmon\<close>: what the panel's System tab reads from \<^verbatim>\<open>/proc\<close>.
  The files are an argument; the figures with a point are the floats of theory \<open>Floats\<close>.
\<close>

section \<open>Reading\<close>

text \<open>\<^verbatim>\<open>bufio.Scanner\<close>: lines without their line end; a line that does not fit into the
  buffer of 64 KiB ends the scan, and what follows the last line end counts if it is not
  empty.\<close>

definition drop_cr :: "string \<Rightarrow> string" where
  "drop_cr l = (if l \<noteq> [] \<and> last l = byte 13 then butlast l else l)"

definition scan_lines :: "string \<Rightarrow> string list" where
  "scan_lines s =
     (let ls = Split s newline; ls1 = (if last ls = [] then butlast ls else ls)
      in map drop_cr (takeWhile (\<lambda>l. length l < 65536) ls1))"

text \<open>\<^verbatim>\<open>strconv.ParseUint(s, 10, 64)\<close> with its error dropped: 0 for what is no number,
  the largest value for what does not fit.\<close>

fun uint_go :: "nat \<Rightarrow> string \<Rightarrow> nat" where
  "uint_go n [] = n"
| "uint_go n (c # s) =
     (if code c < 48 \<or> 57 < code c then 0
      else let n1 = 10 * n + (code c - 48) in if n1 \<ge> 2 ^ 64 then 2 ^ 64 - 1 else uint_go n1 s)"

definition ParseUint :: "string \<Rightarrow> 64 word" where
  "ParseUint s = of_nat (uint_go 0 s)"

text \<open>Whether \<^verbatim>\<open>strconv.Atoi\<close> takes a string.\<close>

definition atoi_ok :: "string \<Rightarrow> bool" where
  "atoi_ok s =
     (let neg = HasPrefix s ''-'';
          ds = (if neg \<or> HasPrefix s ''+'' then tl s else s)
      in ds \<noteq> [] \<and> list_all (\<lambda>c. 48 \<le> code c \<and> code c \<le> 57) ds \<and>
         foldl (\<lambda>n c. 10 * n + (code c - 48)) 0 ds < (if neg then 2 ^ 63 + 1 else 2 ^ 63))"

section \<open>Metrics\<close>

record mem_info =
  MemTotalKB :: "64 word"
  MemAvailableKB :: "64 word"
  MemCachedKB :: "64 word"
  SwapTotalKB :: "64 word"
  SwapFreeKB :: "64 word"

definition no_mem :: mem_info where
  "no_mem = \<lparr>MemTotalKB = 0, MemAvailableKB = 0, MemCachedKB = 0, SwapTotalKB = 0, SwapFreeKB = 0\<rparr>"

definition mem_line :: "string \<Rightarrow> mem_info \<Rightarrow> mem_info" where
  "mem_line line m =
     (case Fields line of
        k # v # _ \<Rightarrow>
          (let val = ParseUint v
           in if k = ''MemTotal:'' then m\<lparr>MemTotalKB := val\<rparr>
              else if k = ''MemAvailable:'' then m\<lparr>MemAvailableKB := val\<rparr>
              else if k = ''Cached:'' then m\<lparr>MemCachedKB := val\<rparr>
              else if k = ''SwapTotal:'' then m\<lparr>SwapTotalKB := val\<rparr>
              else if k = ''SwapFree:'' then m\<lparr>SwapFreeKB := val\<rparr>
              else m)
      | _ \<Rightarrow> m)"

definition parse_mem :: "string \<Rightarrow> mem_info" where
  "parse_mem txt = fold mem_line (scan_lines txt) no_mem"

text \<open>Unsigned subtraction: it wraps when more is available than there is.\<close>

definition mem_used :: "mem_info \<Rightarrow> 64 word" where
  "mem_used m = (if MemTotalKB m > 0 then MemTotalKB m - MemAvailableKB m else 0)"

definition iface_of :: "string \<Rightarrow> string option" where
  "iface_of raw =
     (let line = TrimSpace raw; (name0, rest, found) = Cut line (CHR '':''); name = TrimSpace name0
      in if \<not> found \<or> name = ''lo'' \<or> length (Fields rest) < 9 then None else Some name)"

definition net_ifaces :: "string \<Rightarrow> string list" where
  "net_ifaces txt = List.map_filter iface_of (drop 2 (scan_lines txt))"

definition tcp_state :: "string \<Rightarrow> string option" where
  "tcp_state line = (let fs = Fields line in if length fs < 4 then None else Some (fs ! 3))"

definition tcp_count :: "string \<Rightarrow> string \<Rightarrow> nat" where
  "tcp_count st txt = length (filter (\<lambda>l. tcp_state l = Some st) (drop 1 (scan_lines txt)))"

record sys_env =
  proc_read :: "string \<Rightarrow> string option"
  proc_dir :: "(string \<times> bool) list option"
  sys_hostname :: "string option"
  sys_os :: string
  sys_arch :: string
  sys_goversion :: string
  sys_cpus :: nat
  sys_goroutines :: nat
  sys_gcs :: "32 word"
  sys_alloc :: "64 word"
  sys_reserved :: "64 word"
  sys_time :: int

definition proc_is :: "sys_env \<Rightarrow> string \<Rightarrow> string \<times> bool \<Rightarrow> bool" where
  "proc_is Y name e \<longleftrightarrow>
     snd e \<and> atoi_ok (fst e) \<and>
     (case proc_read Y (''/proc/'' @ fst e @ ''/comm'') of None \<Rightarrow> False | Some txt \<Rightarrow> TrimSpace txt = name)"

definition procRunning :: "sys_env \<Rightarrow> string \<Rightarrow> bool" where
  "procRunning Y name = (case proc_dir Y of None \<Rightarrow> False | Some es \<Rightarrow> list_ex (proc_is Y name) es)"

record Snapshot =
  CollectedAt :: int
  Hostname :: string
  OS :: string
  Arch :: string
  Goroutines :: nat
  GoVersion :: string
  LoadAvg1 :: f64
  LoadAvg5 :: f64
  LoadAvg15 :: f64
  NumCPU :: nat
  Mem :: mem_info
  MemUsedKB :: "64 word"
  GoAllocMB :: f64
  GoSysMB :: f64
  GoNumGC :: "32 word"
  NetIfaces :: "string list"
  TCPEstablished :: nat
  TCPListening :: nat
  TCPTimeWait :: nat
  TorRunning :: bool
  NginxRunning :: bool

definition read_or :: "sys_env \<Rightarrow> string \<Rightarrow> string" where
  "read_or Y path = (case proc_read Y path of None \<Rightarrow> [] | Some txt \<Rightarrow> txt)"

definition tcp_total :: "sys_env \<Rightarrow> string \<Rightarrow> nat" where
  "tcp_total Y st = tcp_count st (read_or Y ''/proc/net/tcp'') + tcp_count st (read_or Y ''/proc/net/tcp6'')"

text \<open>The three averages, 0 where the file cannot be read or has fewer fields.\<close>

definition load_avgs :: "string \<Rightarrow> f64 \<times> f64 \<times> f64" where
  "load_avgs txt =
     (case Fields txt of a # b # c # _ \<Rightarrow> (ParseFloat a, ParseFloat b, ParseFloat c) | _ \<Rightarrow> (0, 0, 0))"

definition megabytes :: "64 word \<Rightarrow> f64" where
  "megabytes n = f_div (f_of (unat n)) (1024 * 1024)"

text \<open>\<open>embedded\<close>: what \<^verbatim>\<open>SetTorStatus\<close> was last given.\<close>

definition Collect :: "bool \<Rightarrow> sys_env \<Rightarrow> Snapshot" where
  "Collect embedded Y =
     (let m = parse_mem (read_or Y ''/proc/meminfo''); (l1, l5, l15) = load_avgs (read_or Y ''/proc/loadavg'')
      in \<lparr>CollectedAt = sys_time Y,
          Hostname = (case sys_hostname Y of None \<Rightarrow> ''unknown'' | Some h \<Rightarrow> h),
          OS = sys_os Y, Arch = sys_arch Y, Goroutines = sys_goroutines Y, GoVersion = sys_goversion Y,
          LoadAvg1 = l1, LoadAvg5 = l5, LoadAvg15 = l15, NumCPU = sys_cpus Y, Mem = m, MemUsedKB = mem_used m, GoAllocMB = megabytes (sys_alloc Y),
          GoSysMB = megabytes (sys_reserved Y), GoNumGC = sys_gcs Y,
          NetIfaces = net_ifaces (read_or Y ''/proc/net/dev''),
          TCPEstablished = tcp_total Y ''01'', TCPListening = tcp_total Y ''0A'',
          TCPTimeWait = tcp_total Y ''06'',
          TorRunning = (embedded \<or> procRunning Y ''tor''), NginxRunning = procRunning Y ''nginx''\<rparr>)"

section \<open>Sizes\<close>

text \<open>\<^verbatim>\<open>float64(b)\<close> of a 64-bit number: 53 bits, ties to even.\<close>

definition round_div :: "nat \<Rightarrow> nat \<Rightarrow> nat" where
  "round_div n d =
     (let q = n div d; r = n mod d in if 2 * r > d \<or> (2 * r = d \<and> odd q) then Suc q else q)"

fun f64_unit :: "nat \<Rightarrow> nat \<Rightarrow> nat" where
  "f64_unit 0 n = 1"
| "f64_unit (Suc k) n = (if n < 2 ^ 53 then 1 else 2 * f64_unit k (n div 2))"

definition to_f64 :: "nat \<Rightarrow> nat" where
  "to_f64 n = (let u = f64_unit 11 n in round_div n u * u)"

definition fixed2 :: "nat \<Rightarrow> nat \<Rightarrow> string" where
  "fixed2 n d =
     (let h = round_div (100 * n) d; c = h mod 100
      in dec (h div 100) @ ''.'' @ (if c < 10 then ''0'' else []) @ dec c)"

definition FormatBytes :: "64 word \<Rightarrow> string" where
  "FormatBytes b =
     (let n = unat b; f = to_f64 n
      in if n \<ge> 2 ^ 30 then fixed2 f (2 ^ 30) @ '' GB''
         else if n \<ge> 2 ^ 20 then fixed2 f (2 ^ 20) @ '' MB''
         else if n \<ge> 2 ^ 10 then fixed2 f (2 ^ 10) @ '' KB''
         else dec n @ '' B'')"

definition FormatKB :: "64 word \<Rightarrow> string" where
  "FormatKB kb = FormatBytes (kb * 1024)"

section \<open>Percentages\<close>

definition percent :: "64 word \<Rightarrow> 64 word \<Rightarrow> f64" where
  "percent part whole = f_mul (f_div (f_of (unat part)) (f_of (unat whole))) 100"

definition MemPercent :: "Snapshot \<Rightarrow> f64" where
  "MemPercent s =
     (if MemTotalKB (Mem s) = 0 then 0
      else f_div (Round (f_mul (percent (MemUsedKB s) (MemTotalKB (Mem s))) 10)) 10)"

definition u_full :: string where
  "u_full = map byte [0xE2, 0x96, 0x88]"

definition u_shade :: string where
  "u_shade = map byte [0xE2, 0x96, 0x91]"

definition ProgressBar :: "f64 \<Rightarrow> int \<Rightarrow> string" where
  "ProgressBar pct width =
     (let filled0 = trunc (f_mul (f_div pct 100) (f_of (nat width)));
          filled = (if filled0 > width then width else filled0)
      in ''['' @ concat (replicate (nat filled) u_full) @ concat (replicate (nat (width - filled)) u_shade) @ '']'')"

section \<open>What holds of them\<close>

text \<open>However wrong the figures, the bar has its width: no count of cells is negative, on which
  \<^verbatim>\<open>strings.Repeat\<close> would panic.\<close>

lemma bar_cells:
  "0 \<le> trunc (f_mul (f_div pct 100) (f_of n))"
  by (simp add: trunc_def f_mul_def rnd64_nonneg)

lemma bar_width:
  assumes "0 \<le> width"
  shows "length (ProgressBar pct width) = 2 + 3 * nat width"
proof -
  have len: "length (concat (replicate k u)) = k * length u" for k and u :: string
    by (induction k) simp_all
  define t where "t = trunc (f_mul (f_div pct 100) (f_of (nat width)))"
  have "0 \<le> t" unfolding t_def by (rule bar_cells)
  then have "nat (if t > width then width else t) + nat (width - (if t > width then width else t)) = nat width"
    using assms by auto
  then show ?thesis
    unfolding ProgressBar_def Let_def t_def [symmetric]
    by (simp add: len u_full_def u_shade_def flip: add_mult_distrib)
qed

lemma uint_go_bound: "n < 2 ^ 64 \<Longrightarrow> uint_go n s < 2 ^ 64"
  by (induction s arbitrary: n) (auto simp: Let_def)

text \<open>Below 2 to the power of 53 the conversion is exact.\<close>

lemma f64_unit_small: "n < 2 ^ 53 \<Longrightarrow> f64_unit k n = 1"
  by (cases k) simp_all

lemma to_f64_small: "n < 2 ^ 53 \<Longrightarrow> to_f64 n = n"
  by (simp add: to_f64_def f64_unit_small round_div_def)

lemma mem_used_sound:
  "MemAvailableKB m \<le> MemTotalKB m \<Longrightarrow> unat (mem_used m) = unat (MemTotalKB m) - unat (MemAvailableKB m)"
  by (cases "MemTotalKB m = 0") (simp_all add: mem_used_def unat_sub word_neq_0_conv)

lemma mem_used_wraps:
  assumes "0 < MemTotalKB m" and "MemTotalKB m < MemAvailableKB m"
  shows "unat (mem_used m) = 2 ^ 64 + unat (MemTotalKB m) - unat (MemAvailableKB m)"
  using assms by (simp add: mem_used_def unat_sub_if_size word_le_nat_alt word_less_nat_alt word_size)

lemma iface_not_lo: "iface_of l = Some n \<Longrightarrow> n \<noteq> ''lo''"
  by (auto simp: iface_of_def Let_def case_prod_beta split: if_splits)

lemma no_loopback: "''lo'' \<notin> set (net_ifaces txt)"
  using iface_not_lo by (fastforce simp: net_ifaces_def List.map_filter_def)

end
