(* ===== verification/PanelScreen.thy ===== *)
theory PanelScreen
  imports HubState Terminal VaultUi Sysmon
begin

text \<open>
  What the hub's terminal panel shows (\<^verbatim>\<open>renderLive\<close>, \<^verbatim>\<open>renderTab\<close> and
  \<^verbatim>\<open>View\<close> of \<^verbatim>\<open>internal/server/tui/app.go\<close>). The terminal library is the
  argument \<open>T\<close>.
\<close>

datatype vtab = Dashboard | ChatRoom | Blocked | Clients | Vault | System

definition tabs :: "vtab list" where
  "tabs = [Dashboard, ChatRoom, Blocked, Clients, Vault, System]"

definition tabNames :: "string list" where
  "tabNames = [''Dashboard'', ''Chat Room'', ''Blocked'', ''Clients'', ''Vault'', ''System'']"

record panel =
  p_tab :: nat
  p_width :: int
  p_height :: int
  p_input :: string
  p_inputWidth :: int
  p_vpWidth :: int
  p_vpHeight :: int
  p_content :: string
  p_filesCursor :: nat
  p_statusMsg :: string
  p_sysSnap :: "Snapshot option"
  p_showHelp :: bool
  p_selectHold :: bool
  p_frozenView :: string
  p_quitting :: bool
  p_burning :: bool

definition new_panel :: panel where
  "new_panel =
     \<lparr>p_tab = 0, p_width = 0, p_height = 0, p_input = [], p_inputWidth = 0, p_vpWidth = 0, p_vpHeight = 0,
      p_content = [], p_filesCursor = 0, p_statusMsg = [], p_sysSnap = None, p_showHelp = False,
      p_selectHold = False, p_frozenView = [], p_quitting = False, p_burning = False\<rparr>"

section \<open>Styles\<close>

definition clrWhite :: string where "clrWhite = ''#FFFFFF''"
definition clrDkWhite :: string where "clrDkWhite = ''#AAAAAA''"
definition clrGray :: string where "clrGray = ''#888888''"
definition clrDkGray :: string where "clrDkGray = ''#222222''"
definition clrRed :: string where "clrRed = ''#FF3333''"
definition clrCyan :: string where "clrCyan = ''#FFFFFF''"
definition clrYellow :: string where "clrYellow = ''#FFD700''"
definition clrBlack :: string where "clrBlack = ''#000000''"

definition styleTitle :: style where
  "styleTitle =
     [Bold, Foreground clrWhite, BorderBottom, BorderStyle ''normal'', BorderForeground clrDkWhite,
      MarginBottom 1]"

definition styleActiveTab :: style where
  "styleActiveTab = [Bold, Foreground clrBlack, Background clrWhite, Padding 0 2, MarginRight 1]"

definition styleInactiveTab :: style where
  "styleInactiveTab = [Foreground clrWhite, Background clrDkGray, Padding 0 2, MarginRight 1]"

definition styleInput :: style where
  "styleInput = [Border ''rounded'', BorderForeground clrWhite, Padding 0 1]"

definition styleStatus :: style where
  "styleStatus = [Foreground clrGray, Italic]"

definition styleHelp :: style where
  "styleHelp = [Foreground clrGray]"

definition styleFileLine :: style where
  "styleFileLine = [Foreground clrWhite]"

definition styleFileSelected :: style where
  "styleFileSelected = [Foreground clrBlack, Background clrWhite, Bold]"

definition styleWL :: style where
  "styleWL = [Foreground clrWhite]"

definition styleBL :: style where
  "styleBL = [Foreground clrRed]"

definition styleHelpBox :: style where
  "styleHelpBox =
     [Border ''double'', BorderForeground clrWhite, Padding 1 2, Foreground clrDkWhite]"

definition styleGray :: "terminal \<Rightarrow> string \<Rightarrow> string" where
  "styleGray T s = draw T [Foreground clrGray] s"

section \<open>Helpers\<close>

definition torStatusLabel :: "string \<Rightarrow> string" where
  "torStatusLabel onion =
     (if TrimSpace onion \<noteq> [] then ''ready  (Ctrl+Y copies invite)''
      else ''waiting  (embedded bootstrap '' @ u_noteq @ '' system `tor` process)'')"

definition truncate :: "string \<Rightarrow> int \<Rightarrow> string" where
  "truncate s most =
     (if most < 1 then (if s \<noteq> [] then u_ellipsis else [])
      else if int (length s) \<le> most then s
      else take (nat most - 1) s @ u_ellipsis)"

definition formatFileSize :: "int \<Rightarrow> string" where
  "formatFileSize n =
     (if n \<ge> 1024 * 1024 then fixed1 (to_f64 (nat n)) (1024 * 1024) @ '' MB''
      else if n \<ge> 1024 then fixed1 (nat n) 1024 @ '' KB''
      else int_dec n @ '' B'')"

text \<open>Durations in nanoseconds: rounded to seconds, half away from zero, and as Go prints
  them.\<close>

definition round_seconds :: "int \<Rightarrow> int" where
  "round_seconds d =
     (let r = (\<bar>d\<bar> + 500000000) div second in if d < 0 then - r else r)"

definition show_seconds :: "int \<Rightarrow> string" where
  "show_seconds s =
     (let u = nat \<bar>s\<bar>; m = u div 60; h = m div 60
      in (if s < 0 then ''-'' else []) @
         (if m > 0 then (if h > 0 then dec h @ ''h'' else []) @ dec (m mod 60) @ ''m'' else []) @
         dec (u mod 60) @ ''s'')"

definition uptime :: "Hub \<Rightarrow> string" where
  "uptime H = show_seconds (round_seconds (clock H - StartTime (Stats H)))"

text \<open>\<open>day\<close>: the format \<^verbatim>\<open>01-02 15:04\<close> of a time.\<close>

definition fileAge :: "(int \<Rightarrow> string) \<Rightarrow> int \<Rightarrow> int \<Rightarrow> string" where
  "fileAge day now t =
     (let s = round_seconds (now - t)
      in if s < 60 then int_dec s @ ''s ago''
         else if s < 3600 then int_dec (s div 60) @ ''m ago''
         else if s < 86400 then int_dec (s div 3600) @ ''h ago''
         else day t)"

section \<open>Tabs\<close>

definition nl :: string where "nl = [newline]"

definition row :: "string \<Rightarrow> string \<Rightarrow> string" where
  "row label val = ''  '' @ pad 18 label @ '' '' @ val @ nl"

definition stat :: "terminal \<Rightarrow> string \<Rightarrow> string \<Rightarrow> string" where
  "stat T label val = row label (draw T [Foreground clrWhite] val)"

definition in_state :: "Hub \<Rightarrow> string \<Rightarrow> nat" where
  "in_state H st = length (filter (\<lambda>r. State (objs H r) = st) (GetAllClients H))"

definition dash_left :: "terminal \<Rightarrow> int \<Rightarrow> Hub \<Rightarrow> string" where
  "dash_left T colW H =
     (let wl = in_state H ''WHITELISTED''; bl = in_state H ''BLACKLISTED'';
          pend = length (GetAllClients H) - wl - bl;
          onion = TrimSpace (TorAddress (Stats H));
          torLine = (if onion \<noteq> [] then onion
                     else ''(bootstrapping or --pt system-tor '' @ u_dash @ '' Ctrl+Y copies invite)'')
      in draw T (styleTitle @ [Width colW]) '' SERVER STATS '' @ nl @
         stat T ''Tor:'' (torStatusLabel onion) @
         stat T ''Onion:'' torLine @
         stat T ''Vault (HTTP):'' (''127.0.0.1:'' @ int_dec (HTTPPort H) @ '' (localhost fallback)'') @
         stat T ''Uptime:'' (uptime H) @
         stat T ''Total Connections:'' (int_dec (TotalConnections (Stats H))) @
         stat T ''Messages Sent:'' (int_dec (MessagesSent (Stats H))) @
         stat T ''Commands Executed:'' (int_dec (CommandsExecuted (Stats H))) @ nl @
         styleGray T (''  '' @ rule 2 @ '' Active Clients '' @ rule 15) @ nl @
         row ''Whitelisted:'' (draw T [Foreground clrWhite] (dec wl)) @
         row ''Blacklisted:'' (draw T [Foreground clrRed] (dec bl)) @
         row ''Pending:'' (draw T [Foreground clrYellow] (dec pend)) @ nl @
         styleGray T (''  '' @ rule 2 @ '' Console Log '' @ rule 18) @ nl @
         concat (map (\<lambda>l. ''  '' @ styleGray T (truncate l (colW - 4)) @ nl) (lastn 100 (ConsoleHistory H))))"

definition event_line :: "terminal \<Rightarrow> 'a wire_scheme \<Rightarrow> int \<Rightarrow> EventEntry \<Rightarrow> string" where
  "event_line T E colW ev =
     ''  '' @ styleGray T (fmt_clock E (EventTime ev)) @ '' '' @ Icon ev @ '' '' @
     draw T [Foreground clrWhite] (truncate (EventText ev) (colW - 16)) @ nl"

definition dash_right :: "terminal \<Rightarrow> 'a wire_scheme \<Rightarrow> int \<Rightarrow> Hub \<Rightarrow> string" where
  "dash_right T E colW H =
     draw T (styleTitle @ [Width colW]) ('' '' @ u_bell @ '' LIVE NOTIFICATIONS '') @ nl @
     (if GetEvents H = [] then styleGray T (''  No events yet.'' @ nl)
      else concat (map (event_line T E colW) (lastn 200 (GetEvents H))))"

definition tab_dashboard :: "terminal \<Rightarrow> 'a wire_scheme \<Rightarrow> panel \<Rightarrow> Hub \<Rightarrow> string" where
  "tab_dashboard T E p H =
     (let w = (p_width p - 6) div 2; colW = (if w < 20 then 20 else w)
      in beside T
           [draw T [Width colW] (dash_left T colW H),
            draw T [Width colW, BorderLeft, BorderStyle ''normal'', BorderForeground clrDkWhite, PaddingLeft 1]
              (dash_right T E colW H)])"

definition tab_chat :: "terminal \<Rightarrow> Hub \<Rightarrow> string" where
  "tab_chat T H =
     draw T styleTitle '' CHAT ROOM '' @ nl @
     concat (map (\<lambda>m. ''  '' @ styleGray T (''['' @ hm_Timestamp m @ '']'') @ '' '' @ draw T styleWL (hm_Sender m) @
         '': '' @ hm_Content m @ nl) (GetHistory (DBManager H)))"

definition tab_blocked :: "terminal \<Rightarrow> Hub \<Rightarrow> string" where
  "tab_blocked T H =
     draw T styleTitle '' BLOCKED IDENTITIES / NICKNAMES '' @ nl @
     styleGray T ''  Active blocks that prevent reconnection:'' @
     concat (map (\<lambda>b. nl @ ''  '' @ draw T styleBL u_no_entry @ '' '' @ b) (GetBlockedList H))"

definition state_colour :: "string \<Rightarrow> string" where
  "state_colour st =
     (if st = ''WHITELISTED'' then clrWhite else if st = ''BLACKLISTED'' then clrRed
      else if st = ''PENDING'' then clrYellow else clrGray)"

definition client_line :: "terminal \<Rightarrow> Client \<Rightarrow> string" where
  "client_line T c =
     ''  '' @ pad 18 (Nickname c) @ '' '' @ draw T [Foreground (state_colour (State c))] (pad 12 (State c)) @
     '' '' @ Address c @ (if IsAdmin c then draw T [Foreground clrCyan] '' [ADMIN]'' else []) @ nl"

definition tab_clients :: "terminal \<Rightarrow> Hub \<Rightarrow> string" where
  "tab_clients T H =
     draw T styleTitle '' CONNECTED CLIENTS '' @ nl @
     (if GetAllClients H = [] then styleGray T (''  No clients connected.'' @ nl) else []) @
     concat (map (\<lambda>r. client_line T (objs H r)) (GetAllClients H))"

definition vault_line :: "terminal \<Rightarrow> (int \<Rightarrow> string) \<Rightarrow> panel \<Rightarrow> nat \<Rightarrow> nat \<times> Entry \<Rightarrow> string" where
  "vault_line T day p cur x =
     (case x of (i, e) \<Rightarrow>
        draw T (if i = p_filesCursor p then styleFileSelected else styleFileLine)
          (Line (day (en_mod e)) e (i = cur) (p_width p - 4)) @ nl)"

definition tab_vault :: "terminal \<Rightarrow> (int \<Rightarrow> string) \<Rightarrow> Entry list \<Rightarrow> panel \<Rightarrow> Hub \<Rightarrow> string" where
  "tab_vault T day listing p H =
     (let ents = ListEntries listing;
          cur = (if p_filesCursor p \<ge> length ents then length ents - 1 else p_filesCursor p)
      in draw T styleTitle '' VAULT (hub ciphertext) '' @ nl @
         styleGray T (''  dir: '' @ VaultDir H @ nl) @
         styleGray T (''  http fallback: 127.0.0.1:'' @ int_dec (HTTPPort H) @ ''  '' @ u_middot @
           ''  mux FILE_PUT/GET on chat port'' @ nl @ nl) @
         (if ents = [] then ''  (empty '' @ u_dash @ '' members drop files in room outbox)'' @ nl
          else
            concat (map (vault_line T day p cur) (enumerate 0 ents)) @
            styleGray T (nl @ ''  '' @ dec (length ents) @ '' blobs '' @ u_middot @ '' '' @
              FormatSize (TotalBytes ents) @ ''  '' @ u_middot @ ''  '' @ u_updown @
              '' select  D delete  (ciphertext only)'' @ nl)))"

section \<open>The System tab\<close>

definition u_ring :: string where
  "u_ring = map byte [0xE2, 0x97, 0x8B]"

definition u_disc :: string where
  "u_disc = map byte [0xE2, 0x97, 0x8F]"

definition heading :: "terminal \<Rightarrow> string \<Rightarrow> nat \<Rightarrow> string" where
  "heading T name n = styleGray T (''  '' @ rule 2 @ '' '' @ name @ '' '' @ rule n)"

definition sys_host :: "terminal \<Rightarrow> Snapshot \<Rightarrow> string" where
  "sys_host T s =
     heading T ''Host'' 46 @ nl @ row ''Hostname:'' (draw T [Foreground clrWhite] (Hostname s)) @
     row ''Platform:'' (OS s @ '' / '' @ Arch s) @ row ''Go Version:'' (GoVersion s) @ nl"

text \<open>The colour of a figure that has passed its second or its first threshold.\<close>

definition alarm :: "f64 \<Rightarrow> f64 \<Rightarrow> f64 \<Rightarrow> string" where
  "alarm x red yellow = (if x > red then clrRed else if x > yellow then clrYellow else clrWhite)"

definition sys_load :: "terminal \<Rightarrow> Snapshot \<Rightarrow> string" where
  "sys_load T s =
     (let cpus = f_of (NumCPU s);
          loadColor = alarm (LoadAvg1 s) (f_mul cpus (rnd64 (8 / 10))) (f_mul cpus (1 / 2));
          loadStr = draw T [Foreground loadColor]
            (show_f2 (LoadAvg1 s) @ ''  '' @ show_f2 (LoadAvg5 s) @ ''  '' @ show_f2 (LoadAvg15 s))
      in heading T ''CPU / Load'' 42 @ nl @ row ''CPU Cores:'' (dec (NumCPU s)) @
         row ''Load Avg:'' (loadStr @ ''  (1m / 5m / 15m)'') @ nl)"

definition usage_row :: "string \<Rightarrow> string \<Rightarrow> 64 word \<Rightarrow> 64 word \<Rightarrow> f64 \<Rightarrow> string" where
  "usage_row label bar used whole pct =
     row label (bar @ ''  '' @ FormatKB used @ '' / '' @ FormatKB whole @ ''  ('' @ show_f1 pct @ ''%)'')"

definition sys_memory :: "terminal \<Rightarrow> Snapshot \<Rightarrow> string" where
  "sys_memory T s =
     (let memPct = MemPercent s; barW = 30;
          bar = draw T [Foreground (alarm memPct 85 65)] (ProgressBar memPct barW);
          m = Mem s
      in heading T ''Memory'' 48 @ nl @ usage_row ''RAM:'' bar (MemUsedKB s) (MemTotalKB m) memPct @
         (if SwapTotalKB m > 0 then
            (let swapUsed = SwapTotalKB m - SwapFreeKB m; swapPct = percent swapUsed (SwapTotalKB m)
             in usage_row ''Swap:'' (ProgressBar swapPct barW) swapUsed (SwapTotalKB m) swapPct)
          else []) @ nl)"

definition sys_runtime :: "terminal \<Rightarrow> Snapshot \<Rightarrow> string" where
  "sys_runtime T s =
     heading T ''Go Runtime'' 43 @ nl @ row ''Goroutines:'' (dec (Goroutines s)) @
     row ''Heap Alloc:'' (show_f2 (GoAllocMB s) @ '' MB'') @ row ''Sys Memory:'' (show_f2 (GoSysMB s) @ '' MB'') @
     row ''GC Cycles:'' (dec (unat (GoNumGC s))) @ nl"

definition sys_network :: "terminal \<Rightarrow> Snapshot \<Rightarrow> string" where
  "sys_network T s =
     heading T ''Network'' 45 @ nl @
     (if NetIfaces s = [] then styleGray T (''  No network interfaces detected.'' @ nl) else []) @
     concat (map (\<lambda>name. row ''Interface:'' name) (NetIfaces s)) @
     row ''TCP:'' (''ESTABLISHED:'' @ dec (TCPEstablished s) @ ''  LISTEN:'' @ dec (TCPListening s) @
       ''  TIME_WAIT:'' @ dec (TCPTimeWait s)) @ nl"

definition sys_services :: "terminal \<Rightarrow> string \<Rightarrow> Snapshot \<Rightarrow> string" where
  "sys_services T onion s =
     (let torStatus =
            (if onion \<noteq> [] then draw T [Foreground clrWhite] (u_disc @ '' onion ready (embedded or HS)'')
             else if TorRunning s then draw T [Foreground clrWhite] (u_disc @ '' system tor process'')
             else draw T [Foreground clrYellow] (u_ring @ '' no onion yet''))
      in heading T ''Services'' 44 @ nl @ row ''Tor:'' torStatus @
         (if onion \<noteq> [] then row ''Onion:'' onion
          else styleGray T (''  Onion:            (Ctrl+Y still copies LAN invite if HS not published)'' @ nl)) @
         row ''Conner Server:'' (draw T [Foreground clrWhite] (u_disc @ '' RUNNING'')) @ nl)"

definition tab_system :: "terminal \<Rightarrow> 'a wire_scheme \<Rightarrow> panel \<Rightarrow> Hub \<Rightarrow> string" where
  "tab_system T E p H =
     (case p_sysSnap p of
        None \<Rightarrow> styleGray T (''  Collecting metrics...'' @ nl)
      | Some s \<Rightarrow>
          draw T styleTitle '' SYSTEM MONITOR '' @ nl @ sys_host T s @ sys_load T s @ sys_memory T s @
          sys_runtime T s @ sys_network T s @ sys_services T (TrimSpace (TorAddress (Stats H))) s @
          styleGray T (''  Last updated: '' @ fmt_clock E (CollectedAt s) @ nl))"

section \<open>The frame\<close>

text \<open>\<open>listing\<close> is what the vault directory holds.\<close>

definition renderTab ::
  "terminal \<Rightarrow> 'a wire_scheme \<Rightarrow> (int \<Rightarrow> string) \<Rightarrow> Entry list \<Rightarrow> panel \<Rightarrow> Hub \<Rightarrow> string" where
  "renderTab T E day listing p H =
     (case tabs ! p_tab p of
        Dashboard \<Rightarrow> tab_dashboard T E p H
      | ChatRoom \<Rightarrow> tab_chat T H
      | Blocked \<Rightarrow> tab_blocked T H
      | Clients \<Rightarrow> tab_clients T H
      | Vault \<Rightarrow> tab_vault T day listing p H
      | System \<Rightarrow> tab_system T E p H)"

definition panel_help :: string where
  "panel_help =
     nl @
     ''  CONNER ADMIN PANEL '' @ u_dash @ '' Commands'' @ nl @
     ''  '' @ rule 45 @ nl @
     ''  /approve <nick>    Approve a pending user'' @ nl @
     ''  /block <nick>      Block and disconnect user'' @ nl @
     ''  /kick <nick>       Disconnect a user'' @ nl @
     ''  /ann <msg>         Send global announcement'' @ nl @
     ''  /op <nick>         Grant admin permissions'' @ nl @
     ''  /purge             Clear all chat history'' @ nl @
     ''  /burn              EMERGENCY SELF-DESTRUCT (Aggressive)'' @ nl @
     ''  /help              Show this menu'' @ nl @ nl @
     ''  [Ctrl+S]           Freeze screen for Shift+drag copy'' @ nl @
     ''  [Ctrl+Y]           Copy invite blob to clipboard'' @ nl @
     ''  [Tab]              Auto-complete commands/users'' @ nl @
     ''  [Shift+Tab]        Switch between dashboard tabs'' @ nl @
     ''  ['' @ u_updown @ '' / k j]         Scroll viewports / lists'' @ nl @
     ''  [D / Del]          Delete file (in Files tab)'' @ nl @
     ''  [Ctrl+C]           Exit Admin Panel'' @ nl @
     ''  [ESC / Enter]      Close this menu'' @ nl"

definition tab_bar :: "terminal \<Rightarrow> panel \<Rightarrow> string" where
  "tab_bar T p =
     beside T (map (\<lambda>(i, name). draw T (if i = p_tab p then styleActiveTab else styleInactiveTab) name)
       (enumerate 0 tabNames))"

definition panel_live :: "terminal \<Rightarrow> panel \<Rightarrow> Hub \<Rightarrow> string" where
  "panel_live T p H =
     (if p_width p = 0 then ''Loading CONNER Admin Panel...''
      else if p_showHelp p then centred T (p_width p) (p_height p) (draw T styleHelpBox panel_help)
      else
        draw T [Width (p_width p)] (tab_bar T p @ draw T styleStatus (''  uptime:'' @ uptime H)) @ nl @ nl @
        pane T (p_vpWidth p) (p_vpHeight p) (p_content p) @ nl @
        (if p_statusMsg p \<noteq> [] then draw T styleStatus ('' '' @ p_statusMsg p)
         else draw T styleHelp ('' Ctrl+S freeze copy '' @ u_middot @ '' Ctrl+Y invite '' @ u_middot @
           '' Shift+Tab tabs '' @ u_middot @ '' Ctrl+C quit'')) @ nl @
        draw T styleInput (field T (p_inputWidth p) (p_input p)) @ nl)"

definition panel_view :: "terminal \<Rightarrow> panel \<Rightarrow> Hub \<Rightarrow> string" where
  "panel_view T p H =
     (if p_selectHold p \<and> p_frozenView p \<noteq> [] then p_frozenView p else panel_live T p H)"

section \<open>What holds of them\<close>

lemma panel_frozen: "p_selectHold p \<Longrightarrow> p_frozenView p \<noteq> [] \<Longrightarrow> panel_view T p H = p_frozenView p"
  by (simp add: panel_view_def)

text \<open>The three counts of the dashboard add up to the members connected.\<close>

lemma in_state_sum:
  "in_state H ''WHITELISTED'' + in_state H ''BLACKLISTED'' \<le> length (GetAllClients H)"
proof -
  have "length (filter (\<lambda>r. State (objs H r) = ''WHITELISTED'') xs) +
      length (filter (\<lambda>r. State (objs H r) = ''BLACKLISTED'') xs) \<le> length xs" for xs
    by (induction xs) auto
  then show ?thesis by (simp add: in_state_def)
qed

lemma length_truncate: "1 \<le> n \<Longrightarrow> int (length (truncate s n)) \<le> n + 2"
  by (auto simp: truncate_def u_ellipsis_def)

end
