(* ===== verification/AdminPanel.thy ===== *)
theory AdminPanel
  imports HubServer Invite PanelScreen
begin

text \<open>
  What the hub's terminal panel does (\<^verbatim>\<open>Update\<close> of
  \<^verbatim>\<open>internal/server/tui/app.go\<close>): the commands the operator types, completion, the
  keys, the ticks and the size of the window. Its widgets, the clipboard and the listing of the
  vault are the fields of \<open>panel_world\<close>.
\<close>

section \<open>Commands\<close>

definition u_ballot :: string where
  "u_ballot = map byte [0xE2, 0x9C, 0x97]"

definition u_bin :: string where
  "u_bin = map byte [0xF0, 0x9F, 0x97, 0x91]"

text \<open>The kick sends its notice and schedules the removal a moment later.\<close>

definition panel_kick :: "'a hub_env_scheme \<Rightarrow> nat \<Rightarrow> Hub \<Rightarrow> Hub" where
  "panel_kick E r H =
     (let H1 = SendSystemMessage E r (u_zap @ '' You have been kicked from the server.'') H
      in H1\<lparr>pending := pending H1 @ [r]\<rparr>)"

definition panel_announce :: "'a hub_env_scheme \<Rightarrow> string \<Rightarrow> Hub \<Rightarrow> Hub" where
  "panel_announce E txt H =
     (let fullText = u_mega @ '' '' @ txt;
          H1 = save_history E MsgTypeSystem fullText ''ADMIN'' H;
          (msg, H2) = new_msg E MsgTypeSystem fullText ''ADMIN'' H1
      in BroadcastToState E ''WHITELISTED'' msg [] H2)"

definition panel_op :: "'a hub_env_scheme \<Rightarrow> nat \<Rightarrow> Hub \<Rightarrow> Hub" where
  "panel_op E r H =
     SendSystemMessage E r ''You have been granted admin privileges.''
       (upd_obj r (\<lambda>c. c\<lparr>IsAdmin := True\<rparr>) H)"

definition executeAdminCommand ::
  "'a hub_env_scheme \<Rightarrow> string \<Rightarrow> panel \<times> Hub \<Rightarrow> panel \<times> Hub" where
  "executeAdminCommand E val x =
     (let (p, H) = x;
          parts = SplitN val (CHR '' '') 3;
          c = (case parts of [] \<Rightarrow> [] | w # _ \<Rightarrow> w);
          args = tl parts;
          say = (\<lambda>txt. p\<lparr>p_statusMsg := txt\<rparr>);
          missing = (\<lambda>n. say (''User not found: '' @ n))
      in if c = ''/approve'' then
           (case args of [] \<Rightarrow> x
            | a # _ \<Rightarrow>
                (case ApproveClient E (TrimSpace a) H of
                   (ok, H1) \<Rightarrow>
                     (if ok then say (u_tick @ '' Approved: '' @ TrimSpace a) else missing (TrimSpace a), H1)))
         else if c = ''/block'' \<or> c = ''/blacklist'' then
           (case args of [] \<Rightarrow> x
            | a # _ \<Rightarrow>
                (case BlockClient E a H of
                   (ok, H1) \<Rightarrow> (if ok then say (u_ballot @ '' Blocked: '' @ a) else missing a, H1)))
         else if c = ''/kick'' then
           (case args of [] \<Rightarrow> x
            | a # _ \<Rightarrow>
                (case GetClientByNickname a H of
                   None \<Rightarrow> (missing a, H)
                 | Some r \<Rightarrow> (say (u_zap @ '' Kicked: '' @ a), panel_kick E r H)))
         else if c = ''/ann'' then
           (case args of [] \<Rightarrow> x
            | _ \<Rightarrow> (say (u_tick @ '' Announcement sent''), panel_announce E (Join args '' '') H))
         else if c = ''/op'' then
           (case args of [] \<Rightarrow> x
            | a # _ \<Rightarrow>
                (case GetClientByNickname a H of
                   None \<Rightarrow> (missing a, H)
                 | Some r \<Rightarrow> (say (u_tick @ '' Granted admin to '' @ a), panel_op E r H)))
         else if c = ''/help'' then (p\<lparr>p_showHelp := True\<rparr>, H)
         else if c = ''/purge'' then
           (say (u_bin @ '' Database purged''),
            Log E ''Admin purged all persistent data'' (H\<lparr>DBManager := Clear (DBManager H)\<rparr>))
         else if c = ''/burn'' then
           ((say ''wiping ~/.conner, vault, cwd leftovers'')\<lparr>p_burning := True\<rparr>, H)
         else (say (''Unknown command: '' @ c), Log E (''Admin unknown command: '' @ val) H))"

section \<open>Completion\<close>

definition panel_cmds :: "string list" where
  "panel_cmds =
     [''/ann '', ''/kick '', ''/block '', ''/unblock '', ''/whitelist '', ''/approve '', ''/help'', ''/op '']"

text \<open>Whom a command is completed with: the states it applies to.\<close>

definition panel_users :: "string \<Rightarrow> Hub \<Rightarrow> string list" where
  "panel_users cmd H =
     (let in_state = (\<lambda>ss. map (\<lambda>r. Nickname (objs H r)) (filter (\<lambda>r. State (objs H r) \<in> set ss) (GetAllClients H)))
      in if cmd = ''/approve'' \<or> cmd = ''/whitelist'' then in_state [''PENDING'']
         else if cmd = ''/kick'' \<or> cmd = ''/block'' \<or> cmd = ''/blacklist'' then
           in_state [''WHITELISTED'', ''PENDING'']
         else if cmd = ''/op'' \<or> cmd = ''/unblock'' then in_state [''WHITELISTED'']
         else [])"

text \<open>\<open>setv\<close>: what the input makes of a value set by the program.\<close>

definition panel_tab :: "(string \<Rightarrow> string) \<Rightarrow> Hub \<Rightarrow> panel \<Rightarrow> panel" where
  "panel_tab setv H p =
     (let parts = Split (p_input p) (CHR '' ''); currentWord = last parts;
          matches =
            (if length parts = 1 then
               filter (\<lambda>c. HasPrefix c currentWord \<or> HasPrefix c (''/'' @ currentWord)) panel_cmds
             else if length parts = 2 then
               filter (\<lambda>n. HasPrefix n currentWord) (panel_users (hd parts) H)
             else [])
      in case next_match (\<lambda>m. m = currentWord) matches of
           None \<Rightarrow> p
         | Some w \<Rightarrow> p\<lparr>p_input := setv (Join (butlast parts @ [w]) '' '')\<rparr>)"

section \<open>Keys\<close>

definition copyTarget :: "(Blob \<Rightarrow> bytes) \<Rightarrow> Hub \<Rightarrow> string" where
  "copyTarget je H =
     (let onion = TrimSpace (TorAddress (Stats H))
      in if onion \<noteq> [] then
           EncodeInvite je (empty_blob\<lparr>b_Onion := onion, b_Port := ServerPort, b_Tor := True,
             b_Room := DefaultRoom\<rparr>)
         else
           EncodeInvite je (empty_blob\<lparr>b_Host := ''127.0.0.1'', b_Port := ServerPort, b_Tor := False,
             b_Room := DefaultRoom\<rparr>))"

text \<open>The copied ticket names the default port, whatever port the hub listens on.\<close>

lemma copied_ticket_port:
  assumes "\<And>b. jd (je (b\<lparr>b_V := 1\<rparr>)) = Some (b\<lparr>b_V := 1\<rparr>)"
  shows "\<exists>b. DecodeInvite jd (copyTarget je H) = Inr b \<and> b_Port b = ServerPort"
proof -
  have dec: "DecodeInvite jd (EncodeInvite je b) = Inr (b\<lparr>b_V := 1\<rparr>)" for b
    by (rule DecodeInvite_EncodeInvite) (rule assms)
  show ?thesis by (simp add: copyTarget_def Let_def dec)
qed

text \<open>The entry under the cursor, and the removal of its file.\<close>

definition vault_delete :: "string \<Rightarrow> Hub \<Rightarrow> Hub" where
  "vault_delete name H = H\<lparr>disk := remove_disk (SafeJoin (VaultDir H) name) (disk H)\<rparr>"

definition delete_key :: "Entry list \<Rightarrow> panel \<times> Hub \<Rightarrow> panel \<times> Hub" where
  "delete_key listing x =
     (let (p, H) = x; ents = ListEntries listing;
          i = (if p_filesCursor p \<ge> length ents then length ents - 1 else p_filesCursor p)
      in if tabs ! p_tab p = Vault \<and> ents \<noteq> [] then
           (p\<lparr>p_statusMsg := ''deleted blob '' @ en_name (ents ! i)\<rparr>, vault_delete (en_name (ents ! i)) H)
         else x)"

text \<open>
  The world of the panel: the terminal, formatted times of listings, the listing of a directory, the clipboard, what
  the input makes of a key and of a value, and JSON for the ticket.
\<close>

record panel_world =
  pw_term :: terminal
  pw_day :: "int \<Rightarrow> string"
  pw_list :: "string \<Rightarrow> disk \<Rightarrow> Entry list"
  pw_clip :: clipboard
  pw_edit :: "string \<Rightarrow> string \<Rightarrow> string"
  pw_set :: "string \<Rightarrow> string"
  pw_json :: "Blob \<Rightarrow> bytes"

text \<open>The viewport gets the text of the current tab.\<close>

definition sync_panel :: "'a hub_env_scheme \<Rightarrow> panel_world \<Rightarrow> panel \<times> Hub \<Rightarrow> panel \<times> Hub" where
  "sync_panel E W x =
     (case x of (p, H) \<Rightarrow>
        (p\<lparr>p_content := renderTab (pw_term W) E (pw_day W) (pw_list W (VaultDir H) (disk H)) p H\<rparr>, H))"

definition hold_key :: "panel_world \<Rightarrow> Hub \<Rightarrow> panel \<Rightarrow> panel" where
  "hold_key W H p =
     (if p_selectHold p then p\<lparr>p_selectHold := False, p_frozenView := [], p_statusMsg := ''live view''\<rparr>
      else
        (let p1 = p\<lparr>p_selectHold := True,
                   p_statusMsg := ''SELECT MODE '' @ u_dash @ '' Shift+drag, then Ctrl+S''\<rparr>
         in p1\<lparr>p_frozenView := panel_live (pw_term W) p1 H\<rparr>))"

text \<open>A key. The keys that return early leave the input and the viewport alone.\<close>

definition panel_key :: "'a hub_env_scheme \<Rightarrow> panel_world \<Rightarrow> string \<Rightarrow> panel \<times> Hub \<Rightarrow> panel \<times> Hub" where
  "panel_key E W key x =
     (let (p, H) = x;
          typed = (\<lambda>(p, H). sync_panel E W (p\<lparr>p_input := pw_edit W key (p_input p)\<rparr>, H))
      in if key = ''ctrl+s'' then (hold_key W H p, H)
         else if key = ''ctrl+c'' then (p\<lparr>p_quitting := True\<rparr>, H\<lparr>Running := False\<rparr>)
         else if key = ''ctrl+y'' then
           typed (p\<lparr>p_statusMsg := (if ClipWrite (pw_clip W) (copyTarget (pw_json W) H)
                                then ''copied onion/invite (Shift+drag also works)''
                                else ''clipboard unavailable'')\<rparr>, H)
         else if key = ''ctrl+v'' then
           typed (case ClipRead (pw_clip W) of
                    None \<Rightarrow> p
                  | Some s \<Rightarrow> p\<lparr>p_input := pw_set W (p_input p @ Sanitize s)\<rparr>, H)
         else if key = ''esc'' then (if p_showHelp p then (p\<lparr>p_showHelp := False\<rparr>, H) else typed x)
         else if key = ''tab'' then typed (panel_tab (pw_set W) H p, H)
         else if key = ''shift+tab'' then
           typed (p\<lparr>p_tab := Suc (p_tab p) mod length tabNames, p_filesCursor := 0\<rparr>, H)
         else if key = ''up'' \<or> key = ''k'' then
           typed (if tabs ! p_tab p = Vault \<and> p_filesCursor p > 0
                  then p\<lparr>p_filesCursor := p_filesCursor p - 1\<rparr> else p, H)
         else if key = ''down'' \<or> key = ''j'' then
           typed (if tabs ! p_tab p = Vault then p\<lparr>p_filesCursor := Suc (p_filesCursor p)\<rparr> else p, H)
         else if key = ''d'' \<or> key = ''delete'' then typed (delete_key (pw_list W (VaultDir H) (disk H)) x)
         else if key = ''enter'' then
           (if p_showHelp p then (p\<lparr>p_showHelp := False\<rparr>, H)
            else
              (let val = TrimSpace (p_input p)
               in if val = [] then typed x
                  else typed (executeAdminCommand E val (p\<lparr>p_input := pw_set W [], p_statusMsg := []\<rparr>, H))))
         else typed x)"

datatype panel_event = PTick Snapshot | PResize int int | PMouse | PKey string

text \<open>What is not a key reaches the input too and leaves its text alone.\<close>

definition panel_update ::
  "'a hub_env_scheme \<Rightarrow> panel_world \<Rightarrow> panel_event \<Rightarrow> panel \<times> Hub \<Rightarrow> panel \<times> Hub" where
  "panel_update E W ev x =
     (case ev of
        PTick snap \<Rightarrow>
          (let (p, H) = x
           in sync_panel E W (if p_selectHold p then p else p\<lparr>p_sysSnap := Some snap\<rparr>, H))
      | PResize w h \<Rightarrow>
          (let (p, H) = x; vH = h - 3 - 2 - 1 - 1 - 2
           in sync_panel E W (p\<lparr>p_width := w, p_height := h, p_vpWidth := w - 2,
                p_vpHeight := (if vH < 1 then 1 else vH), p_inputWidth := w - 6\<rparr>, H))
      | PMouse \<Rightarrow> sync_panel E W x
      | PKey key \<Rightarrow> panel_key E W key x)"

section \<open>What the commands may change\<close>

lemma panel_kick_bounded [bound]: "bounded H \<Longrightarrow> bounded (panel_kick E r H)"
  using SendSystemMessage.bounded_f [of H E r] by (simp add: panel_kick_def Let_def bounded_def)

interpretation panel_announce: talking "panel_announce E t" for E t
  by unfold_locales (simp add: panel_announce_def Let_def case_prod_beta talk)

lemma bounded_purge [bound]: "bounded H \<Longrightarrow> bounded (H\<lparr>DBManager := Clear (DBManager H)\<rparr>)"
  by (simp add: bounded_def Clear_def memory_ok_def)

lemma panel_op_bounded [bound]: "bounded H \<Longrightarrow> bounded (panel_op E r H)"
  by (simp add: panel_op_def bound)

lemma executeAdminCommand_bounded [bound]:
  "bounded H \<Longrightarrow> bounded (snd (executeAdminCommand E val (p, H)))"
  by (simp add: executeAdminCommand_def Let_def case_prod_beta bound split: list.split option.split)

lemma snd_sync [simp]: "snd (sync_panel E W x) = snd x"
  by (simp add: sync_panel_def split: prod.split)

lemma delete_key_bounded [bound]: "bounded H \<Longrightarrow> bounded (snd (delete_key ents (p, H)))"
  by (simp add: delete_key_def Let_def vault_delete_def bounded_def)

lemma quit_bounded [bound]: "bounded H \<Longrightarrow> bounded (H\<lparr>Running := False\<rparr>)"
  by (simp add: bounded_def)

lemma panel_key_bounded [bound]: "bounded H \<Longrightarrow> bounded (snd (panel_key E W key (p, H)))"
  by (simp add: panel_key_def Let_def case_prod_beta bound)

lemma panel_update_bounded: "bounded H \<Longrightarrow> bounded (snd (panel_update E W ev (p, H)))"
  by (cases ev) (simp_all add: panel_update_def Let_def bound)

text \<open>The tab is always one of the six.\<close>

lemma command_tab [simp]: "p_tab (fst (executeAdminCommand E val (p, H))) = p_tab p"
  by (simp add: executeAdminCommand_def Let_def case_prod_beta split: list.split option.split)

lemma delete_key_tab [simp]: "p_tab (fst (delete_key ents (p, H))) = p_tab p"
  by (simp add: delete_key_def Let_def)

lemma panel_tab_tab [simp]: "p_tab (panel_tab setv H p) = p_tab p"
  by (simp add: panel_tab_def Let_def split: option.split)

lemma sync_tab [simp]: "p_tab (fst (sync_panel E W x)) = p_tab (fst x)"
  by (simp add: sync_panel_def split: prod.split)

lemma length_tabs [simp]: "length tabs = 6" "length tabNames = 6"
  by (simp_all add: tabs_def tabNames_def)

lemma panel_key_tab: "p_tab p < 6 \<Longrightarrow> p_tab (fst (panel_key E W key (p, H))) < 6"
  by (simp add: panel_key_def hold_key_def Let_def case_prod_beta split: option.split)

lemma panel_update_tab: "p_tab p < 6 \<Longrightarrow> p_tab (fst (panel_update E W ev (p, H))) < 6"
  by (cases ev) (simp_all add: panel_update_def Let_def panel_key_tab)

text \<open>While the screen is held, what the hub does and what time brings change nothing that is
  seen.\<close>

lemma held_ticks:
  "p_selectHold p \<Longrightarrow> p_frozenView p \<noteq> [] \<Longrightarrow>
     panel_view T (fst (panel_update E W (PTick snap) (p, H))) H' = p_frozenView p"
  by (simp add: panel_update_def sync_panel_def panel_view_def)

end
