(* ===== verification/HubStep.thy ===== *)
theory HubStep
  imports AdminPanel
begin

text \<open>
  The hub as a transition system. A step is one handler run to its end: Go lets handlers of
  different goroutines interleave, and the code's locks cover single maps only, so what is
  proved of runs here is proved of runs whose handlers do not overlap (the last section says
  what overlapping handshakes can do).
\<close>

section \<open>Steps\<close>

definition connect ::
  "'a hub_env_scheme \<Rightarrow> string \<Rightarrow> bytes option \<Rightarrow> bool \<Rightarrow> Hub \<Rightarrow> Hub" where
  "connect E addr payload up H =
     (let (go, H1) = accept H
      in if go then snd (handleConnection E addr payload up H1) else H1)"

datatype event =
  Tick nat
| Connect string "bytes option" bool
| Frame nat bytes
| Hangup nat
| Flush nat
| Due nat
| Ping
| Expire
| Sweep
| Upload http_request
| Panel string
| PanelDelete string

fun enabled :: "event \<Rightarrow> Hub \<Rightarrow> bool" where
  "enabled (Frame r payload) H \<longleftrightarrow> Reading (objs H r) \<and> ConnOpen (objs H r)"
| "enabled (Hangup r) H \<longleftrightarrow> Reading (objs H r)"
| "enabled (Due r) H \<longleftrightarrow> r \<in> set (pending H)"
| "enabled (PanelDelete name) H \<longleftrightarrow> good_comp name"
| "enabled _ H \<longleftrightarrow> True"

fun perform :: "'a hub_env_scheme \<Rightarrow> event \<Rightarrow> Hub \<Rightarrow> Hub" where
  "perform E (Tick d) H = H\<lparr>clock := clock H + int d\<rparr>"
| "perform E (Connect addr payload up) H = connect E addr payload up H"
| "perform E (Frame r payload) H = read_pump E r payload H"
| "perform E (Hangup r) H = read_end E r H"
| "perform E (Flush r) H = write_pump r H"
| "perform E (Due r) H = delayed_removal E r H"
| "perform E Ping H = heartbeat E H"
| "perform E Expire H = expire_messages E H"
| "perform E Sweep H = vault_sweep H"
| "perform E (Upload q) H = snd (http_upload E q H)"
| "perform E (Panel val) H = snd (executeAdminCommand E val (new_panel, H))"
| "perform E (PanelDelete name) H = vault_delete name H"

text \<open>Every event of the operator's panel is one of these steps, or stops the hub.\<close>

lemma admin_command_hub: "snd (executeAdminCommand E val (p, H)) = perform E (Panel val) H"
proof (cases "SplitN val (CHR '' '') 3")
  case Nil
  then show ?thesis by (simp add: executeAdminCommand_def)
next
  case (Cons w args)
  have hub: "snd (if b then x else y) = (if b then snd x else snd y)" for b and x y :: "panel \<times> Hub"
    by simp
  show ?thesis
    by (cases args)
       (simp_all only: Cons executeAdminCommand_def Let_def prod.case list.case list.sel hub perform.simps
         snd_conv case_prod_beta option.case_distrib [of snd])
qed

lemma delete_key_hub: "snd (delete_key ents (p, H)) \<in> insert H (range (\<lambda>n. perform E (PanelDelete n) H))"
  by (simp add: delete_key_def Let_def)

lemma panel_key_within:
  assumes "H \<in> S" and "H\<lparr>Running := False\<rparr> \<in> S"
    and "\<And>ents. snd (delete_key ents (p, H)) \<in> S" and "\<And>v q. snd (executeAdminCommand E v (q, H)) \<in> S"
  shows "snd (panel_key E W key (p, H)) \<in> S"
proof -
  have inside: "snd (if b then x else y) \<in> S \<longleftrightarrow> (if b then snd x \<in> S else snd y \<in> S)"
    for b and x y :: "panel \<times> Hub"
    by simp
  show ?thesis
    by (simp only: panel_key_def Let_def prod.case case_prod_beta snd_sync snd_conv fst_conv inside assms if_cancel)
qed

lemma panel_key_hub:
  "snd (panel_key E W key (p, H)) \<in>
     {H, H\<lparr>Running := False\<rparr>} \<union> range (\<lambda>n. perform E (PanelDelete n) H) \<union> range (\<lambda>v. perform E (Panel v) H)"
proof (rule panel_key_within)
  show "snd (delete_key ents (p, H)) \<in>
      {H, H\<lparr>Running := False\<rparr>} \<union> range (\<lambda>n. perform E (PanelDelete n) H) \<union> range (\<lambda>v. perform E (Panel v) H)" for ents
    using delete_key_hub [of ents p H E] by blast
  show "snd (executeAdminCommand E v (q, H)) \<in>
      {H, H\<lparr>Running := False\<rparr>} \<union> range (\<lambda>n. perform E (PanelDelete n) H) \<union> range (\<lambda>v. perform E (Panel v) H)" for v q
    unfolding admin_command_hub by blast
qed simp_all

lemma panel_steps:
  "snd (panel_update E W ev (p, H)) \<in>
     {H, H\<lparr>Running := False\<rparr>} \<union> range (\<lambda>n. perform E (PanelDelete n) H) \<union> range (\<lambda>v. perform E (Panel v) H)"
proof (cases ev)
  case (PKey key)
  then show ?thesis using panel_key_hub [of E W key p H] by (simp add: panel_update_def del: perform.simps)
qed (simp_all add: panel_update_def Let_def del: perform.simps)

inductive hub_step :: "'a hub_env_scheme \<Rightarrow> Hub \<Rightarrow> Hub \<Rightarrow> bool" for E where
  step: "enabled e H \<Longrightarrow> hub_step E H (perform E e H)"

inductive hub_run :: "'a hub_env_scheme \<Rightarrow> Hub \<Rightarrow> Hub \<Rightarrow> bool" for E where
  stop: "hub_run E H H"
| more: "hub_run E H H1 \<Longrightarrow> hub_step E H1 H2 \<Longrightarrow> hub_run E H H2"

inductive_cases hub_stepE: "hub_step E H H'"

lemma run_invariant:
  assumes "hub_run E H H'" and "I H"
    and "\<And>e G. I G \<Longrightarrow> enabled e G \<Longrightarrow> I (perform E e G)"
  shows "I H'"
  using assms(1,2) by (induction rule: hub_run.induct) (auto elim!: hub_stepE intro: assms(3))

lemma run_relation:
  assumes "hub_run E H H'" and "\<And>G. R G G"
    and "\<And>A B C. R A B \<Longrightarrow> R B C \<Longrightarrow> R A C"
    and "\<And>e G. enabled e G \<Longrightarrow> R G (perform E e G)"
  shows "R H H'"
  using assms(1) by (induction rule: hub_run.induct) (auto elim!: hub_stepE intro: assms(2,3,4))

section \<open>Bounds\<close>

lemma bounded_records3 [bound]:
  "bounded G \<Longrightarrow> bounded (G\<lparr>rpos := p\<rparr>)" "bounded G \<Longrightarrow> bounded (G\<lparr>RawConns := n\<rparr>)"
  "bounded G \<Longrightarrow> bounded (G\<lparr>clock := t\<rparr>)" "bounded G \<Longrightarrow> bounded (AddClient a r G)"
  "bounded G \<Longrightarrow> bounded (close_raw G)"
  by (simp_all add: bounded_def AddClient_def close_raw_def)

lemma bounded_new_obj [bound]:
  "bounded G \<Longrightarrow> length (SendChan c) \<le> 100 \<Longrightarrow> bounded (G\<lparr>objs := (objs G)(r := c), next_obj := n\<rparr>)"
  by (simp add: bounded_def)

lemma bounded_set_obj [bound]:
  "bounded G \<Longrightarrow> length (SendChan c) \<le> 100 \<Longrightarrow> bounded (upd_obj r (\<lambda>_. c) G)"
  by (simp add: bounded_def upd_obj_def)

lemma SendChan_new_client [simp]: "SendChan (new_client a h k t) = []"
  by (simp add: new_client_def empty_client_def)

lemma bounded_register [bound]: "bounded H \<Longrightarrow> bounded (snd (hs_register E a h k H))"
  by (simp add: hs_register_def Let_def bound split: option.split)

lemma bounded_welcome [bound]: "bounded H \<Longrightarrow> bounded (hs_welcome E r a n b H)"
  by (simp add: hs_welcome_def welcome_member_def enroll_member_def Let_def case_prod_beta bound)

lemma bounded_greet [bound]: "bounded H \<Longrightarrow> bounded (snd (hs_greet E a H))"
  by (simp add: hs_greet_def Let_def case_prod_beta bound split: option.split sum.split)

lemma bounded_flags [bound]:
  "bounded G \<Longrightarrow> bounded (upd_obj r (\<lambda>c. c\<lparr>Pumping := a, Reading := b\<rparr>) G)"
  "bounded G \<Longrightarrow> bounded (upd_obj r (\<lambda>c. c\<lparr>Reading := b\<rparr>) G)"
  "bounded G \<Longrightarrow> bounded (upd_obj r (\<lambda>c. c\<lparr>LastSeen := t\<rparr>) G)"
  by simp_all

lemma bounded_answer [bound]: "bounded H \<Longrightarrow> bounded (snd (hs_answer E a p n pl up H))"
  by (auto simp: hs_answer_def Let_def case_prod_beta bound split: option.split hs_verdict.split)

lemma bounded_connect [bound]: "bounded H \<Longrightarrow> bounded (connect E a p up H)"
proof -
  assume "bounded H"
  then have "bounded (snd (accept H))"
    by (simp add: accept_def Let_def bound)
  moreover have "bounded (snd (handleConnection E a p up G))" if "bounded G" for G
  proof -
    have "bounded (snd (hs_greet E a G))" using that by (rule bounded_greet)
    then show ?thesis
      by (auto simp: handleConnection_def Let_def case_prod_beta bound split: option.split prod.split)
  qed
  ultimately show ?thesis by (simp add: connect_def case_prod_beta)
qed

lemma bounded_write [bound]: "bounded H \<Longrightarrow> bounded (write_pump r H)"
  by (auto simp: write_pump_def bounded_def upd_obj_def Let_def split: list.split sum.split)
     (metis Suc_leD length_Cons)+

lemma bounded_ping [bound]: "bounded H \<Longrightarrow> bounded (ping_one E bs r H)"
  by (simp add: ping_one_def Let_def bound)

lemma bounded_fold [bound]:
  "(\<And>x G. bounded G \<Longrightarrow> bounded (g x G)) \<Longrightarrow> bounded H \<Longrightarrow> bounded (fold g xs H)"
  by (induction xs arbitrary: H) simp_all

lemma bounded_expire [bound]: "bounded H \<Longrightarrow> bounded (expire_messages E H)"
proof -
  assume b: "bounded H"
  obtain n m where c: "CleanupOldMessages (clock H) (DBManager H) = (n, m)" by fastforce
  have "memory_ok m" "mlimit m = mlimit (DBManager H)"
    using memory_ok_ops(3) [of "DBManager H" "clock H"] mlimit_ops(2) [of "clock H" "DBManager H"] b
    by (simp_all add: c bounded_def)
  with b have "bounded (H\<lparr>DBManager := m\<rparr>)" by (simp add: bounded_def)
  then show ?thesis by (simp add: expire_messages_def c Let_def bound)
qed

lemma bounded_upload [bound]: "bounded H \<Longrightarrow> bounded (snd (http_upload E q H))"
  by (auto simp: http_upload_def Let_def bound split: option.split prod.split)

lemma bounded_delete [bound]: "bounded H \<Longrightarrow> bounded (vault_delete n H)"
  by (simp add: vault_delete_def bounded_def)

lemma perform_bounded: "bounded H \<Longrightarrow> bounded (perform E e H)"
  by (cases e)
     (simp_all add: bound read_pump_def read_end_def heartbeat_def case_prod_beta vault_sweep_def)

section \<open>Who is who\<close>

text \<open>
  The identity invariant: the manager's map is keyed by address and holds made objects with
  usable session keys; a nickname in use belongs to one signing key; a whitelisted nickname
  belongs to one signing key; and the two agree.
\<close>

definition live :: "Hub \<Rightarrow> nat set" where
  "live H = snd ` set (clients H)"

definition ident :: "Client \<Rightarrow> string \<times> string \<times> bytes \<times> bytes" where
  "ident c = (Nickname c, Address c, SigningPubKey c, EncryptionKey c)"

definition id_inv :: "Hub \<Rightarrow> bool" where
  "id_inv H \<longleftrightarrow>
     distinct (map fst (clients H)) \<and>
     (\<forall>x \<in> set (clients H). snd x < next_obj H \<and> Address (objs H (snd x)) = fst x) \<and>
     (\<forall>r \<in> live H. aes_key_ok (EncryptionKey (objs H r))) \<and>
     (\<forall>r \<in> live H. \<forall>s \<in> live H. Nickname (objs H r) = Nickname (objs H s) \<longrightarrow>
        SigningPubKey (objs H r) = SigningPubKey (objs H s)) \<and>
     (\<forall>r \<in> live H. \<forall>x \<in> set (WhitelistMap H). snd x = Nickname (objs H r) \<longrightarrow>
        fst x = Base64Encode (SigningPubKey (objs H r))) \<and>
     (\<forall>x \<in> set (WhitelistMap H). \<forall>y \<in> set (WhitelistMap H). snd x = snd y \<longrightarrow> fst x = fst y)"

text \<open>Everything the invariant reads.\<close>

definition same_ident :: "Hub \<Rightarrow> Hub \<Rightarrow> bool" where
  "same_ident H H' \<longleftrightarrow>
     clients H' = clients H \<and> next_obj H' = next_obj H \<and> (\<forall>r. ident (objs H' r) = ident (objs H r))"

lemma same_identD:
  assumes "same_ident H H'"
  shows "clients H' = clients H" "next_obj H' = next_obj H" "live H' = live H"
    "Nickname (objs H' r) = Nickname (objs H r)" "Address (objs H' r) = Address (objs H r)"
    "SigningPubKey (objs H' r) = SigningPubKey (objs H r)"
    "EncryptionKey (objs H' r) = EncryptionKey (objs H r)"
  using assms by (auto simp: same_ident_def ident_def live_def)

lemma id_inv_cong:
  assumes "same_ident H H'" and "WhitelistMap H' = WhitelistMap H"
  shows "id_inv H' = id_inv H"
  unfolding id_inv_def assms(2) same_identD [OF assms(1)] ..

lemma id_inv_parts:
  assumes "id_inv H"
  shows "distinct (map fst (clients H))"
    and "x \<in> set (clients H) \<Longrightarrow> snd x < next_obj H \<and> Address (objs H (snd x)) = fst x"
    and "r \<in> live H \<Longrightarrow> aes_key_ok (EncryptionKey (objs H r))"
  using assms unfolding id_inv_def by blast+

lemma id_inv_nick:
  "id_inv H \<Longrightarrow> r \<in> live H \<Longrightarrow> s \<in> live H \<Longrightarrow> Nickname (objs H r) = Nickname (objs H s) \<Longrightarrow>
   SigningPubKey (objs H r) = SigningPubKey (objs H s)"
  unfolding id_inv_def by (elim conjE) (drule (1) bspec, drule (1) bspec, erule (1) mp)

lemma id_inv_white:
  assumes "id_inv H" and "r \<in> live H" and "(k, Nickname (objs H r)) \<in> set (WhitelistMap H)"
  shows "k = Base64Encode (SigningPubKey (objs H r))"
proof -
  have "\<forall>r \<in> live H. \<forall>x \<in> set (WhitelistMap H). snd x = Nickname (objs H r) \<longrightarrow>
      fst x = Base64Encode (SigningPubKey (objs H r))"
    using assms(1) unfolding id_inv_def by (elim conjE)
  from bspec [OF bspec [OF this assms(2)] assms(3)] show ?thesis by simp
qed

lemma id_inv_owner:
  assumes "id_inv H" and "(k, v) \<in> set (WhitelistMap H)" and "(k', v) \<in> set (WhitelistMap H)"
  shows "k = k'"
proof -
  have "\<forall>x \<in> set (WhitelistMap H). \<forall>y \<in> set (WhitelistMap H). snd x = snd y \<longrightarrow> fst x = fst y"
    using assms(1) unfolding id_inv_def by (elim conjE)
  from bspec [OF bspec [OF this assms(2)] assms(3)] show ?thesis by simp
qed

lemma id_invI:
  assumes "distinct (map fst (clients H))"
    and "\<And>x. x \<in> set (clients H) \<Longrightarrow> snd x < next_obj H \<and> Address (objs H (snd x)) = fst x"
    and "\<And>r. r \<in> live H \<Longrightarrow> aes_key_ok (EncryptionKey (objs H r))"
    and "\<And>r s. r \<in> live H \<Longrightarrow> s \<in> live H \<Longrightarrow> Nickname (objs H r) = Nickname (objs H s) \<Longrightarrow>
      SigningPubKey (objs H r) = SigningPubKey (objs H s)"
    and "\<And>r k. r \<in> live H \<Longrightarrow> (k, Nickname (objs H r)) \<in> set (WhitelistMap H) \<Longrightarrow>
      k = Base64Encode (SigningPubKey (objs H r))"
    and "\<And>k k' v. (k, v) \<in> set (WhitelistMap H) \<Longrightarrow> (k', v) \<in> set (WhitelistMap H) \<Longrightarrow> k = k'"
  shows "id_inv H"
  unfolding id_inv_def
proof (intro conjI ballI impI)
  show "fst x = Base64Encode (SigningPubKey (objs H r))"
    if "r \<in> live H" "x \<in> set (WhitelistMap H)" "snd x = Nickname (objs H r)" for r x
    using assms(5) [of r "fst x"] that by (cases x) simp
  show "fst x = fst y"
    if "x \<in> set (WhitelistMap H)" "y \<in> set (WhitelistMap H)" "snd x = snd y" for x y
    using assms(6) [of "fst x" "snd x" "fst y"] that by (cases x, cases y) simp
  show "snd x < next_obj H" "Address (objs H (snd x)) = fst x" if "x \<in> set (clients H)" for x
    using assms(2) [OF that] by simp_all
  show "distinct (map fst (clients H))" by (rule assms(1))
  show "aes_key_ok (EncryptionKey (objs H r))" if "r \<in> live H" for r
    by (rule assms(3) [OF that])
  show "SigningPubKey (objs H r) = SigningPubKey (objs H s)"
    if "r \<in> live H" "s \<in> live H" "Nickname (objs H r) = Nickname (objs H s)" for r s
    by (rule assms(4) [OF that])
qed

lemma set_update: "set (AList.update k v al) \<subseteq> insert (k, v) (set al)"
  by (induction al) auto

lemma set_delete: "set (AList.delete k al) \<subseteq> set al"
  by (simp add: AList.delete_eq)

lemma id_inv_whitelist:
  assumes "id_inv H" and "same_ident H H'" and "r \<in> live H"
    and "set (WhitelistMap H') \<subseteq>
      insert (Base64Encode (SigningPubKey (objs H r)), Nickname (objs H r)) (set (WhitelistMap H))"
  shows "id_inv H'"
proof (rule id_invI)
  note same = same_identD [OF assms(2)]
  let ?pub = "Base64Encode (SigningPubKey (objs H r))"
  have old: "k = ?pub \<or> (k, v) \<in> set (WhitelistMap H)" "k = ?pub \<Longrightarrow> v = Nickname (objs H r) \<or> (k, v) \<in> set (WhitelistMap H)"
    if "(k, v) \<in> set (WhitelistMap H')" for k v
    using that assms(4) by auto
  show "distinct (map fst (clients H'))"
    "\<And>x. x \<in> set (clients H') \<Longrightarrow> snd x < next_obj H' \<and> Address (objs H' (snd x)) = fst x"
    "\<And>s. s \<in> live H' \<Longrightarrow> aes_key_ok (EncryptionKey (objs H' s))"
    using id_inv_parts [OF assms(1)] by (simp_all add: same)
  show "SigningPubKey (objs H' s) = SigningPubKey (objs H' t)"
    if "s \<in> live H'" "t \<in> live H'" "Nickname (objs H' s) = Nickname (objs H' t)" for s t
    using that unfolding same by (rule id_inv_nick [OF assms(1)])
  show "k = Base64Encode (SigningPubKey (objs H' s))"
    if "s \<in> live H'" "(k, Nickname (objs H' s)) \<in> set (WhitelistMap H')" for s k
  proof (cases "(k, Nickname (objs H s)) \<in> set (WhitelistMap H)")
    case True
    then show ?thesis using id_inv_white [OF assms(1)] that(1) by (simp add: same)
  next
    case False
    then have "k = ?pub" "Nickname (objs H s) = Nickname (objs H r)"
      using that(2) assms(4) by (auto simp: same)
    then show ?thesis using id_inv_nick [OF assms(1) _ assms(3)] that(1) by (simp add: same)
  qed
  show "k = k'" if "(k, v) \<in> set (WhitelistMap H')" "(k', v) \<in> set (WhitelistMap H')" for k k' v
  proof -
    have "k = k'" if "(k, v) \<in> set (WhitelistMap H)" "(k', v) \<in> set (WhitelistMap H)"
      using id_inv_owner [OF assms(1) that] .
    moreover have "k = ?pub" if "(k, Nickname (objs H r)) \<in> set (WhitelistMap H)" for k
      using id_inv_white [OF assms(1,3) that] .
    ultimately show ?thesis using that assms(4) by auto
  qed
qed

lemma id_inv_fewer:
  assumes "id_inv H" and "same_ident H H'" and "set (WhitelistMap H') \<subseteq> set (WhitelistMap H)"
  shows "id_inv H'"
proof (rule id_invI)
  note same = same_identD [OF assms(2)]
  show "distinct (map fst (clients H'))"
    "\<And>x. x \<in> set (clients H') \<Longrightarrow> snd x < next_obj H' \<and> Address (objs H' (snd x)) = fst x"
    "\<And>s. s \<in> live H' \<Longrightarrow> aes_key_ok (EncryptionKey (objs H' s))"
    using id_inv_parts [OF assms(1)] by (simp_all add: same)
  show "SigningPubKey (objs H' s) = SigningPubKey (objs H' t)"
    if "s \<in> live H'" "t \<in> live H'" "Nickname (objs H' s) = Nickname (objs H' t)" for s t
    using that unfolding same by (rule id_inv_nick [OF assms(1)])
  show "k = Base64Encode (SigningPubKey (objs H' s))"
    if "s \<in> live H'" "(k, Nickname (objs H' s)) \<in> set (WhitelistMap H')" for s k
    using id_inv_white [OF assms(1)] that assms(3) by (auto simp: same)
  show "k = k'" if "(k, v) \<in> set (WhitelistMap H')" "(k', v) \<in> set (WhitelistMap H')" for k k' v
    using id_inv_owner [OF assms(1)] that assms(3) by blast
qed

subsection \<open>Handlers that change nobody's identity\<close>

lemma same_ident_talks: "talks H H' \<Longrightarrow> same_ident H H'"
  unfolding talks_def same_ident_def ident_def
  by (auto dest: settledD client_fields [OF settledD(17)])

context talking
begin

lemma same_ident_f: "same_ident H (f H)"
  by (rule same_ident_talks [OF talks_f])

lemma id_inv_f [simp]: "id_inv (f H) = id_inv H"
  by (rule id_inv_cong [OF same_ident_f]) simp

end

lemma same_ident_upd: "(\<And>c. ident (f c) = ident c) \<Longrightarrow> same_ident H (upd_obj r f H)"
  by (simp add: same_ident_def upd_obj_apply)

lemma id_inv_upd [simp]: "(\<And>c. ident (f c) = ident c) \<Longrightarrow> id_inv (upd_obj r f H) = id_inv H"
  by (rule id_inv_cong [OF same_ident_upd]) simp_all

lemma id_inv_records [simp]:
  "id_inv (H\<lparr>pending := ps\<rparr>) = id_inv H" "id_inv (H\<lparr>Stats := t\<rparr>) = id_inv H"
  "id_inv (H\<lparr>Admins := a\<rparr>) = id_inv H" "id_inv (H\<lparr>RawConns := j\<rparr>) = id_inv H"
  "id_inv (H\<lparr>rpos := i\<rparr>) = id_inv H" "id_inv (H\<lparr>clock := x\<rparr>) = id_inv H"
  "id_inv (H\<lparr>disk := d\<rparr>) = id_inv H" "id_inv (H\<lparr>Rooms := g\<rparr>) = id_inv H"
  "id_inv (H\<lparr>BlacklistMap := b\<rparr>) = id_inv H" "id_inv (H\<lparr>DBManager := m\<rparr>) = id_inv H"
  "id_inv (saveACL E H) = id_inv H" "id_inv (rememberAdmin E p n H) = id_inv H"
  "id_inv (BumpEpoch E H) = id_inv H"
  by (rule id_inv_cong; simp add: same_ident_def ident_def)+

lemma ident_updates [simp]:
  "ident (c\<lparr>State := s\<rparr>) = ident c" "ident (c\<lparr>IsAdmin := b\<rparr>) = ident c"
  "ident (c\<lparr>ConnOpen := b\<rparr>) = ident c" "ident (c\<lparr>MessageCount := m\<rparr>) = ident c"
  "ident (c\<lparr>LastSeen := t\<rparr>) = ident c" "ident (c\<lparr>Reading := b\<rparr>) = ident c"
  "ident (c\<lparr>Pumping := b, Reading := b'\<rparr>) = ident c" "ident (c\<lparr>SendChan := q, Pumping := b\<rparr>) = ident c"
  "ident (c\<lparr>SendChan := q, Written := w\<rparr>) = ident c"
  "ident (snd (allowMessage now c)) = ident c"
  by (simp_all add: ident_def allowMessage_def Let_def)

lemma id_inv_roles: "roles H' = roles H \<Longrightarrow> id_inv H' = id_inv H"
proof -
  assume r: "roles H' = roles H"
  have same: "same_ident H (roles H)" "WhitelistMap (roles H) = WhitelistMap H" for H
    by (simp_all add: same_ident_def roles_def ident_def)
  have "id_inv H = id_inv (roles H)" "id_inv H' = id_inv (roles H')"
    using id_inv_cong [OF same] by simp_all
  with r show ?thesis by simp
qed

lemma ApproveClient_ident: "same_ident H (snd (ApproveClient E n H))"
  by (cases "GetClientByNickname n H")
     (simp_all add: ApproveClient_def Let_def same_ident_def ident_def upd_obj_apply)

lemma BlockClient_ident: "same_ident H (snd (BlockClient E n H))"
  by (cases "GetClientByNickname n H")
     (simp_all add: BlockClient_def Let_def same_ident_def ident_def)

lemma found_live: "GetClientByNickname n H = Some r \<Longrightarrow> r \<in> live H"
  using by_nick_found [of n H r] by (simp add: GetAllClients_def live_def)

lemma Approve_id_inv:
  assumes "id_inv H"
  shows "id_inv (snd (ApproveClient E n H))"
proof (cases "GetClientByNickname n H")
  case None
  with assms show ?thesis by (simp add: ApproveClient_none)
next
  case (Some r)
  have "n = Nickname (objs H r)" using by_nick_found [OF Some] by simp
  then have "set (WhitelistMap (snd (ApproveClient E n H))) \<subseteq>
      insert (Base64Encode (SigningPubKey (objs H r)), Nickname (objs H r)) (set (WhitelistMap H))"
    unfolding ApproveClient_effect(4) [OF Some] by (simp add: set_update)
  then show ?thesis
    by (rule id_inv_whitelist [OF assms ApproveClient_ident found_live [OF Some]])
qed

lemma Block_id_inv:
  assumes "id_inv H"
  shows "id_inv (snd (BlockClient E n H))"
proof (cases "GetClientByNickname n H")
  case None
  with assms show ?thesis by (simp add: BlockClient_def)
next
  case (Some r)
  show ?thesis
    by (rule id_inv_fewer [OF assms BlockClient_ident])
       (simp add: BlockClient_effect(5) [OF Some] set_delete)
qed

lemma id_inv_delete:
  assumes "id_inv H"
  shows "id_inv (H\<lparr>clients := AList.delete a (clients H)\<rparr>)"
proof (rule id_invI)
  let ?H = "H\<lparr>clients := AList.delete a (clients H)\<rparr>"
  have sub: "live ?H \<subseteq> live H" by (auto simp: live_def AList.delete_eq)
  show "distinct (map fst (clients ?H))"
    using id_inv_parts(1) [OF assms] by (simp add: distinct_delete)
  show "snd x < next_obj ?H \<and> Address (objs ?H (snd x)) = fst x" if "x \<in> set (clients ?H)" for x
    using id_inv_parts(2) [OF assms, of x] that set_delete [of a "clients H"] by auto
  show "aes_key_ok (EncryptionKey (objs ?H r))" if "r \<in> live ?H" for r
    using id_inv_parts(3) [OF assms, of r] that sub by auto
  show "SigningPubKey (objs ?H r) = SigningPubKey (objs ?H s)"
    if "r \<in> live ?H" "s \<in> live ?H" "Nickname (objs ?H r) = Nickname (objs ?H s)" for r s
    using id_inv_nick [OF assms, of r s] that sub by (simp add: subset_iff)
  show "k = Base64Encode (SigningPubKey (objs ?H r))"
    if "r \<in> live ?H" "(k, Nickname (objs ?H r)) \<in> set (WhitelistMap ?H)" for r k
    using id_inv_white [OF assms, of r k] that sub by auto
  show "k = k'" if "(k, v) \<in> set (WhitelistMap ?H)" "(k', v) \<in> set (WhitelistMap ?H)" for k k' v
    using id_inv_owner [OF assms, of k v k'] that by simp
qed

lemma removeClient_id_inv: "id_inv H \<Longrightarrow> id_inv (removeClient E r H)"
  by (simp add: removeClient_def RemoveClient_def Let_def case_prod_beta id_inv_delete)

lemma handler_id_inv:
  assumes "id_inv H"
  shows "id_inv (handleAnn E r args H)" "id_inv (handleOp E r args H)"
    "id_inv (handleApprove E r args H)" "id_inv (handleBlock E r args H)"
    "id_inv (handleKick E r args H)" "id_inv (handleRoom E r args H)"
  using assms
  by (simp_all add: handleAnn_def handleOp_def handleApprove_def handleBlock_def handleKick_def
      handleRoom_def Let_def case_prod_beta Approve_id_inv Block_id_inv removeClient_id_inv
      split: option.split)

lemma Handle_id_inv: "id_inv H \<Longrightarrow> id_inv (Handle E r input H)"
  by (auto simp: Handle_def registry_lookup handler_id_inv split: list.split)

lemma FilePut_id_inv: "id_inv H \<Longrightarrow> id_inv (handleFilePut E r msg H)"
  by (rule iffD2 [OF id_inv_roles [OF roles_FilePut]])

lemma dispatch_id_inv: "id_inv H \<Longrightarrow> id_inv (dispatch E r msg H)"
  by (simp add: dispatch_def handleCommand_def Let_def Handle_id_inv FilePut_id_inv)

lemma process_id_inv: "id_inv H \<Longrightarrow> id_inv (processClientMessage E r txt H)"
proof (cases "open_message E (objs H r) txt")
  case (Some msg)
  assume inv: "id_inv H"
  have "id_inv (upd_obj r (\<lambda>_. snd (allowMessage (clock H) (objs H r))) H)"
    by (rule iffD2 [OF id_inv_cong inv]) (simp_all add: same_ident_def upd_obj_apply)
  then show ?thesis
    using inv by (simp add: processClientMessage_def Some Let_def case_prod_beta dispatch_id_inv)
qed (simp add: processClientMessage_def)

subsection \<open>The handshake\<close>

lemma hs_verify_pass:
  "hs_verify E priv nonce payload H = Pass hello key \<longleftrightarrow>
     pb_hello_dec E payload = Some hello \<and> h_X25519Pub hello \<noteq> [] \<and>
     CompatibleVersion (h_Version hello) Version \<and>
     h_Nickname hello \<noteq> [] \<and> length (h_Nickname hello) \<le> 32 \<and>
     VerifyPoW E nonce (h_PowNonce hello) PoWDifficulty = Some True \<and>
     DeriveSharedKey E priv (h_X25519Pub hello) = Some key \<and>
     Verify E (h_SigningPub hello) nonce (h_Signature hello) \<and>
     (\<forall>k. (k, h_Nickname hello) \<in> set (WhitelistMap H) \<longrightarrow> k = Base64Encode (h_SigningPub hello)) \<and>
     map_of (BlacklistMap H) (h_Identity hello) = None \<and>
     GetClientByNickname (h_Nickname hello) H = None"
  by (auto simp: hs_verify_def Let_def split: option.splits if_splits)

lemma Base64_inj: "Base64Encode a = Base64Encode b \<longleftrightarrow> a = b"
  by (metis Base64_roundtrip option.inject)

text \<open>A client \<open>r\<close> that was not there before is entered under an address.\<close>

lemma entered_live:
  assumes "clients H' = AList.update a r (clients H)" and "s \<in> live H'"
  shows "s = r \<or> s \<in> live H"
  using assms(2) set_update [of a r "clients H"] by (auto simp: live_def assms(1))

lemma entered_same:
  assumes "id_inv H" and "\<And>q. q \<noteq> next_obj H \<Longrightarrow> ident (objs H' q) = ident (objs H q)" and "s \<in> live H"
  shows "Nickname (objs H' s) = Nickname (objs H s)" "Address (objs H' s) = Address (objs H s)"
    "SigningPubKey (objs H' s) = SigningPubKey (objs H s)" "EncryptionKey (objs H' s) = EncryptionKey (objs H s)"
proof -
  obtain x where "x \<in> set (clients H)" "s = snd x" using assms(3) unfolding live_def by blast
  then have "s < next_obj H" using id_inv_parts(2) [OF assms(1), of x] by simp
  then have "ident (objs H' s) = ident (objs H s)" by (intro assms(2)) simp
  then show "Nickname (objs H' s) = Nickname (objs H s)" "Address (objs H' s) = Address (objs H s)"
    "SigningPubKey (objs H' s) = SigningPubKey (objs H s)" "EncryptionKey (objs H' s) = EncryptionKey (objs H s)"
    by (simp_all add: ident_def)
qed

text \<open>If the new client's nickname is borne only by clients of its key, a nickname still stands for one
  key.\<close>

lemma entered_nick:
  assumes "id_inv H" and "\<And>s. s \<in> live H' \<Longrightarrow> s = r \<or> s \<in> live H"
    and "\<And>s. s \<in> live H \<Longrightarrow> Nickname (objs H' s) = Nickname (objs H s) \<and> SigningPubKey (objs H' s) = SigningPubKey (objs H s)"
    and "\<And>s. s \<in> live H \<Longrightarrow> Nickname (objs H s) = Nickname (objs H' r) \<Longrightarrow> SigningPubKey (objs H s) = SigningPubKey (objs H' r)"
    and "s \<in> live H'" "t \<in> live H'" "Nickname (objs H' s) = Nickname (objs H' t)"
  shows "SigningPubKey (objs H' s) = SigningPubKey (objs H' t)"
proof -
  have pub: "SigningPubKey (objs H' u) = SigningPubKey (objs H' r)"
    if "u \<in> live H'" "Nickname (objs H' u) = Nickname (objs H' r)" for u
    using assms(2) [OF that(1)] assms(3,4) [of u] that(2) by auto
  show ?thesis
  proof (cases "s = r \<or> t = r")
    case True
    then show ?thesis using pub [OF assms(5)] pub [OF assms(6)] assms(7) by auto
  next
    case False
    then have old: "s \<in> live H" "t \<in> live H" using assms(2) assms(5,6) by blast+
    then show ?thesis using id_inv_nick [OF assms(1) old] assms(3,7) by simp
  qed
qed

lemma id_inv_enter:
  assumes inv: "id_inv H"
    and H': "clients H' = AList.update a r (clients H)" "r = next_obj H" "next_obj H' = Suc r"
      "WhitelistMap H' = WhitelistMap H" "\<And>q. q \<noteq> r \<Longrightarrow> ident (objs H' q) = ident (objs H q)"
    and r: "ident (objs H' r) = (n, a, pub, key)" "aes_key_ok key"
    and own: "\<And>k. (k, n) \<in> set (WhitelistMap H) \<Longrightarrow> k = Base64Encode pub"
    and free: "\<And>s. s \<in> live H \<Longrightarrow> Nickname (objs H s) = n \<Longrightarrow> SigningPubKey (objs H s) = pub"
  shows "id_inv H'"
proof (rule id_invI)
  note live = entered_live [OF H'(1)] and same = entered_same [OF inv H'(5) [unfolded H'(2)]]
  have new: "Nickname (objs H' r) = n" "Address (objs H' r) = a" "SigningPubKey (objs H' r) = pub"
    "EncryptionKey (objs H' r) = key" using r(1) by (simp_all add: ident_def)
  show "distinct (map fst (clients H'))"
    unfolding H'(1) by (rule distinct_update) (rule id_inv_parts(1) [OF inv])
  show "snd x < next_obj H' \<and> Address (objs H' (snd x)) = fst x" if "x \<in> set (clients H')" for x
  proof (cases "x = (a, r)")
    case True
    then show ?thesis by (simp add: H'(3) new)
  next
    case False
    then have x: "x \<in> set (clients H)" using that set_update [of a r "clients H"] by (auto simp: H'(1))
    then have "snd x \<in> live H" by (simp add: live_def)
    then show ?thesis
      using id_inv_parts(2) [OF inv x] by (simp add: H'(2,3) same(2) less_SucI)
  qed
  show "aes_key_ok (EncryptionKey (objs H' s))" if "s \<in> live H'" for s
    using live [OF that] r(2) id_inv_parts(3) [OF inv] same(4) new(4) by auto
  show "SigningPubKey (objs H' s) = SigningPubKey (objs H' t)"
    if "s \<in> live H'" "t \<in> live H'" "Nickname (objs H' s) = Nickname (objs H' t)" for s t
    by (rule entered_nick [OF inv live _ _ that]) (use free same(1,3) new in simp_all)
  show "k = Base64Encode (SigningPubKey (objs H' s))"
    if "s \<in> live H'" "(k, Nickname (objs H' s)) \<in> set (WhitelistMap H')" for s k
    using live [OF that(1)] that(2) own id_inv_white [OF inv, of s] same(1,3) [of s] new(1,3) H'(4) by auto
  show "k = k'" if "(k, v) \<in> set (WhitelistMap H')" "(k', v) \<in> set (WhitelistMap H')" for k k' v
    using id_inv_owner [OF inv] that unfolding H'(4) by blast
qed

lemma register_id_inv:
  assumes "id_inv H" and "kdf_sizes E"
    and "hs_verify E priv nonce payload H = Pass hello key"
  shows "id_inv (snd (hs_register E a hello key H))"
proof -
  note pass = assms(3) [unfolded hs_verify_pass]
  have "DeriveSharedKey E priv (h_X25519Pub hello) = Some key" using pass by blast
  then have key: "aes_key_ok key" by (intro aes_key_32) (rule shared_key_size [OF assms(2)])
  let ?pub = "h_SigningPub hello"
  have nick: "SigningPubKey (objs H s) = ?pub"
    if "s \<in> live H" "Nickname (objs H s) = h_Nickname hello" for s
    using that pass by (auto simp: by_nick_none GetAllClients_def live_def)
  show ?thesis
  proof (cases "map_of (WhitelistMap H) (Base64Encode ?pub)")
    case None
    show ?thesis
    proof (rule id_inv_enter [OF assms(1), where a = a and r = "next_obj H" and n = "h_Nickname hello"
          and pub = ?pub and key = key])
      show "k = Base64Encode ?pub" if "(k, h_Nickname hello) \<in> set (WhitelistMap H)" for k
        using pass that by auto
    qed (simp_all add: hs_register_def None Let_def AddClient_def ident_def new_client_def
        key nick del: distinct_map)
  next
    case (Some m)
    then have m: "(Base64Encode ?pub, m) \<in> set (WhitelistMap H)" by (rule map_of_SomeD)
    show ?thesis
    proof (rule id_inv_enter [OF assms(1), where a = a and r = "next_obj H" and n = m
          and pub = ?pub and key = key])
      show "k = Base64Encode ?pub" if "(k, m) \<in> set (WhitelistMap H)" for k
        using id_inv_owner [OF assms(1) that m] .
      show "SigningPubKey (objs H s) = ?pub" if "s \<in> live H" "Nickname (objs H s) = m" for s
        using id_inv_white [OF assms(1) that(1), of "Base64Encode ?pub"] m that(2) by (simp add: Base64_inj)
    qed (simp_all add: hs_register_def Some Let_def AddClient_def ident_def new_client_def
        upd_obj_apply key)
  qed
qed

lemma register_live: "fst (fst (hs_register E a hello key H)) \<in> live (snd (hs_register E a hello key H))"
proof -
  have "(a, r) \<in> set (AList.update a r cs)" for r :: nat and cs
    by (induction cs) auto
  then show ?thesis
    by (auto simp: hs_register_def Let_def AddClient_def live_def image_iff split: option.split
        intro!: bexI [of _ "(a, next_obj H)"])
qed

lemma live_talks: "talks H H' \<Longrightarrow> live H' = live H"
  by (rule same_identD(3) [OF same_ident_talks])

lemma enroll_id_inv:
  assumes "id_inv H" and "r \<in> live H"
  shows "id_inv (enroll_member E r H)"
proof -
  have "id_inv (H\<lparr>WhitelistMap :=
      AList.update (Base64Encode (SigningPubKey (objs H r))) (Nickname (objs H r)) (WhitelistMap H)\<rparr>)"
    by (rule id_inv_whitelist [OF assms(1) _ assms(2)]) (simp_all add: same_ident_def set_update)
  with assms(1) show ?thesis by (simp add: enroll_member_def Let_def)
qed

lemma welcome_same: "same_ident H (welcome_member E r a H)"
    "WhitelistMap (welcome_member E r a H) = WhitelistMap H"
  by (simp_all add: welcome_member_def Let_def same_ident_def ident_def upd_obj_apply)

lemma welcome_id_inv:
  assumes "id_inv H" and "r \<in> live H"
  shows "id_inv (hs_welcome E r a n known H)"
proof -
  have "id_inv (welcome_member E r a H)"
    using assms(1) id_inv_cong [OF welcome_same] by blast
  moreover have "r \<in> live (welcome_member E r a H)"
    using assms(2) same_identD(3) [OF welcome_same(1) [of H E r a]] by simp
  ultimately have "id_inv (enroll_member E r (welcome_member E r a H))"
    by (rule enroll_id_inv)
  with assms(1) show ?thesis by (simp add: hs_welcome_def Let_def case_prod_beta)
qed

end
