(* ===== verification/HubSafety.thy ===== *)
theory HubSafety
  imports HubStep
begin

text \<open>
  What every run of the hub keeps: the identity invariant, the vault token once it is set,
  and that files are written only in the vault and for the access lists.
\<close>

section \<open>The identity invariant over runs\<close>

lemma greet_id_inv [simp]: "id_inv (snd (hs_greet E a H)) = id_inv H"
  by (simp add: hs_greet_def Let_def case_prod_beta split: option.split sum.split)

lemma accept_id_inv [simp]: "id_inv (snd (accept H)) = id_inv H"
  by (simp add: accept_def Let_def)

lemma answer_id_inv:
  assumes "id_inv H" and "kdf_sizes E"
  shows "id_inv (snd (hs_answer E a priv nonce payload up H))"
proof (cases payload)
  case None
  with assms show ?thesis by (simp add: hs_answer_def)
next
  case (Some b)
  show ?thesis
  proof (cases "hs_verify E priv nonce b H")
    case (Pass hello key)
    let ?reg = "hs_register E a hello key H"
    have inv: "id_inv (snd ?reg)" by (rule register_id_inv [OF assms Pass])
    have "id_inv (hs_welcome E (fst (fst ?reg)) a n k (snd ?reg))" for n k
      by (rule welcome_id_inv [OF inv register_live])
    then have "id_inv (upd_obj r (\<lambda>c. c\<lparr>Pumping := True, Reading := True\<rparr>)
        (hs_welcome E (fst (fst ?reg)) a n k (snd ?reg)))" for r n k
      by (subst id_inv_upd) (simp_all add: ident_def)
    moreover have "id_inv (upd_obj r (\<lambda>c. c\<lparr>ConnOpen := False\<rparr>) (snd ?reg))" for r
      using inv by simp
    ultimately show ?thesis
      by (auto simp: hs_answer_def Some Pass Let_def case_prod_beta split: option.split)
  qed (simp_all add: hs_answer_def Some assms)
qed

lemma close_raw_id_inv [simp]: "id_inv (close_raw H) = id_inv H"
  by (simp add: close_raw_def)

lemma connect_id_inv:
  assumes "id_inv H" and "kdf_sizes E"
  shows "id_inv (connect E a p up H)"
proof -
  have "id_inv (snd (handleConnection E a p up G))" if "id_inv G" for G
  proof -
    obtain g G1 where g: "hs_greet E a G = (g, G1)" by fastforce
    then have "id_inv G1" using that greet_id_inv [of E a G] by simp
    then show ?thesis
      using answer_id_inv [OF _ assms(2)]
      by (auto simp: handleConnection_def g Let_def case_prod_beta split: option.split prod.split)
  qed
  then show ?thesis using assms(1) by (simp add: connect_def case_prod_beta)
qed

lemma fold_id_inv: "(\<And>x G. id_inv G \<Longrightarrow> id_inv (g x G)) \<Longrightarrow> id_inv H \<Longrightarrow> id_inv (fold g xs H)"
  by (induction xs arbitrary: H) simp_all

lemma ping_id_inv: "id_inv H \<Longrightarrow> id_inv (ping_one E bs r H)"
  by (simp add: ping_one_def Let_def)

lemma write_id_inv: "id_inv H \<Longrightarrow> id_inv (write_pump r H)"
  by (simp add: write_pump_def Let_def split: list.split sum.split)

lemma upload_id_inv: "id_inv H \<Longrightarrow> id_inv (snd (http_upload E q H))"
  by (auto simp: http_upload_def Let_def split: option.split prod.split)

lemma expire_id_inv: "id_inv H \<Longrightarrow> id_inv (expire_messages E H)"
  by (simp add: expire_messages_def Let_def case_prod_beta)

lemma panel_op_id_inv: "id_inv H \<Longrightarrow> id_inv (panel_op E r H)"
  by (simp add: panel_op_def ident_def)

lemma panel_kick_id_inv: "id_inv H \<Longrightarrow> id_inv (panel_kick E r H)"
  by (simp add: panel_kick_def Let_def)

lemma panel_id_inv: "id_inv H \<Longrightarrow> id_inv (snd (executeAdminCommand E val (p, H)))"
  by (simp add: executeAdminCommand_def Let_def case_prod_beta panel_op_id_inv panel_kick_id_inv
      Approve_id_inv Block_id_inv split: list.split option.split)

lemma perform_id_inv: "id_inv H \<Longrightarrow> kdf_sizes E \<Longrightarrow> id_inv (perform E e H)"
  by (cases e)
     (simp_all add: connect_id_inv read_pump_def process_id_inv read_end_def removeClient_id_inv
        write_id_inv delayed_removal_def heartbeat_def case_prod_beta fold_id_inv ping_id_inv
        expire_id_inv vault_sweep_def upload_id_inv panel_id_inv vault_delete_def)

section \<open>The vault over runs\<close>

definition may_write :: "'a hub_env_scheme \<Rightarrow> string list \<Rightarrow> string \<Rightarrow> bool" where
  "may_write E ws p \<longleftrightarrow>
     p = aclPath E \<or> p = aclPath E @ ''.tmp'' \<or>
     (good_comp (Base p) \<and> p = abs_path (ws @ [Base p]))"

definition safe :: "'a hub_env_scheme \<Rightarrow> string list \<Rightarrow> Hub \<Rightarrow> Hub \<Rightarrow> bool" where
  "safe E ws H H' \<longleftrightarrow>
     VaultDir H' = VaultDir H \<and> (VaultToken H \<noteq> [] \<longrightarrow> VaultToken H' = VaultToken H) \<and>
     (vault_at E ws H \<longrightarrow> (\<forall>p. disk H' p \<noteq> disk H p \<longrightarrow> may_write E ws p))"

lemma safe_refl [simp, intro]: "safe E ws H H"
  by (simp add: safe_def)

lemma safe_trans: "safe E ws A B \<Longrightarrow> safe E ws B C \<Longrightarrow> safe E ws A C"
  unfolding safe_def vault_at_def by metis

named_theorems safety \<open>introduction rules for \<open>safe\<close>\<close>

lemmas safe_refl [safety]

lemma safe_if [safety]: "safe E ws H A \<Longrightarrow> safe E ws H B \<Longrightarrow> safe E ws H (if b then A else B)"
  by simp

lemma safe_step:
  assumes "safe E ws H A"
    and "VaultDir B = VaultDir A" and "VaultToken A \<noteq> [] \<Longrightarrow> VaultToken B = VaultToken A"
    and "\<And>p. p \<noteq> aclPath E \<Longrightarrow> p \<noteq> aclPath E @ ''.tmp'' \<Longrightarrow> disk B p = disk A p"
  shows "safe E ws H B"
proof -
  have "safe E ws A B" using assms(2-4) by (auto simp: safe_def may_write_def)
  with assms(1) show ?thesis by (rule safe_trans)
qed

context talking
begin

lemma safe_f [safety]: "safe E ws H H' \<Longrightarrow> safe E ws H (f H')"
  by (erule safe_step) simp_all

end

lemma saveACL_elsewhere:
  assumes "p \<noteq> aclPath E" "p \<noteq> aclPath E @ ''.tmp''"
  shows "disk (saveACL E H) p = disk H p"
proof -
  obtain d where d: "saveACL E H = H\<lparr>disk := d\<rparr>"
    "\<forall>p. p \<noteq> aclPath E \<and> p \<noteq> aclPath E @ ''.tmp'' \<longrightarrow> d p = disk H p"
    using saveACL_disk by blast
  from d(2) assms show ?thesis unfolding d(1) by simp
qed

lemma rememberAdmin_elsewhere:
  "p \<noteq> aclPath E \<Longrightarrow> p \<noteq> aclPath E @ ''.tmp'' \<Longrightarrow> disk (rememberAdmin E k n H) p = disk H p"
  by (simp add: rememberAdmin_def saveACL_elsewhere)

lemma safe_saves [safety]:
  "safe E ws H H' \<Longrightarrow> safe E ws H (saveACL E H')"
  "safe E ws H H' \<Longrightarrow> safe E ws H (rememberAdmin E k n H')"
  "safe E ws H H' \<Longrightarrow> safe E ws H (BumpEpoch E H')"
  by (erule safe_step; simp add: saveACL_elsewhere rememberAdmin_elsewhere)+

lemma safe_updates [safety]:
  "safe E ws H H' \<Longrightarrow> safe E ws H (upd_obj r f H')"
  "safe E ws H H' \<Longrightarrow> safe E ws H (H'\<lparr>WhitelistMap := w, BlacklistMap := b\<rparr>)"
  "safe E ws H H' \<Longrightarrow> safe E ws H (H'\<lparr>WhitelistMap := w\<rparr>)"
  "safe E ws H H' \<Longrightarrow> safe E ws H (H'\<lparr>BlacklistMap := b, WhitelistMap := w, Admins := m\<rparr>)"
  "safe E ws H H' \<Longrightarrow> safe E ws H (H'\<lparr>pending := ps\<rparr>)"
  "safe E ws H H' \<Longrightarrow> safe E ws H (H'\<lparr>clients := cs\<rparr>)"
  "safe E ws H H' \<Longrightarrow> safe E ws H (H'\<lparr>Rooms := g\<rparr>)"
  "safe E ws H H' \<Longrightarrow> safe E ws H (H'\<lparr>Stats := t\<rparr>)"
  "safe E ws H H' \<Longrightarrow> safe E ws H (H'\<lparr>rpos := i\<rparr>)"
  "safe E ws H H' \<Longrightarrow> safe E ws H (H'\<lparr>clock := j\<rparr>)"
  "safe E ws H H' \<Longrightarrow> safe E ws H (H'\<lparr>DBManager := d\<rparr>)"
  "safe E ws H H' \<Longrightarrow> safe E ws H (H'\<lparr>objs := os, next_obj := i\<rparr>)"
  "safe E ws H H' \<Longrightarrow> safe E ws H (AddClient a r H')"
  "safe E ws H H' \<Longrightarrow> safe E ws H (close_raw H')"
  "safe E ws H H' \<Longrightarrow> safe E ws H (H'\<lparr>RawConns := j\<rparr>)"
  by (erule safe_step; simp add: AddClient_def close_raw_def)+

lemma safe_fold [safety]:
  "(\<And>x G. safe E ws H G \<Longrightarrow> safe E ws H (g x G)) \<Longrightarrow> safe E ws H H' \<Longrightarrow> safe E ws H (fold g xs H')"
  by (induction xs arbitrary: H') simp_all

lemma safe_members [safety]:
  "safe E ws H H' \<Longrightarrow> safe E ws H (snd (ApproveClient E n H'))"
  "safe E ws H H' \<Longrightarrow> safe E ws H (snd (BlockClient E n H'))"
  "safe E ws H H' \<Longrightarrow> safe E ws H (removeClient E r H')"
  by (simp_all add: ApproveClient_def BlockClient_def removeClient_def RemoveClient_def Let_def
      case_prod_beta safety split: option.split)

lemma safe_handlers [safety]:
  assumes "safe E ws H H'"
  shows "safe E ws H (handleAnn E r args H')" "safe E ws H (handleOp E r args H')"
    "safe E ws H (handleApprove E r args H')" "safe E ws H (handleBlock E r args H')"
    "safe E ws H (handleKick E r args H')" "safe E ws H (handleRoom E r args H')"
  using assms
  by (simp_all add: handleAnn_def handleOp_def handleApprove_def handleBlock_def handleKick_def
      handleRoom_def Let_def case_prod_beta safety split: option.split)

lemma safe_Handle [safety]: "safe E ws H H' \<Longrightarrow> safe E ws H (Handle E r input H')"
  by (auto simp: Handle_def registry_lookup safety split: list.split)

lemma Base_child:
  assumes "good_comp n"
  shows "Base (abs_path (ws @ [n])) = n"
proof -
  have n: "n \<noteq> []" "slash \<notin> set n" using assms by (auto simp: good_comp_def)
  obtain p where "abs_path (ws @ [n]) = p @ slash # n"
    by (cases "ws = []") (auto simp: abs_path_def Join_snoc intro: that [of "[]"] that)
  moreover have "dropWhile (\<lambda>c. c = slash) (rev n @ s) = rev n @ s" for s
    using n by (cases "rev n") auto
  moreover have "takeWhile (\<lambda>c. c \<noteq> slash) (rev n @ slash # s) = rev n" for s
    using n by (induction "rev n" arbitrary: n) (auto simp: takeWhile_append)
  ultimately show ?thesis using n by (simp add: Base_def Let_def)
qed

lemma may_write_child: "good_comp n \<Longrightarrow> may_write E ws (abs_path (ws @ [n]))"
  by (simp add: may_write_def Base_child)

lemma safe_put [safety]: "safe E ws H H' \<Longrightarrow> safe E ws H (handleFilePut E r msg H')"
proof -
  assume h: "safe E ws H H'"
  have "safe E ws H' (handleFilePut E r msg H')"
    unfolding safe_def
  proof (intro conjI impI allI)
    show "VaultDir (handleFilePut E r msg H') = VaultDir H'"
      "VaultToken (handleFilePut E r msg H') = VaultToken H'"
      by (simp_all add: handleFilePut_def Let_def split: option.split)
    show "may_write E ws p"
      if "vault_at E ws H'" "disk (handleFilePut E r msg H') p \<noteq> disk H' p" for p
      using put_confined [OF that] may_write_child by blast
  qed
  with h show ?thesis by (rule safe_trans)
qed

lemma safe_upload [safety]: "safe E ws H H' \<Longrightarrow> safe E ws H (snd (http_upload E q H'))"
proof -
  assume h: "safe E ws H H'"
  have "safe E ws H' (snd (http_upload E q H'))"
    unfolding safe_def
  proof (intro conjI impI allI)
    show "VaultDir (snd (http_upload E q H')) = VaultDir H'"
      "VaultToken (snd (http_upload E q H')) = VaultToken H'"
      by (auto simp: http_upload_def Let_def split: option.split prod.split)
    show "may_write E ws p"
      if "vault_at E ws H'" "disk (snd (http_upload E q H')) p \<noteq> disk H' p" for p
      using upload_confined [OF that] may_write_child by blast
  qed
  with h show ?thesis by (rule safe_trans)
qed

lemma safe_process [safety]: "safe E ws H H' \<Longrightarrow> safe E ws H (processClientMessage E r txt H')"
  by (cases "open_message E (objs H' r) txt")
     (simp_all add: processClientMessage_def dispatch_def handleCommand_def Let_def case_prod_beta safety)

lemma safe_greet [safety]: "safe E ws H H' \<Longrightarrow> safe E ws H (snd (hs_greet E a H'))"
  by (simp add: hs_greet_def Let_def case_prod_beta safety split: option.split sum.split)

lemma safe_register [safety]: "safe E ws H H' \<Longrightarrow> safe E ws H (snd (hs_register E a h k H'))"
  by (simp add: hs_register_def Let_def case_prod_beta safety split: option.split)

lemma safe_welcome [safety]: "safe E ws H H' \<Longrightarrow> safe E ws H (hs_welcome E r a n k H')"
  by (simp add: hs_welcome_def welcome_member_def enroll_member_def Let_def case_prod_beta safety)

lemma safe_answer [safety]: "safe E ws H H' \<Longrightarrow> safe E ws H (snd (hs_answer E a p n pl up H'))"
  by (auto simp: hs_answer_def Let_def case_prod_beta safety split: option.split hs_verdict.split)

lemma safe_connect [safety]:
  assumes "safe E ws H H'"
  shows "safe E ws H (connect E a p up H')"
proof -
  have "safe E ws H (snd (accept H'))"
    using assms by (simp add: accept_def Let_def safety)
  moreover have "safe E ws H (snd (handleConnection E a p up G))" if "safe E ws H G" for G
  proof -
    obtain g G1 where g: "hs_greet E a G = (g, G1)" by fastforce
    then have "safe E ws H G1" using safe_greet [OF that, of a] by simp
    then show ?thesis
      by (auto simp: handleConnection_def g Let_def case_prod_beta safety split: option.split prod.split)
  qed
  ultimately show ?thesis using assms by (simp add: connect_def case_prod_beta)
qed

lemma child_of_vault:
  assumes p: "p = JoinPath [abs_path ws, Base p]" and ws: "\<forall>w \<in> set ws. good_comp w" "ws \<noteq> []"
  shows "good_comp (Base p) \<and> p = abs_path (ws @ [Base p])"
proof (cases "good_comp (Base p)")
  case True
  with p JoinPath_child [OF ws(1) _ ws(2)] show ?thesis by metis
next
  case False
  then obtain vs where vs: "p = abs_path vs" "vs = ws \<or> vs = butlast ws"
    using vault_path [OF ws, of p] p by auto
  have good: "\<forall>w \<in> set vs. good_comp w" using vs(2) ws(1) by (auto dest: in_set_butlastD)
  show ?thesis
  proof (cases "vs = []")
    case True
    then have "Base p = [slash]" by (simp add: vs(1) Base_def abs_path_def)
    then have "abs_path vs = abs_path ws" using p JoinPath_slash [OF ws] vs(1) by simp
    then show ?thesis using abs_path_inj [OF good ws(1)] True ws(2) by simp
  next
    case False
    then have v: "vs = butlast vs @ [last vs]" "good_comp (last vs)" using good by simp_all
    have "Base p = last vs" using Base_child [OF v(2), of "butlast vs"] v(1) vs(1) by simp
    with v(2) \<open>\<not> good_comp (Base p)\<close> show ?thesis by simp
  qed
qed

text \<open>The sweep removes only files that lie in the vault.\<close>

lemma safe_sweep [safety]: "safe E ws H H' \<Longrightarrow> safe E ws H (vault_sweep H')"
proof -
  assume h: "safe E ws H H'"
  have "safe E ws H' (vault_sweep H')"
    unfolding safe_def
  proof (intro conjI impI allI)
    show "VaultDir (vault_sweep H') = VaultDir H'" "VaultToken (vault_sweep H') = VaultToken H'"
      by (simp_all add: vault_sweep_def)
    show "may_write E ws p" if v: "vault_at E ws H'" and d: "disk (vault_sweep H') p \<noteq> disk H' p" for p
    proof -
      from d have "p = JoinPath [VaultDir H', Base p]"
        by (auto simp: vault_sweep_def in_dir_def split: option.splits if_splits)
      with v have "good_comp (Base p) \<and> p = abs_path (ws @ [Base p])"
        by (intro child_of_vault) (simp_all add: vault_at_def)
      then show ?thesis by (simp add: may_write_def)
    qed
  qed
  with h show ?thesis by (rule safe_trans)
qed

lemma safe_pumps [safety]:
  assumes "safe E ws H H'"
  shows "safe E ws H (write_pump r H')" "safe E ws H (ping_one E bs r H')"
    "safe E ws H (expire_messages E H')"
  using assms
  by (simp_all add: write_pump_def ping_one_def expire_messages_def Let_def case_prod_beta safety
      split: list.split sum.split)

lemma safe_panel [safety]: "safe E ws H H' \<Longrightarrow> safe E ws H (snd (executeAdminCommand E val (p, H')))"
proof -
  assume h: "safe E ws H H'"
  have "safe E ws H (panel_kick E r H')" for r
    using h by (simp add: panel_kick_def Let_def safety)
  moreover have "safe E ws H (panel_op E r H')" for r
    using h by (simp add: panel_op_def safety)
  moreover have "safe E ws H (H'\<lparr>DBManager := m\<rparr>)" for m
    using h by (rule safe_step) simp_all
  ultimately show ?thesis
    using h
    by (simp add: executeAdminCommand_def Let_def case_prod_beta safety split: list.split option.split)
qed

lemma safe_delete:
  assumes "good_comp n"
  shows "safe E ws H (vault_delete n H)"
proof -
  have b: "Base n = n" using assms by (rule Base_comp)
  show ?thesis
    using JoinPath_child [of ws n] assms may_write_child [OF assms, of E ws]
    by (auto simp: safe_def vault_delete_def SafeJoin_def b vault_at_def remove_disk_def split: if_splits)
qed

lemma perform_safe: "enabled e H \<Longrightarrow> safe E ws H (perform E e H)"
  by (cases e)
     (simp_all add: safe_delete safety read_pump_def read_end_def delayed_removal_def heartbeat_def case_prod_beta)

lemma run_safe: "hub_run E H H' \<Longrightarrow> safe E ws H H'"
  by (erule run_relation) (auto intro: safe_trans perform_safe)

end
