(* ===== verification/Instances.thy ===== *)
theory Instances
  imports HubSafety
begin

text \<open>
  A concrete environment in which every hypothesis about foreign code holds: a sealing that
  appends sixteen zero bytes, key derivations that return zeros, signatures that verify, and
  codecs that write every field as a self-delimiting string. It shows that the hypotheses
  can hold together and lets the examples compute.
\<close>

section \<open>Self-delimiting strings\<close>

fun enc_str :: "string \<Rightarrow> bytes" where
  "enc_str [] = [byte 0]"
| "enc_str (c # s) = byte 1 # c # enc_str s"

fun dec_str :: "bytes \<Rightarrow> (string \<times> bytes) option" where
  "dec_str [] = None"
| "dec_str (x # r) =
     (if x = byte 0 then Some ([], r)
      else (case r of [] \<Rightarrow> None | c # r' \<Rightarrow> map_option (\<lambda>(s, t). (c # s, t)) (dec_str r')))"

lemma dec_enc_str: "dec_str (enc_str s @ rest) = Some (s, rest)"
  by (induction s) simp_all

interpretation demo_strings: framing enc_str dec_str "\<lambda>_. True"
  by unfold_locales (rule dec_enc_str)

definition enc_strs :: "string list \<Rightarrow> bytes" where
  "enc_strs l = concat (map enc_str l)"

fun dec_strs :: "nat \<Rightarrow> bytes \<Rightarrow> string list option" where
  "dec_strs n [] = Some []"
| "dec_strs 0 (b # bs) = None"
| "dec_strs (Suc n) (b # bs) =
     (case dec_str (b # bs) of None \<Rightarrow> None | Some (s, r) \<Rightarrow> map_option ((#) s) (dec_strs n r))"

lemma enc_str_nonempty: "enc_str s \<noteq> []"
  by (cases s) simp_all

lemma length_enc_str: "length (enc_str s) = Suc (2 * length s)"
  by (induction s) simp_all

lemma dec_enc_strs: "length l \<le> n \<Longrightarrow> dec_strs n (enc_strs l) = Some l"
proof (induction l arbitrary: n)
  case (Cons s l)
  then obtain m where n: "n = Suc m" by (cases n) auto
  obtain b bs where e: "enc_str s @ enc_strs l = b # bs"
    using enc_str_nonempty [of s] by (cases "enc_str s") auto
  have "dec_str (b # bs) = Some (s, enc_strs l)" using dec_enc_str [of s "enc_strs l"] e by simp
  with Cons e show ?case by (simp add: n enc_strs_def)
qed (simp add: enc_strs_def)

lemma length_enc_strs: "length l \<le> length (enc_strs l)"
proof (induction l)
  case (Cons s l)
  have "Suc 0 \<le> length (enc_str s)" by (cases s) simp_all
  with Cons show ?case by (simp add: enc_strs_def)
qed simp

definition strs_of :: "bytes \<Rightarrow> string list option" where
  "strs_of b = dec_strs (length b) b"

lemma strs_of_enc [simp]: "strs_of (enc_strs l) = Some l"
  by (simp add: strs_of_def dec_enc_strs length_enc_strs)

section \<open>Fields as strings\<close>

definition of_bool_str :: "bool \<Rightarrow> string" where
  "of_bool_str b = (if b then ''1'' else [])"

definition of_nat_str :: "nat \<Rightarrow> string" where
  "of_nat_str n = replicate n (CHR ''1'')"

definition of_int_str :: "int \<Rightarrow> string" where
  "of_int_str i = (if i < 0 then CHR ''-'' # of_nat_str (nat (- i)) else of_nat_str (nat i))"

definition to_int :: "string \<Rightarrow> int" where
  "to_int s = (case s of c # t \<Rightarrow> if c = CHR ''-'' then - int (length t) else int (length s) | [] \<Rightarrow> 0)"

lemma to_int_of [simp]: "to_int (of_int_str i) = i"
proof (cases "i < 0")
  case False
  then show ?thesis
    by (cases "nat i") (auto simp: to_int_def of_int_str_def of_nat_str_def split: list.split)
qed (simp add: to_int_def of_int_str_def of_nat_str_def)

lemma of_bool_str_nonempty [simp]: "(of_bool_str b \<noteq> []) = b"
  by (simp add: of_bool_str_def)

lemma length_of_nat_str [simp]: "length (of_nat_str n) = n"
  by (simp add: of_nat_str_def)

section \<open>The messages\<close>

definition chat_enc :: "ChatMessage \<Rightarrow> bytes option" where
  "chat_enc m = Some (enc_strs
     ([Type m, Content m, Sender m, Timestamp m, of_bool_str (MsgIsAdmin m), Signature m, PubKey m,
       of_bool_str (IsE2Ee m), ReplyTo m, FileId m, of_int_str (ChunkIdx m),
       of_int_str (TotalChunks m), OnionAddr m, of_nat_str (unat (RatchetStep m)), MessageId m,
       FileToken m] @ Mentions m))"

definition chat_dec :: "bytes \<Rightarrow> ChatMessage option" where
  "chat_dec b =
     (case strs_of b of
        Some (ty # c # s # t # a # sg # pk # e # rt # f # ci # tc # oa # rs # mid # ft # ms) \<Rightarrow>
          Some \<lparr>Type = ty, Content = c, Sender = s, Timestamp = t, MsgIsAdmin = (a \<noteq> []),
            Signature = sg, PubKey = pk, IsE2Ee = (e \<noteq> []), ReplyTo = rt, Mentions = ms, FileId = f,
            ChunkIdx = to_int ci, TotalChunks = to_int tc, OnionAddr = oa,
            RatchetStep = of_nat (length rs), MessageId = mid, FileToken = ft\<rparr>
      | _ \<Rightarrow> None)"

lemma chat_codec: "chat_enc m = Some b \<Longrightarrow> chat_dec b = Some m"
  by (auto simp: chat_enc_def chat_dec_def)

definition ke_enc :: "KeyExchange \<Rightarrow> bytes option" where
  "ke_enc m = Some (enc_strs [ke_X25519Pub m, ke_Nonce m, of_nat_str (unat (ke_PowDifficulty m)),
     ke_Version m])"

definition ke_dec :: "bytes \<Rightarrow> KeyExchange option" where
  "ke_dec b =
     (case strs_of b of
        Some [p, n, d, v] \<Rightarrow>
          Some \<lparr>ke_X25519Pub = p, ke_Nonce = n, ke_PowDifficulty = of_nat (length d), ke_Version = v\<rparr>
      | _ \<Rightarrow> None)"

definition hello_enc :: "ClientHello \<Rightarrow> bytes option" where
  "hello_enc m = Some (enc_strs
     [h_X25519Pub m, h_Nickname m, h_Identity m, h_SigningPub m, h_Signature m,
      of_nat_str (unat (h_PowNonce m)), h_E2EPub m, h_Version m])"

definition hello_dec :: "bytes \<Rightarrow> ClientHello option" where
  "hello_dec b =
     (case strs_of b of
        Some [x, n, i, sp, sg, pn, e, v] \<Rightarrow>
          Some \<lparr>h_X25519Pub = x, h_Nickname = n, h_Identity = i, h_SigningPub = sp,
            h_Signature = sg, h_PowNonce = of_nat (length pn), h_E2EPub = e, h_Version = v\<rparr>
      | _ \<Rightarrow> None)"

definition ok_enc :: "HandshakeOk \<Rightarrow> bytes option" where
  "ok_enc m = Some (enc_strs [of_nat_str (unat (ok_VaultPort m)), ok_Version m,
     of_bool_str (ok_Approved m)])"

definition ok_dec :: "bytes \<Rightarrow> HandshakeOk option" where
  "ok_dec b =
     (case strs_of b of
        Some [p, v, a] \<Rightarrow>
          Some \<lparr>ok_VaultPort = of_nat (length p), ok_Version = v, ok_Approved = (a \<noteq> [])\<rparr>
      | _ \<Rightarrow> None)"

definition err_enc :: "HandshakeErr \<Rightarrow> bytes option" where
  "err_enc m = Some (enc_strs [err_Reason m])"

definition err_dec :: "bytes \<Rightarrow> HandshakeErr option" where
  "err_dec b = (case strs_of b of Some [r] \<Rightarrow> Some \<lparr>err_Reason = r\<rparr> | _ \<Rightarrow> None)"

definition map_enc :: "strmap option \<Rightarrow> string" where
  "map_enc m = (case m of None \<Rightarrow> [] | Some al \<Rightarrow> byte 1 # enc_strs (concat (map (\<lambda>(k, v). [k, v]) al)))"

fun pairs :: "string list \<Rightarrow> strmap" where
  "pairs (k # v # r) = (k, v) # pairs r"
| "pairs _ = []"

definition map_dec :: "string \<Rightarrow> strmap option" where
  "map_dec s = (case s of [] \<Rightarrow> None | c # r \<Rightarrow> map_option pairs (strs_of r))"

lemma pairs_concat: "pairs (concat (map (\<lambda>(k, v). [k, v]) al)) = al"
  by (induction al) auto

lemma map_codec [simp]: "map_dec (map_enc m) = m"
  by (cases m) (simp_all add: map_enc_def map_dec_def pairs_concat)

definition acl_enc :: "aclFile \<Rightarrow> bytes option" where
  "acl_enc f = Some (enc_strs [map_enc (f_Whitelist f), map_enc (f_Blacklist f), map_enc (f_Admins f),
     f_VaultToken f])"

definition acl_dec :: "bytes \<Rightarrow> aclFile option" where
  "acl_dec b =
     (case strs_of b of
        Some [w, bl, a, t] \<Rightarrow>
          Some \<lparr>f_Whitelist = map_dec w, f_Blacklist = map_dec bl, f_Admins = map_dec a,
            f_VaultToken = t\<rparr>
      | _ \<Rightarrow> None)"

section \<open>The environment\<close>

definition zeros :: "nat \<Rightarrow> bytes" where
  "zeros n = replicate n (byte 0)"

definition demo_open :: "bytes \<Rightarrow> bytes \<Rightarrow> bytes \<Rightarrow> bytes \<Rightarrow> bytes option" where
  "demo_open k n c a =
     (if 16 \<le> length c \<and> drop (length c - 16) c = zeros 16 then Some (take (length c - 16) c) else None)"

definition demo_host :: "'m \<Rightarrow> 'm host_scheme" where
  "demo_host m =
     \<lparr>rnd = (\<lambda>_. byte 7), gcm_seal = (\<lambda>k n p a. p @ zeros 16), gcm_open = demo_open,
      sha256 = (\<lambda>_. zeros 32), hmac_sha256 = (\<lambda>_ _. zeros 32), x25519 = (\<lambda>_ _. Some (zeros 32)),
      x25519_base = zeros 32, hkdf_sha256 = (\<lambda>_ _. zeros 32), pbkdf2_sha256 = (\<lambda>_ _ _. zeros 32),
      ed25519_sign = (\<lambda>_ _. zeros 64), ed25519_verify = (\<lambda>_ _ _. True),
      pb_chat = chat_enc, pb_chat_dec = chat_dec, pb_ke = ke_enc, pb_ke_dec = ke_dec,
      pb_hello = hello_enc, pb_hello_dec = hello_dec, pb_ok = ok_enc, pb_ok_dec = ok_dec,
      pb_err = err_enc, pb_err_dec = err_dec, fmt_stamp = (\<lambda>_. ''t''), fmt_clock = (\<lambda>_. ''c''),
      app_root = ''/h'', workdir = [], can_write = (\<lambda>_. True), copy_ok = (\<lambda>_. True),
      is_dir = (\<lambda>p. p = ''/'' \<or> p = ''/h'' \<or> p = ''/h/vault''), \<dots> = m\<rparr>"

definition demo :: hub_env where
  "demo = demo_host (hub_env.fields acl_enc acl_dec)"

lemma length_zeros [simp]: "length (zeros n) = n"
  by (simp add: zeros_def)

lemma demo_host_fields [simp]:
  "rnd (demo_host m) n = byte 7"
  "sha256 (demo_host m) x = zeros 32" "hmac_sha256 (demo_host m) k x = zeros 32"
  "x25519 (demo_host m) u v = Some (zeros 32)" "x25519_base (demo_host m) = zeros 32"
  "hkdf_sha256 (demo_host m) s i = zeros 32" "pbkdf2_sha256 (demo_host m) s i n = zeros 32"
  "ed25519_verify (demo_host m) pk d sg" "ed25519_sign (demo_host m) sk d = zeros 64"
  "app_root (demo_host m) = ''/h''"
  "pb_hello_dec (demo_host m) = hello_dec" "pb_hello (demo_host m) = hello_enc"
  "pb_chat (demo_host m) = chat_enc" "pb_chat_dec (demo_host m) = chat_dec"
  "pb_err (demo_host m) = err_enc" "pb_err_dec (demo_host m) = err_dec"
  "pb_ok (demo_host m) = ok_enc" "pb_ok_dec (demo_host m) = ok_dec"
  "pb_ke (demo_host m) = ke_enc" "pb_ke_dec (demo_host m) = ke_dec"
  "can_write (demo_host m) p" "copy_ok (demo_host m) p" "fmt_stamp (demo_host m) now = ''t''"
  "is_dir (demo_host m) p \<longleftrightarrow> p = ''/'' \<or> p = ''/h'' \<or> p = ''/h/vault''"
  by (simp_all add: demo_host_def)

lemma demo_fields [simp]:
  "sha256 demo x = zeros 32" "hmac_sha256 demo k x = zeros 32" "x25519 demo u v = Some (zeros 32)"
  "hkdf_sha256 demo s i = zeros 32" "ed25519_verify demo pk d sg" "app_root demo = ''/h''"
  "pb_hello_dec demo = hello_dec" "pb_hello demo = hello_enc" "pb_chat demo = chat_enc"
  "pb_chat_dec demo = chat_dec" "pb_err demo = err_enc" "pb_err_dec demo = err_dec"
  "pb_ok demo = ok_enc" "can_write demo p" "copy_ok demo p"
  "is_dir demo p \<longleftrightarrow> p = ''/'' \<or> p = ''/h'' \<or> p = ''/h/vault''"
  by (simp_all add: demo_def)

lemma demo_acl_fields [simp]: "acl_json demo = acl_enc" "acl_unjson demo = acl_dec"
  by (simp_all add: demo_def demo_host_def hub_env.defs)

lemma int_of_zeros [simp]: "int_of_bytes (zeros n) = 0"
  by (induction n) (simp_all add: int_of_bytes_def zeros_def)

lemma demo_host_gcm:
  "gcm_correct (demo_host m)" "gcm_authentic (demo_host m)" "gcm_overhead (demo_host m)"
proof -
  have "drop (length c - 16) c = zeros 16 \<Longrightarrow> c = take (length c - 16) c @ zeros 16" for c
    by (metis append_take_drop_id)
  then show "gcm_correct (demo_host m)" "gcm_authentic (demo_host m)" "gcm_overhead (demo_host m)"
    by (auto simp: gcm_correct_def gcm_authentic_def gcm_overhead_def demo_host_def demo_open_def
        split: if_splits)
qed

lemma demo_host_keys: "dh_commutes (demo_host m)" "kdf_sizes (demo_host m)"
  by (simp_all add: dh_commutes_def kdf_sizes_def)

lemma demo_host_pb:
  "pb_chat_ok (demo_host m)" "pb_ascii_ok (demo_host m)" "pb_handshake_ok (demo_host m)"
  by (auto simp: pb_chat_ok_def pb_ascii_ok_def pb_handshake_ok_def chat_codec ascii_def
      chat_enc_def ke_enc_def ke_dec_def hello_enc_def hello_dec_def ok_enc_def ok_dec_def
      err_enc_def err_dec_def)

lemma demo_host_wire_ok: "wire_ok (demo_host m)"
  by (simp add: wire_ok_def demo_host_gcm demo_host_pb)

lemmas demo_gcm = demo_host_gcm [of "hub_env.fields acl_enc acl_dec", folded demo_def]
lemmas demo_keys = demo_host_keys [of "hub_env.fields acl_enc acl_dec", folded demo_def]
lemmas demo_pb = demo_host_pb [of "hub_env.fields acl_enc acl_dec", folded demo_def]
lemmas demo_wire_ok = demo_host_wire_ok [of "hub_env.fields acl_enc acl_dec", folded demo_def]

lemma demo_acl: "acl_json demo f = Some b \<Longrightarrow> acl_unjson demo b = Some f"
  by (auto simp: acl_enc_def acl_dec_def)

end
