(* ===== verification/KeyProperties.thy ===== *)
theory KeyProperties
  imports SenderKeys Instances
begin

text \<open>
  Properties of the end-to-end key material: ratchets, sender keys, file chunks, proof of
  work and key wrapping. \<open>demo\<close> (theory \<open>Instances\<close>) is the environment of the examples.
\<close>

section \<open>A sender and a receiver\<close>

fun send_many :: "hmac \<Rightarrow> nat \<Rightarrow> SenderState \<Rightarrow> (bytes \<times> 32 word) option list \<times> SenderState" where
  "send_many H 0 s = ([], s)"
| "send_many H (Suc k) s =
     (let (m, s1) = NextSend H s; (ms, s2) = send_many H k s1 in (m # ms, s2))"

fun recv_many ::
  "hmac \<Rightarrow> string \<Rightarrow> 32 word list \<Rightarrow> SenderState \<Rightarrow> (32 word \<times> (recv_error + bytes)) list \<times> SenderState" where
  "recv_many H nick [] s = ([], s)"
| "recv_many H nick (t # ts) s =
     (let (a, s1) = Recv H nick t s; (as, s2) = recv_many H nick ts s1 in ((t, a) # as, s2))"

definition answered :: "(32 word \<times> (recv_error + bytes)) list \<Rightarrow> 32 word list" where
  "answered as = map fst (filter (\<lambda>a. case snd a of Inr _ \<Rightarrow> True | Inl _ \<Rightarrow> False) as)"

lemma send_many_keys:
  assumes "own_chain s = Some r" and "ratchet_inv H seed used r"
    and "unat (rstep r) + k < 2 ^ 32" and "i < k"
  shows "fst (send_many H k s) ! i =
    Some (key_at H seed (unat (rstep r) + i), of_nat (unat (rstep r) + i))"
  using assms
proof (induction k arbitrary: s r used i)
  case (Suc k)
  have top: "rstep r \<noteq> - 1"
  proof
    assume "rstep r = - 1"
    then have "unat (rstep r) = 2 ^ 32 - 1" by (simp add: unat_top)
    with Suc.prems(3) show False by simp
  qed
  obtain r' where r': "Next H r = ((key_at H seed (unat (rstep r)), rstep r), r')"
    "ratchet_inv H seed (insert (rstep r) used) r'" "rstep r' = rstep r + 1"
    using Next_inv [OF Suc.prems(2) top] by blast
  note send = send_own [OF Suc.prems(1) r'(1)]
  have u: "unat (rstep r') = Suc (unat (rstep r))" by (simp add: r'(3) unat_inc_ne [OF top])
  show ?case
  proof (cases i)
    case 0
    then show ?thesis using send(1) by (simp add: case_prod_beta)
  next
    case (Suc j)
    have "fst (send_many H k (snd (NextSend H s))) ! j =
        Some (key_at H seed (unat (rstep r') + j), of_nat (unat (rstep r') + j))"
      using Suc.prems Suc by (intro Suc.IH [OF send(2) r'(2)]) (simp_all add: u)
    then show ?thesis by (simp add: Suc case_prod_beta u)
  qed
qed simp

lemma recv_many_chain:
  "peer_chain s nick = Some r \<Longrightarrow>
   map (\<lambda>x. (fst x, map_sum RatchetError id (snd x))) (fst (rat.recvs H ts r)) =
     fst (recv_many H nick ts s)"
proof (induction ts arbitrary: s r)
  case (Cons t ts)
  obtain a r' where g: "GetMessageKey H t r = (a, r')" by fastforce
  note recv = recv_peer [OF Cons.prems g]
  show ?case using Cons.IH [OF recv(2)] recv(1) by (simp add: g case_prod_beta id_def)
qed simp

lemma answered_served:
  "answered (map (\<lambda>x. (fst x, map_sum RatchetError id (snd x))) as) = rat.served as"
proof (induction as)
  case (Cons a as)
  then show ?case by (cases a; cases "snd a") (auto simp: answered_def rat.served_def)
qed (simp add: answered_def rat.served_def)

lemma GetMessageKey_window:
  assumes "ratchet_inv H seed used r" and "t \<noteq> - 1"
  shows "(case GetMessageKey H t r of
            (Inr k, r') \<Rightarrow> t \<notin> used \<and> (t < rstep r \<or> t - rstep r \<le> 100) \<and>
               k = key_at H seed (unat t) \<and> ratchet_inv H seed (insert t used) r'
          | (Inl e, r') \<Rightarrow> (t \<in> used \<or> \<not> (t < rstep r \<or> t - rstep r \<le> 100)) \<and> r' = r)"
proof -
  obtain a r' where g: "GetMessageKey H t r = (a, r')" by fastforce
  show ?thesis
  proof (cases a)
    case (Inl e)
    have "t \<in> used \<or> \<not> (t < rstep r \<or> t - rstep r \<le> 100)"
      using GetMessageKey_complete [OF assms(1), of t] g Inl by auto
    then show ?thesis using GetMessageKey_error [of H t r e r'] g Inl by simp
  next
    case (Inr k)
    have "t < rstep r \<or> t - rstep r \<le> 100"
    proof (cases "skippedKeys r t")
      case (Some mk)
      then show ?thesis using assms(1) by (auto simp: ratchet_inv_def)
    next
      case None
      then show ?thesis using g Inr by (auto simp: GetMessageKey_def Let_def split: if_splits)
    qed
    then show ?thesis using GetMessageKey_inv [OF assms, of k r'] g Inr by simp
  qed
qed

lemma peer_answers:
  assumes "senders_ok b"
  shows "fst (Recv H nick t (AdoptPeer nick seed b)) =
    (if unat t \<le> 100 then Inr (key_at H seed (unat t)) else Inl (RatchetError TooFarAhead))"
proof -
  have peer: "peer_chain (AdoptPeer nick seed b) nick = Some (NewRatchet seed)"
    using peer_chain_adopt [OF assms] by simp
  obtain a r' where g: "GetMessageKey H t (NewRatchet seed) = (a, r')" by fastforce
  have "a = (if unat t \<le> 100 then Inr (key_at H seed (unat t)) else Inl TooFarAhead)"
  proof (cases "unat t \<le> 100")
    case True
    then have "t \<noteq> - 1" "t \<le> 100" by (auto simp: unat_top word_le_nat_alt)
    then show ?thesis
      using GetMessageKey_window [OF ratchet_inv_new [of H seed], of t] g True
      by (cases a) (simp_all add: NewRatchet_def)
  next
    case False
    then have "\<not> t \<le> 100" by (simp add: word_le_nat_alt)
    then show ?thesis using g False
      by (auto simp: GetMessageKey_def NewRatchet_def split: if_splits)
  qed
  then show ?thesis using recv_peer(1) [OF peer g] by simp
qed

text \<open>How far a list of steps reaches: one past the largest, 0 when there is none.\<close>

definition furthest :: "32 word list \<Rightarrow> nat" where
  "furthest ts = foldr (\<lambda>t n. max n (Suc (unat t))) ts 0"

lemma furthest_simps [simp]: "furthest [] = 0" "furthest (t # ts) = max (furthest ts) (Suc (unat t))"
  by (simp_all add: furthest_def)

lemma GetMessageKey_reaches:
  assumes "ratchet_inv H seed used r" and "t \<noteq> - 1" and "GetMessageKey H t r = (Inr k, r')"
  shows "unat (rstep r') = max (unat (rstep r)) (Suc (unat t))"
proof (cases "skippedKeys r t")
  case (Some mk)
  then have "t < rstep r" using assms(1) by (auto simp: ratchet_inv_def)
  then show ?thesis using assms(3) Some by (auto simp: GetMessageKey_def word_less_nat_alt)
next
  case None
  then have le: "rstep r \<le> t" using assms(3) by (auto simp: GetMessageKey_def split: if_splits)
  have "rstep r' = t + 1"
    using None assms(3) catch_up_inv [OF assms(1) le]
    by (auto simp: GetMessageKey_def Let_def kdf_def split: if_splits)
  then show ?thesis using unat_inc_ne [OF assms(2)] le by (simp add: word_le_nat_alt)
qed

lemma recvs_reach:
  "ratchet_inv H seed used r \<Longrightarrow> \<forall>t \<in> set ts. t \<noteq> - 1 \<Longrightarrow> rat.recvs H ts r = (as, r') \<Longrightarrow>
   unat (rstep r') = max (unat (rstep r)) (furthest (rat.served as))"
proof (induction ts arbitrary: used r as)
  case (Cons t ts)
  obtain a r1 where a: "GetMessageKey H t r = (a, r1)" by fastforce
  obtain bs r2 where b: "rat.recvs H ts r1 = (bs, r2)" by fastforce
  from a b Cons.prems(3) have as: "as = (t, a) # bs" "r' = r2" by auto
  show ?case
  proof (cases a)
    case (Inl e)
    then have "r1 = r" using GetMessageKey_error a by simp
    then show ?thesis using Cons.IH [OF Cons.prems(1), of bs] Cons.prems(2) b as Inl by simp
  next
    case (Inr k)
    then have "ratchet_inv H seed (insert t used) r1" "unat (rstep r1) = max (unat (rstep r)) (Suc (unat t))"
      using GetMessageKey_inv [OF Cons.prems(1), of t k r1] GetMessageKey_reaches [OF Cons.prems(1), of t k r1]
        Cons.prems(2) a by simp_all
    then show ?thesis using Cons.IH [of "insert t used" r1 bs] Cons.prems(2) b as Inr by simp
  qed
qed simp

lemma recv_many_peer:
  "peer_chain s nick = Some r \<Longrightarrow>
   peer_chain (snd (recv_many H nick ts s)) nick = Some (snd (rat.recvs H ts r))"
proof (induction ts arbitrary: s r)
  case (Cons t ts)
  obtain a r' where g: "GetMessageKey H t r = (a, r')" by fastforce
  show ?case using Cons.IH [OF recv_peer(2) [OF Cons.prems g]] by (simp add: g case_prod_beta)
qed simp

lemma in_window: "(t < n \<or> t - n \<le> 100) \<longleftrightarrow> unat t \<le> unat n + 100" for t n :: "32 word"
proof (cases "t < n")
  case True
  then show ?thesis by (simp add: word_less_nat_alt)
next
  case False
  then have "unat (t - n) = unat t - unat n" "unat n \<le> unat t"
    by (simp_all add: unat_sub_if' word_less_nat_alt)
  then show ?thesis using False by (auto simp: word_le_nat_alt)
qed

text \<open>C4: a receiver that adopted a member's exported seed and was asked for any list of steps, in any
  order and with repetitions, answers the next step it is asked for exactly when it did not answer
  that step before and the step lies at most 100 past the first one beyond all it has answered;
  every answer is the key the member used to send that step, and no step is answered twice.\<close>

theorem sender_keys_agree:
  assumes "seed \<noteq> []" and "senders_ok b" and "k < 2 ^ 32" and "\<forall>t \<in> set (ts @ [u]). unat t < k"
    and "recv_many H nick ts (AdoptPeer nick seed b) = (as, b')"
  shows "(\<forall>t key. (t, Inr key) \<in> set as \<longrightarrow>
            fst (send_many H k (NewSenderState me ep seed)) ! unat t = Some (key, t)) \<and>
    distinct (answered as) \<and>
    (if u \<notin> set (answered as) \<and> unat u \<le> furthest (answered as) + 100
     then \<exists>key. fst (Recv H nick u b') = Inr key \<and>
            fst (send_many H k (NewSenderState me ep seed)) ! unat u = Some (key, u)
     else \<exists>e. fst (Recv H nick u b') = Inl e)"
proof -
  let ?sent = "fst (send_many H k (NewSenderState me ep seed))"
  have own: "own_chain (NewSenderState me ep seed) = Some (NewRatchet seed)"
    using assms(1) by (simp add: own_chain_def sender_defs)
  have peer: "peer_chain (AdoptPeer nick seed b) nick = Some (NewRatchet seed)"
    using peer_chain_adopt [OF assms(2)] by simp
  obtain bs r' where bs: "rat.recvs H ts (NewRatchet seed) = (bs, r')" by fastforce
  have top: "t \<noteq> - 1" if "unat t < k" for t :: "32 word" using that assms(3) by (auto simp: unat_top)
  have sent: "?sent ! unat t = Some (key_at H seed (unat t), t)" if "unat t < k" for t
    using send_many_keys [OF own ratchet_inv_new, of k "unat t"] assms(3) that by (simp add: NewRatchet_def)
  have ok: "\<forall>t \<in> set ts. t \<noteq> - 1" "u \<noteq> - 1" using assms(4) top by simp_all
  note sound = rat.recvs_sound [OF ratchet_inv_new ok(1) bs]
  have eq: "as = map (\<lambda>x. (fst x, map_sum RatchetError id (snd x))) bs"
    using recv_many_chain [OF peer, of H ts] by (simp add: bs assms(5))
  have served: "answered as = rat.served bs" by (simp only: eq answered_served)
  have "?sent ! unat t = Some (key, t)" if "(t, Inr key) \<in> set as" for t key
  proof -
    have in_bs: "(t, Inr key) \<in> set bs" using that by (auto simp: eq map_sum_def split: sum.splits)
    have "map fst bs = ts" using rat.recvs_steps [of H ts "NewRatchet seed"] by (simp add: bs)
    then have "t \<in> set ts" using in_bs by force
    then show ?thesis using sent [of t] assms(4) sound in_bs by auto
  qed
  moreover have "peer_chain b' nick = Some r'" using recv_many_peer [OF peer, of H ts] by (simp add: assms(5) bs)
  then have "fst (Recv H nick u b') = map_sum RatchetError id (fst (GetMessageKey H u r'))"
    using recv_peer(1) prod.collapse by metis
  moreover have "ratchet_inv H seed (set (answered as)) r'" "unat (rstep r') = furthest (answered as)"
    using sound recvs_reach [OF ratchet_inv_new ok(1) bs] by (simp_all add: served NewRatchet_def)
  note GetMessageKey_window [OF this(1) ok(2), unfolded in_window this(2)]
  ultimately show ?thesis
    using sent [of u] assms(4) sound by (auto simp: served split: prod.splits sum.splits)
qed

theorem sender_keys_agree_witness:
  "\<exists>as b' key. recv_many (\<lambda>k d. d @ k) ''bob'' [2, 0, 2] (AdoptPeer ''bob'' ''s'' (NewSenderState ''me'' 1 [])) = (as, b') \<and>
    fst (send_many (\<lambda>k d. d @ k) 3 (NewSenderState ''bob'' 1 ''s'')) ! 1 = Some (key, 1) \<and>
    fst (Recv (\<lambda>k d. d @ k) ''bob'' 1 b') = Inr key \<and> distinct (answered as)"
proof -
  let ?H = "\<lambda>k d. d @ k" and ?s = "AdoptPeer ''bob'' ''s'' (NewSenderState ''me'' 1 [])"
  obtain as b' where run: "recv_many ?H ''bob'' [2, 0, 2] ?s = (as, b')" by fastforce
  have "1 \<notin> set (answered as)"
  proof
    assume "1 \<in> set (answered as)"
    then have "1 \<in> set (map fst as)" by (auto simp: answered_def)
    moreover have "map fst as = [2, 0, 2]" using arg_cong [OF run, of "map fst \<circ> fst"] by (simp add: case_prod_beta)
    ultimately show False by simp
  qed
  moreover have "\<forall>t \<in> set ([2, 0, 2] @ [1 :: 32 word]). unat t < 3" by simp
  note sender_keys_agree [OF _ senders_ok_new _ this run, of "''bob''" 1]
  ultimately have "distinct (answered as)" "\<exists>key. fst (Recv ?H ''bob'' 1 b') = Inr key \<and>
      fst (send_many ?H 3 (NewSenderState ''bob'' 1 ''s'')) ! 1 = Some (key, 1)"
    by (simp_all del: send_many.simps split: if_splits)
  with run show ?thesis by blast
qed

text \<open>C5: a ratchet hands out the key of a step exactly when that step was not handed out
  before and lies at most 100 ahead of the current one; the key is the chain's key of that
  step, the step counts as handed out from then on, and a refusal changes nothing.\<close>

theorem message_key_window:
  assumes "ratchet_inv H seed used r" and "t \<noteq> - 1"
  shows "(case GetMessageKey H t r of
            (Inr k, r') \<Rightarrow> t \<notin> used \<and> (t < rstep r \<or> t - rstep r \<le> 100) \<and>
               k = key_at H seed (unat t) \<and> ratchet_inv H seed (insert t used) r'
          | (Inl e, r') \<Rightarrow> (t \<in> used \<or> \<not> (t < rstep r \<or> t - rstep r \<le> 100)) \<and> r' = r)"
  using assms by (rule GetMessageKey_window)

theorem message_key_window_witness:
  "\<exists>r'. GetMessageKey (\<lambda>k d. d @ k) 7 (NewRatchet ''s'') = (Inr (key_at (\<lambda>k d. d @ k) ''s'' 7), r') \<and>
     ratchet_inv (\<lambda>k d. d @ k) ''s'' {7} r'"
proof -
  obtain a r' where g: "GetMessageKey (\<lambda>k d. d @ k) 7 (NewRatchet ''s'') = (a, r')" by fastforce
  show ?thesis
    using message_key_window [OF ratchet_inv_new, where t = 7 and H = "\<lambda>k d. d @ k" and seed = "''s''"] g
    by (cases a) (auto simp: NewRatchet_def)
qed

text \<open>C36: adopting a member's seed again rewinds the receiver: whatever it had answered
  before, the steps up to 100 are answered (again) and every later one is refused as too far
  ahead, however far the sender has moved on.\<close>

theorem readoption_rewinds:
  assumes "senders_ok b"
  shows "fst (Recv H nick t (AdoptPeer nick seed b)) =
    (if unat t \<le> 100 then Inr (key_at H seed (unat t)) else Inl (RatchetError TooFarAhead))"
  using assms by (rule peer_answers)

theorem readoption_rewinds_witness:
  "fst (Recv (\<lambda>k d. d @ k) ''bob'' 3 (AdoptPeer ''bob'' ''s'' (NewSenderState ''me'' 1 []))) =
    (if unat (3 :: 32 word) \<le> 100 then Inr (key_at (\<lambda>k d. d @ k) ''s'' (unat (3 :: 32 word)))
     else Inl (RatchetError TooFarAhead))"
  by (rule readoption_rewinds) (rule senders_ok_new)

text \<open>Members' chains do not disturb each other: receiving from or adopting one peer
  leaves every other peer's chain as it was, and, unless that peer carries the own nickname,
  the own sending chain too; the store stays well formed.\<close>

lemma peers_independent:
  assumes "senders_ok s" and "other \<noteq> nick"
  shows "peer_chain (snd (Recv H nick t s)) other = peer_chain s other \<and>
    peer_chain (AdoptPeer nick seed s) other = peer_chain s other \<and>
    own_chain (AdoptPeer nick seed s) = own_chain s \<and>
    (nick \<noteq> myNick s \<longrightarrow> own_chain (snd (Recv H nick t s)) = own_chain s) \<and>
    senders_ok (snd (Recv H nick t s)) \<and> senders_ok (AdoptPeer nick seed s)"
  using assms
  by (simp add: recv_other peer_chain_adopt own_chain_adopt recv_own senders_ok_recv
      senders_ok_adopt)

lemma peers_independent_example:
  "peer_chain (snd (Recv (\<lambda>k d. d @ k) ''bob'' 3 (NewSenderState ''me'' 1 ''x''))) ''ann'' =
     peer_chain (NewSenderState ''me'' 1 ''x'') ''ann'' \<and>
   own_chain (snd (Recv (\<lambda>k d. d @ k) ''bob'' 3 (NewSenderState ''me'' 1 ''x''))) =
     own_chain (NewSenderState ''me'' 1 ''x'')"
  using peers_independent [of "NewSenderState ''me'' 1 ''x''" "''ann''" "''bob''" "\<lambda>k d. d @ k" 3]
  by (simp add: senders_ok_new sender_defs)

section \<open>File streams\<close>

text \<open>C20: a file encrypted as a stream decrypts under the same key and file id to the same
  content and a clean end, whatever its length.\<close>

theorem stream_roundtrip:
  assumes "gcm_correct P" and "gcm_overhead P" and "aes_key_ok key"
  shows "fst (EncryptReaderTo P pos (c, False) key f) = None \<and>
    DecryptReaderTo P (fst (snd (EncryptReaderTo P pos (c, False) key f))) key f = (None, c)"
proof -
  obtain cts pos' where e: "EncryptReader_go P key f False pos 0 c =
      (None, concat (map put_record cts) @ be32 0, pos')" "opens P key f 0 cts (chunks_of c)"
    using encrypt_records [OF assms] by blast
  have "DecryptReader_go P key f (of_nat (length cts)) (be32 0) = (None, [])"
    using decrypt_end [of P key f _ "[]"] by simp
  with e show ?thesis
    by (simp add: EncryptReaderTo_def DecryptReaderTo_def decrypt_records)
qed

theorem stream_roundtrip_witness:
  "fst (EncryptReaderTo demo 0 (''abc'', False) (zeros 32) ''f'') = None \<and>
   DecryptReaderTo demo (fst (snd (EncryptReaderTo demo 0 (''abc'', False) (zeros 32) ''f'')))
     (zeros 32) ''f'' = (None, ''abc'')"
  by (rule stream_roundtrip) (simp_all add: demo_gcm)

lemma opens_nth:
  "opens P key f i cts pts \<Longrightarrow> j < length cts \<Longrightarrow>
   DecryptChunk P key f (i + of_nat j) (cts ! j) = Some (pts ! j)"
proof (induction P key f i cts pts arbitrary: j rule: opens.induct)
  case (2 P key f i ct cts pt pts)
  then show ?case by (cases j) (auto simp: add.assoc)
qed simp_all

text \<open>C21: whatever a receiver accepts from a stream was sealed under the key for this file at
  this position: the output is the concatenation of plaintexts whose sealings, bound to the
  file id and to consecutive indices from 0, stand at the front of the stream in that order.\<close>

theorem stream_authentic:
  assumes "gcm_authentic P" and "DecryptReaderTo P s key f = (e, out)"
  shows "\<exists>cts pts tail. s = concat (map put_record cts) @ tail \<and> out = concat pts \<and>
    length pts = length cts \<and>
    (\<forall>j < length cts. cts ! j = take nonceSize (cts ! j) @
       gcm_seal P key (take nonceSize (cts ! j)) (pts ! j) (chunkAAD f (of_nat j)))"
proof -
  obtain cts pts tail where s: "s = concat (map put_record cts) @ tail"
    "opens P key f 0 cts pts" "out = concat pts"
    using decrypt_sound assms(2) unfolding DecryptReaderTo_def by blast
  have "cts ! j = take nonceSize (cts ! j) @
      gcm_seal P key (take nonceSize (cts ! j)) (pts ! j) (chunkAAD f (of_nat j))"
    if "j < length cts" for j
  proof -
    have "gcm_open P key (take nonceSize (cts ! j)) (drop nonceSize (cts ! j)) (chunkAAD f (of_nat j)) =
        Some (pts ! j)"
      using opens_nth [OF s(2) that]
      by (auto simp: DecryptChunk_def decryptWithAAD_def split: if_splits)
    then have "drop nonceSize (cts ! j) =
        gcm_seal P key (take nonceSize (cts ! j)) (pts ! j) (chunkAAD f (of_nat j))"
      using assms(1) unfolding gcm_authentic_def by blast
    then show ?thesis by (metis append_take_drop_id)
  qed
  with s opens_length [OF s(2)] show ?thesis by metis
qed

theorem stream_authentic_witness:
  "\<exists>cts pts tail. put_record (zeros 12 @ ''abc'' @ zeros 16) @ be32 0 = concat (map put_record cts) @ tail \<and>
    ''abc'' = concat pts \<and> length pts = length cts"
proof -
  have "gcm_open demo k n (''abc'' @ zeros 16) a = Some ''abc''" for k n a
    by (simp add: demo_def demo_host_def demo_open_def)
  then have o: "opens demo (zeros 32) ''f'' 0 [zeros 12 @ ''abc'' @ zeros 16] [''abc'']"
    by (simp add: DecryptChunk_def decryptWithAAD_def nonceSize_def ChunkSize_def)
  have "DecryptReaderTo demo (put_record (zeros 12 @ ''abc'' @ zeros 16) @ be32 0) (zeros 32) ''f'' =
      (None, ''abc'')"
    using decrypt_records [OF o, of "be32 0"] decrypt_end [of demo "zeros 32" "''f''" 1 "[]"]
    by (simp add: DecryptReaderTo_def)
  from stream_authentic [OF demo_gcm(2) this] show ?thesis by blast
qed

text \<open>C37: the end of a stream is not authenticated: cut after any number of its records and
  closed with four zero bytes, it is accepted as the complete shorter file; left unclosed it is
  reported as truncated.\<close>

theorem stream_end_forgeable:
  assumes "gcm_correct P" and "gcm_overhead P" and "aes_key_ok key"
  shows "\<exists>cts. fst (snd (EncryptReaderTo P pos (c, False) key f)) = concat (map put_record cts) @ be32 0 \<and>
    length cts = length (chunks_of c) \<and>
    (\<forall>n. DecryptReaderTo P (concat (map put_record (take n cts)) @ be32 0) key f =
           (None, concat (take n (chunks_of c))) \<and>
         DecryptReaderTo P (concat (map put_record (take n cts))) key f =
           (Some (Truncated EOF), concat (take n (chunks_of c))))"
proof -
  obtain cts pos' where e: "EncryptReader_go P key f False pos 0 c =
      (None, concat (map put_record cts) @ be32 0, pos')" "opens P key f 0 cts (chunks_of c)"
    using encrypt_records [OF assms] by blast
  have "DecryptReaderTo P (concat (map put_record (take n cts)) @ be32 0) key f =
        (None, concat (take n (chunks_of c))) \<and>
      DecryptReaderTo P (concat (map put_record (take n cts))) key f =
        (Some (Truncated EOF), concat (take n (chunks_of c)))" for n
    using decrypt_records [OF opens_take [OF e(2)], of n "be32 0"]
      decrypt_records [OF opens_take [OF e(2)], of n "[]"]
      decrypt_end [of P key f _ "[]"] decrypt_eof [of P key f]
    by (simp add: DecryptReaderTo_def)
  with e opens_length [OF e(2)] show ?thesis
    by (intro exI [of _ cts]) (simp add: EncryptReaderTo_def)
qed

theorem stream_end_forgeable_witness:
  "\<exists>cts. fst (snd (EncryptReaderTo demo 0 (''abc'', False) (zeros 32) ''f'')) =
      concat (map put_record cts) @ be32 0 \<and> length cts = length (chunks_of ''abc'') \<and>
    (\<forall>n. DecryptReaderTo demo (concat (map put_record (take n cts)) @ be32 0) (zeros 32) ''f'' =
           (None, concat (take n (chunks_of ''abc''))) \<and>
         DecryptReaderTo demo (concat (map put_record (take n cts))) (zeros 32) ''f'' =
           (Some (Truncated EOF), concat (take n (chunks_of ''abc''))))"
  by (rule stream_end_forgeable) (simp_all add: demo_gcm)

end
