(* ===== verification/WireProperties.thy ===== *)
theory WireProperties
  imports Invite Instances
begin

text \<open>
  Properties of what crosses the network before and around a session: proof of work, key
  agreement, keys at rest, frames, the answers of the handshake and join tickets.
\<close>

section \<open>Keys\<close>

text \<open>C28: when any 64-bit nonce passes the check, the search returns, and what it returns is the
  least nonce that passes.\<close>

theorem pow_search:
  assumes "VerifyPoW P data m d = Some True"
  shows "\<exists>n. ComputePoW P data d = Some n \<and> n \<le> m \<and> VerifyPoW P data n d = Some True \<and>
    (\<forall>k. k < n \<longrightarrow> VerifyPoW P data k d = Some False)"
  by (rule pow_finds [OF assms])

theorem pow_search_witness:
  "\<exists>n. ComputePoW demo ''ab'' 16 = Some n \<and> n \<le> 5 \<and> VerifyPoW demo ''ab'' n 16 = Some True"
proof -
  have "VerifyPoW demo ''ab'' 5 16 = Some True"
    by (simp add: VerifyPoW_def powTarget_def powHash_def)
  from pow_search [OF this] show ?thesis by blast
qed

text \<open>Both ends of a handshake derive the same 32-byte session key from their own private
  and the other's public key, and what either seals under it the other opens.\<close>

lemma session_agreement:
  assumes "dh_commutes P" and "kdf_sizes P" and "gcm_correct P"
    and "GenerateKeyPair P p = ((a, Some pa), p')" and "GenerateKeyPair P q = ((b, Some pb), q')"
    and "DeriveSharedKey P a pb = Some k"
  shows "DeriveSharedKey P b pa = Some k \<and> length k = 32 \<and>
    (\<exists>ct. Encrypt P pos k msg = (Some ct, pos + nonceSize) \<and> Decrypt P k ct = Some msg)"
proof -
  have k: "length k = 32" using shared_key_size assms(2,6) by blast
  then obtain ct where "Encrypt P pos k msg = (Some ct, pos + nonceSize)"
    using Encrypt_total aes_key_32 by blast
  then show ?thesis
    using k shared_key_agrees [OF assms(1,4,5)] assms(6) Decrypt_Encrypt [OF assms(3)] by auto
qed

lemma session_agreement_example:
  "DeriveSharedKey demo (rand_bytes demo 32 32) (zeros 32) = Some (zeros 32) \<and> length (zeros 32) = 32 \<and>
    (\<exists>ct. Encrypt demo 64 (zeros 32) ''hi'' = (Some ct, 64 + nonceSize) \<and>
      Decrypt demo (zeros 32) ct = Some ''hi'')"
  by (rule session_agreement [of demo 0 "rand_bytes demo 0 32" "zeros 32" 32 32 "rand_bytes demo 32 32"
        "zeros 32" 64])
     (simp_all add: demo_keys demo_gcm GenerateKeyPair_def DeriveSharedKey_def DeriveSessionKey_def)

text \<open>A private key wrapped under a passphrase unwraps under it to the same bytes, and
  the wrapping always succeeds.\<close>

lemma wrapped_key_roundtrip:
  assumes "gcm_correct P" and "gcm_overhead P" and "kdf_sizes P"
  shows "\<exists>blob. WrapKey P pos pass key = (Some blob, pos + 28) \<and>
    length blob = length key + 44 \<and> UnwrapKey P pass blob = Some key"
proof -
  let ?salt = "rand_bytes P pos 16"
  have "length (pbkdf2_sha256 P pass ?salt wrapIters) = 32"
    using assms(3) by (simp add: kdf_sizes_def)
  then obtain ct where ct: "Encrypt P (pos + 16) (pbkdf2_sha256 P pass ?salt wrapIters) key =
      (Some ct, pos + 16 + nonceSize)"
    using Encrypt_total aes_key_32 by blast
  then have w: "WrapKey P pos pass key = (Some (?salt @ ct), pos + 28)"
    by (simp add: WrapKey_def Let_def nonceSize_def)
  have "length ct = length key + 28"
    using ct length_encryptWithAAD [OF assms(2)] unfolding Encrypt_AAD by blast
  with w wrap_roundtrip [OF assms(1,2) w] show ?thesis by simp
qed

lemma wrapped_key_roundtrip_example:
  "\<exists>blob. WrapKey demo 0 ''pw'' ''key'' = (Some blob, 0 + 28) \<and>
    length blob = length ''key'' + 44 \<and> UnwrapKey demo ''pw'' blob = Some ''key''"
  by (rule wrapped_key_roundtrip) (simp_all add: demo_gcm demo_keys)

section \<open>Frames and answers\<close>

fun send_frames :: "bytes list \<Rightarrow> io_error + bytes" where
  "send_frames [] = Inr []"
| "send_frames (p # ps) =
     (case SendFrame p of Inl e \<Rightarrow> Inl e
      | Inr w \<Rightarrow> (case send_frames ps of Inl e \<Rightarrow> Inl e | Inr ws \<Rightarrow> Inr (w @ ws)))"

fun read_frames :: "nat \<Rightarrow> bytes \<Rightarrow> io_error + bytes list \<times> bytes" where
  "read_frames 0 s = Inr ([], s)"
| "read_frames (Suc n) s =
     (case ReadFrame s of Inl e \<Rightarrow> Inl e
      | Inr (p, r) \<Rightarrow> (case read_frames n r of Inl e \<Rightarrow> Inl e | Inr (ps, t) \<Rightarrow> Inr (p # ps, t)))"

text \<open>C30: payloads of at most 8 MiB written one after the other are all written and are read
  back one by one, whatever follows them on the stream.\<close>

theorem frames_in_order:
  assumes "\<forall>p \<in> set ps. length p \<le> MaxFrame"
  shows "\<exists>w. send_frames ps = Inr w \<and> read_frames (length ps) (w @ rest) = Inr (ps, rest)"
  using assms
proof (induction ps)
  case (Cons p ps)
  then obtain ws where ws: "send_frames ps = Inr ws"
    "read_frames (length ps) (ws @ rest) = Inr (ps, rest)" by auto
  obtain w where w: "SendFrame p = Inr w" using Cons.prems by (simp add: SendFrame_def)
  then show ?case using ws ReadFrame_SendFrame [OF w] by simp
qed simp

theorem frames_in_order_witness:
  "\<exists>w. send_frames [''ab'', [], ''c''] = Inr w \<and>
    read_frames (length [''ab'', [], ''c'']) (w @ ''zz'') = Inr ([''ab'', [], ''c''], ''zz'')"
  by (rule frames_in_order) (simp add: MaxFrame_def)

text \<open>A frame whose header announces more than 8 MiB is refused on its header alone, and
  no payload that is read exceeds that size.\<close>

lemma frame_size_enforced:
  "(length hdr = 4 \<longrightarrow> rd_be32 hdr > MaxFrame \<longrightarrow> ReadFrame (hdr @ s) = Inl FrameTooLarge) \<and>
   (\<forall>p r. ReadFrame t = Inr (p, r) \<longrightarrow> length p \<le> MaxFrame) \<and>
   (length q > MaxFrame \<longrightarrow> SendFrame q = Inl FrameTooLarge)"
  using ReadFrame_bound by (auto simp: ReadFrame_def ReadFull_append SendFrame_def)

lemma frame_size_enforced_example:
  "ReadFrame ([byte 255, byte 0, byte 0, byte 0] @ ''x'') = Inl FrameTooLarge"
  using frame_size_enforced [of "[byte 255, byte 0, byte 0, byte 0]" "''x''" "[]" "[]"]
  by (simp add: MaxFrame_def)

text \<open>A client cannot mistake one answer of the hub for the other: an acceptance reads back
  as the acceptance sent and never as a refusal, and a refusal with a reason reads back as that
  refusal and never as an acceptance.\<close>

lemma answers_discriminated:
  assumes "pb_handshake_ok W" and "SendHandshakeOK W port ap = Some w"
    and "SendHandshakeErr W reason = Some v" and "reason \<noteq> []"
    and "ok = \<lparr>ok_VaultPort = word_of_int port, ok_Version = Version, ok_Approved = ap\<rparr>"
    and "pb_ok W ok \<noteq> Some []" and "pb_err W \<lparr>err_Reason = reason\<rparr> \<noteq> Some []"
  shows "(\<exists>b. ReadFrame (w @ rest) = Inr (b, rest) \<and> UnmarshalOK W b = Some ok \<and> UnmarshalErr W b = None) \<and>
    (\<exists>b. ReadFrame (v @ rest) = Inr (b, rest) \<and> UnmarshalOK W b = None \<and>
       UnmarshalErr W b = Some \<lparr>err_Reason = reason\<rparr>)"
proof
  obtain b where b: "pb_ok W ok = Some b" "SendFrame (hsOK # b) = Inr w"
    using assms(2,5) by (auto simp: SendHandshakeOK_def split: option.splits sum.splits)
  have "pb_ok_dec W b = Some ok" using assms(1) b(1) by (simp add: pb_handshake_ok_def)
  moreover have "b \<noteq> []" using assms(6) b(1) by auto
  ultimately show "\<exists>b. ReadFrame (w @ rest) = Inr (b, rest) \<and> UnmarshalOK W b = Some ok \<and>
      UnmarshalErr W b = None"
    using ReadFrame_SendFrame [OF b(2)]
    by (cases b) (auto simp: UnmarshalOK_def UnmarshalErr_def)
next
  obtain b where b: "pb_err W \<lparr>err_Reason = reason\<rparr> = Some b" "SendFrame (hsErr # b) = Inr v"
    using assms(3) by (auto simp: SendHandshakeErr_def split: option.splits sum.splits)
  have "pb_err_dec W b = Some \<lparr>err_Reason = reason\<rparr>" using assms(1) b(1) by (simp add: pb_handshake_ok_def)
  moreover have "b \<noteq> []" using assms(7) b(1) by auto
  ultimately show "\<exists>b. ReadFrame (v @ rest) = Inr (b, rest) \<and> UnmarshalOK W b = None \<and>
      UnmarshalErr W b = Some \<lparr>err_Reason = reason\<rparr>"
    using ReadFrame_SendFrame [OF b(2)] assms(4)
    by (cases b) (auto simp: UnmarshalOK_def UnmarshalErr_def)
qed

lemma answers_discriminated_example:
  "\<exists>w v. SendHandshakeOK demo 8080 True = Some w \<and> SendHandshakeErr demo ''no'' = Some v \<and>
     (\<exists>b. ReadFrame (v @ []) = Inr (b, []) \<and> UnmarshalOK demo b = None \<and>
        UnmarshalErr demo b = Some \<lparr>err_Reason = ''no''\<rparr>) \<and>
     (\<exists>b. ReadFrame (w @ []) = Inr (b, []) \<and> UnmarshalErr demo b = None)"
proof -
  let ?ok = "\<lparr>ok_VaultPort = word_of_int 8080, ok_Version = Version, ok_Approved = True\<rparr>"
  have e: "err_enc \<lparr>err_Reason = ''no''\<rparr> = Some (enc_strs [''no''])"
    by (simp add: err_enc_def)
  obtain v where v: "SendHandshakeErr demo ''no'' = Some v"
    by (simp add: SendHandshakeErr_def e SendFrame_def MaxFrame_def enc_strs_def)
  obtain w where w: "SendHandshakeOK demo 8080 True = Some w"
    by (simp add: SendHandshakeOK_def demo_def ok_enc_def SendFrame_def MaxFrame_def enc_strs_def
        length_enc_str of_nat_str_def of_bool_str_def cfg)
  have ne: "pb_ok demo ?ok \<noteq> Some []" "pb_err demo \<lparr>err_Reason = ''no''\<rparr> \<noteq> Some []"
    by (simp_all add: demo_def ok_enc_def e enc_strs_def enc_str_nonempty)
  show ?thesis
    using answers_discriminated [OF demo_pb(3) w v _ refl ne, of "[]"] w v by auto
qed

section \<open>Join tickets\<close>

text \<open>A ticket typed as plain \<^verbatim>\<open>host:port\<close> in printable characters is dialled at
  exactly that address, through Tor exactly when it mentions an onion name.\<close>

lemma plain_address_dialled:
  assumes "\<forall>c \<in> set (h @ p). printable c" and "h \<noteq> []" and "p \<noteq> []" and "CHR '':'' \<notin> set h"
    and "\<not> HasPrefix (h @ '':'' @ p) scheme"
  shows "\<exists>b. DecodeInvite jd (h @ '':'' @ p) = Inr b \<and> DialAddr b = h @ '':'' @ p \<and>
    (b_Tor b \<longleftrightarrow> Contains (h @ '':'' @ p) ''.onion'')"
proof -
  have "printable (hd (h @ '':'' @ p))" "printable (last (h @ '':'' @ p))"
    using assms(1-3) by (simp_all add: hd_append)
  then have trim: "TrimSpace (h @ CHR '':'' # p) = h @ CHR '':'' # p"
    by (intro TrimSpace_printable) simp_all
  have cut: "Cut (h @ CHR '':'' # p) (CHR '':'') = (h, p, True)"
    by (rule Cut_at [OF assms(4)])
  have "Contains (h @ CHR '':'' # p) '':''" by (simp add: Contains_char)
  then show ?thesis
    using assms(2,3,5)
    by (cases "Contains (h @ CHR '':'' # p) ''.onion''")
       (simp_all add: DecodeInvite_def trim cut DialAddr_def empty_blob_def)
qed

lemma plain_address_dialled_example:
  "\<exists>b. DecodeInvite (\<lambda>_. None) (''ab.onion'' @ '':'' @ ''80'') = Inr b \<and>
    DialAddr b = ''ab.onion'' @ '':'' @ ''80'' \<and>
    (b_Tor b \<longleftrightarrow> Contains (''ab.onion'' @ '':'' @ ''80'') ''.onion'')"
  by (rule plain_address_dialled) (simp_all add: printable_def HasPrefix_def scheme_def)

end
