(* ===== verification/HubTypes.thy ===== *)
theory HubTypes
  imports HubSafety
begin

text \<open>
  The types a running hub keeps: every reference it holds (in the client map, among the
  scheduled removals, in a read loop) is an object that was made, filed under its own address,
  and every client that was made waits or is a member. Nothing ever puts a client into the
  third state the code names.
\<close>

definition client_states :: "string set" where
  "client_states = {''PENDING'', ''WHITELISTED''}"

definition typed :: "Hub \<Rightarrow> bool" where
  "typed H \<longleftrightarrow>
     (\<forall>(a, r) \<in> set (clients H). r < next_obj H \<and> Address (objs H r) = a) \<and>
     (\<forall>r \<in> set (pending H). r < next_obj H) \<and>
     (\<forall>r. Reading (objs H r) \<longrightarrow> r < next_obj H) \<and>
     (\<forall>r < next_obj H. State (objs H r) \<in> client_states)"

named_theorems typing \<open>introduction rules for \<open>typed\<close>\<close>

lemma typed_if [typing]: "typed A \<Longrightarrow> typed B \<Longrightarrow> typed (if b then A else B)"
  by simp

lemma typed_clients: "typed H \<Longrightarrow> (a, r) \<in> set (clients H) \<Longrightarrow> r < next_obj H \<and> Address (objs H r) = a"
  unfolding typed_def by blast

lemma typed_all: "typed H \<Longrightarrow> r \<in> set (GetAllClients H) \<Longrightarrow> r < next_obj H"
  by (auto simp: GetAllClients_def dest: typed_clients)

lemma typed_state: "typed H \<Longrightarrow> r < next_obj H \<Longrightarrow> State (objs H r) \<in> client_states"
  by (simp add: typed_def)

text \<open>An operation that leaves the references and the states alone.\<close>

lemma typed_cong:
  assumes "next_obj H' = next_obj H" and "clients H' = clients H" and "pending H' = pending H"
    and "\<And>r. Address (objs H' r) = Address (objs H r)" and "\<And>r. State (objs H' r) = State (objs H r)"
    and "\<And>r. Reading (objs H' r) = Reading (objs H r)"
  shows "typed H' = typed H"
  unfolding typed_def assms ..

context talking
begin

lemma typed_f [simp]: "typed (f H) = typed H"
  by (rule typed_cong) simp_all

end

lemma typed_records [simp]:
  "typed (H\<lparr>Stats := t\<rparr>) = typed H" "typed (H\<lparr>Admins := a\<rparr>) = typed H"
  "typed (H\<lparr>RawConns := j\<rparr>) = typed H" "typed (H\<lparr>rpos := i\<rparr>) = typed H"
  "typed (H\<lparr>clock := x\<rparr>) = typed H" "typed (H\<lparr>disk := d\<rparr>) = typed H"
  "typed (H\<lparr>Rooms := g\<rparr>) = typed H" "typed (H\<lparr>BlacklistMap := b\<rparr>) = typed H"
  "typed (H\<lparr>WhitelistMap := b\<rparr>) = typed H" "typed (H\<lparr>DBManager := m\<rparr>) = typed H"
  "typed (H\<lparr>Running := e\<rparr>) = typed H" "typed (H\<lparr>VaultDir := s\<rparr>) = typed H"
  "typed (saveACL E H) = typed H" "typed (rememberAdmin E p n H) = typed H"
  by (rule typed_cong; simp)+

lemma typed_BumpEpoch [simp]: "typed (BumpEpoch E H) = typed H"
  by (rule typed_cong) (simp_all add: BumpEpoch_def Let_def case_prod_beta)

text \<open>A change of one object.\<close>

lemma typed_upd [typing]:
  assumes "typed H" and "\<And>c. Address (f c) = Address c" and "\<And>c. Reading (f c) \<longrightarrow> Reading c"
    and "\<And>c. State c \<in> client_states \<Longrightarrow> State (f c) \<in> client_states"
  shows "typed (upd_obj r f H)"
  using assms unfolding typed_def by (auto simp: upd_obj_apply split_beta)

lemma typed_pending [typing]:
  "typed H \<Longrightarrow> r < next_obj H \<Longrightarrow> typed (H\<lparr>pending := pending H @ [r]\<rparr>)"
  "typed H \<Longrightarrow> typed (H\<lparr>pending := remove1 r (pending H)\<rparr>)"
  by (auto simp: typed_def dest: notin_set_remove1)

lemma typed_found: "typed H \<Longrightarrow> GetClientByNickname n H = Some r \<Longrightarrow> r < next_obj H"
  using by_nick_found [of n H r] typed_all by auto

section \<open>Operations\<close>

lemma client_states_simps [simp]: "''WHITELISTED'' \<in> client_states" "''PENDING'' \<in> client_states"
  by (simp_all add: client_states_def)

lemma typed_approve [typing]: "typed H \<Longrightarrow> typed (snd (ApproveClient E n H))"
  by (simp add: ApproveClient_def Let_def typing split: option.split)

lemma typed_block [typing]: "typed H \<Longrightarrow> typed (snd (BlockClient E n H))"
proof (cases "GetClientByNickname n H")
  case (Some r)
  assume t: "typed H"
  from typed_found [OF t Some] t Some show ?thesis
    by (simp add: BlockClient_def Let_def typed_def)
qed (simp add: BlockClient_def)

lemma typed_remove_entry [typing]: "typed H \<Longrightarrow> typed (snd (RemoveClient a H))"
  using set_delete [of a "clients H"] by (auto simp: RemoveClient_def Let_def typed_def)

lemma typed_remove [typing]: "typed H \<Longrightarrow> typed (removeClient E r H)"
  by (simp add: removeClient_def Let_def case_prod_beta typing)

lemma typed_handlers [typing]:
  assumes "typed H"
  shows "typed (handleAnn E r args H)" "typed (handleOp E r args H)" "typed (handleApprove E r args H)"
    "typed (handleBlock E r args H)" "typed (handleKick E r args H)" "typed (handleRoom E r args H)"
  using assms
  by (simp_all add: handleAnn_def handleOp_def handleApprove_def handleBlock_def handleKick_def
      handleRoom_def Let_def case_prod_beta typing split: option.split)

lemma typed_Handle [typing]: "typed H \<Longrightarrow> typed (Handle E r input H)"
  by (auto simp: Handle_def registry_lookup typing split: list.split)

lemma typed_put [typing]: "typed H \<Longrightarrow> typed (handleFilePut E r msg H)"
  by (simp add: handleFilePut_def Let_def case_prod_beta typing split: option.split sum.split)

lemma typed_dispatch [typing]: "typed H \<Longrightarrow> typed (dispatch E r msg H)"
  by (simp add: dispatch_def handleCommand_def Let_def typing)

lemma typed_process [typing]: "typed H \<Longrightarrow> typed (processClientMessage E r txt H)"
proof (cases "open_message E (objs H r) txt")
  case (Some msg)
  assume t: "typed H"
  have "typed (upd_obj r (\<lambda>_. snd (allowMessage (clock H) (objs H r))) H)"
    by (rule iffD2 [OF typed_cong t]) (simp_all add: upd_obj_apply allowMessage_def Let_def)
  then show ?thesis
    using t by (simp add: processClientMessage_def Some Let_def case_prod_beta typing)
qed (simp add: processClientMessage_def)

section \<open>Connections\<close>

lemma typed_greet [simp]: "typed (snd (hs_greet E a H)) = typed H"
  by (simp add: hs_greet_def Let_def case_prod_beta split: option.split sum.split)

text \<open>The new object gets the next reference.\<close>

lemma typed_enter:
  assumes "typed H" and "Address c = a" and "State c \<in> client_states" and "\<not> Reading c"
  shows "typed (AddClient a (next_obj H) (H\<lparr>objs := (objs H)(next_obj H := c), next_obj := Suc (next_obj H)\<rparr>))"
  using assms set_update [of a "next_obj H" "clients H"]
  by (fastforce simp: typed_def AddClient_def less_Suc_eq)

lemma typed_register:
  assumes "typed H"
  shows "typed (snd (hs_register E a hello key H))" and
    "fst (fst (hs_register E a hello key H)) < next_obj (snd (hs_register E a hello key H))"
proof -
  let ?nc = "new_client a hello key (clock H)"
  have add: "AddClient a r (Log E m G) = AddClient a r (G\<lparr>ConsoleHistory := ConsoleHistory (Log E m G)\<rparr>)" for r m G
    by (simp add: Log_def push_console_def AddClient_def)
  have cons: "typed (AddClient a r (G\<lparr>ConsoleHistory := cs\<rparr>)) = typed (AddClient a r G)" for r G cs
    by (rule typed_cong) (simp_all add: AddClient_def)
  have set: "upd_obj r (\<lambda>_. c) (H\<lparr>objs := (objs H)(r := d), next_obj := n\<rparr>) = H\<lparr>objs := (objs H)(r := c), next_obj := n\<rparr>"
    for r c d n by (simp add: upd_obj_def)
  show "typed (snd (hs_register E a hello key H))"
    by (simp add: hs_register_def Let_def add cons set split: option.split)
       (auto intro!: typed_enter [OF assms] simp: new_client_def empty_client_def)
  show "fst (fst (hs_register E a hello key H)) < next_obj (snd (hs_register E a hello key H))"
    by (simp add: hs_register_def Let_def AddClient_def split: option.split)
qed

lemma typed_welcome [typing]: "typed H \<Longrightarrow> typed (hs_welcome E r a n k H)"
  by (simp add: hs_welcome_def welcome_member_def enroll_member_def Let_def case_prod_beta typing)

lemma next_obj_welcome [simp]: "next_obj (hs_welcome E r a n k H) = next_obj H"
  by (simp add: hs_welcome_def welcome_member_def enroll_member_def Let_def case_prod_beta)

lemma typed_reading: "typed H \<Longrightarrow> r < next_obj H \<Longrightarrow> typed (upd_obj r (\<lambda>c. c\<lparr>Pumping := p, Reading := b\<rparr>) H)"
  by (auto simp: typed_def upd_obj_apply)

lemma typed_answer [typing]: "typed H \<Longrightarrow> typed (snd (hs_answer E a priv nonce payload up H))"
proof (cases payload)
  case (Some b)
  assume t: "typed H"
  show ?thesis
  proof (cases "hs_verify E priv nonce b H")
    case (Pass hello key)
    note reg = typed_register [OF t, of E a hello key]
    show ?thesis
      using reg by (auto simp: hs_answer_def Some Pass Let_def case_prod_beta typing
          intro!: typed_reading typed_welcome typed_upd split: option.split)
  qed (simp_all add: hs_answer_def Some t)
qed (simp add: hs_answer_def)

lemma typed_close [simp]: "typed (close_raw H) = typed H"
  by (simp add: close_raw_def)

lemma typed_connect [typing]: "typed H \<Longrightarrow> typed (connect E a p up H)"
proof -
  assume "typed H"
  then have "typed (snd (accept H))" by (simp add: accept_def Let_def)
  moreover have "typed (snd (handleConnection E a p up G))" if "typed G" for G
  proof -
    obtain g G1 where g: "hs_greet E a G = (g, G1)" by fastforce
    then have "typed G1" using that typed_greet [of E a G] by simp
    then show ?thesis
      using typed_answer by (auto simp: handleConnection_def g Let_def case_prod_beta split: option.split prod.split)
  qed
  ultimately show ?thesis by (simp add: connect_def case_prod_beta)
qed

section \<open>Steps\<close>

lemma typed_fold [typing]: "(\<And>x G. typed G \<Longrightarrow> typed (g x G)) \<Longrightarrow> typed H \<Longrightarrow> typed (fold g xs H)"
  by (induction xs arbitrary: H) simp_all

lemma typed_pumps [typing]:
  assumes "typed H"
  shows "typed (write_pump r H)" "typed (ping_one E bs r H)" "typed (read_end E r H)"
    "typed (snd (http_upload E q H))" "typed (expire_messages E H)"
  using assms
  by (simp_all add: write_pump_def ping_one_def read_end_def http_upload_def expire_messages_def Let_def
      case_prod_beta typing split: list.split sum.split option.split prod.split)

lemma typed_panel_kick [typing]: "typed H \<Longrightarrow> r < next_obj H \<Longrightarrow> typed (panel_kick E r H)"
  by (simp add: panel_kick_def Let_def typed_def)

lemma typed_panel [typing]: "typed H \<Longrightarrow> typed (snd (executeAdminCommand E val (p, H)))"
  by (simp add: executeAdminCommand_def panel_op_def Let_def case_prod_beta typing typed_found
      split: list.split option.split)

lemma perform_typed: "typed H \<Longrightarrow> typed (perform E e H)"
  by (cases e)
     (simp_all add: read_pump_def delayed_removal_def heartbeat_def case_prod_beta vault_sweep_def
        vault_delete_def typing)

lemma run_typed: "hub_run E H H' \<Longrightarrow> typed H \<Longrightarrow> typed H'"
  by (rule run_invariant [where I = typed]) (simp_all add: perform_typed)

lemma typed_NewServer: "typed (NewServer E now pos d)"
  by (simp add: NewServer_def loadACL_def Let_def typed_def empty_client_def split: option.split)

lemma none_blacklisted: "typed H \<Longrightarrow> in_state H ''BLACKLISTED'' = 0"
  using typed_state [of H] typed_all [of H]
  by (fastforce simp: in_state_def client_states_def filter_empty_conv)

end
