(* ===== verification/HubBans.thy ===== *)
theory HubBans
  imports HubTypes
begin

text \<open>
  How long a ban lasts. What lifts the ban of an identity is the approval of a connected client
  that bears it, and the ban keeps further clients from bearing it: once the blocked client is
  gone, no event of any run lifts the ban.
\<close>

section \<open>Barred identities\<close>

text \<open>The identity is banned, and of the connected clients only those in \<open>S\<close> may bear it.\<close>

definition barred :: "string \<Rightarrow> nat set \<Rightarrow> Hub \<Rightarrow> bool" where
  "barred i S H \<longleftrightarrow>
     map_of (BlacklistMap H) i \<noteq> None \<and> (\<forall>q \<in> live H. Identity (objs H q) = i \<longrightarrow> q \<in> S)"

named_theorems bar \<open>introduction rules for \<open>barred\<close>\<close>

lemma barred_if [bar]: "barred i S A \<Longrightarrow> barred i S B \<Longrightarrow> barred i S (if b then A else B)"
  by simp

lemma barred_cong:
  assumes "BlacklistMap H' = BlacklistMap H" and "clients H' = clients H"
    and "\<And>r. Identity (objs H' r) = Identity (objs H r)"
  shows "barred i S H' = barred i S H"
  unfolding barred_def live_def assms ..

lemma barred_fewer:
  assumes "barred i S H" and "BlacklistMap H' = BlacklistMap H" and "live H' \<subseteq> live H"
    and "\<And>r. Identity (objs H' r) = Identity (objs H r)"
  shows "barred i S H'"
  using assms by (auto simp: barred_def)

context talking
begin

lemma barred_f [simp]: "barred i S (f H) = barred i S H"
  by (rule barred_cong) simp_all

end

lemma barred_records [simp]:
  "barred i S (H\<lparr>Stats := t\<rparr>) = barred i S H" "barred i S (H\<lparr>Admins := a\<rparr>) = barred i S H"
  "barred i S (H\<lparr>RawConns := j\<rparr>) = barred i S H" "barred i S (H\<lparr>rpos := k\<rparr>) = barred i S H"
  "barred i S (H\<lparr>clock := x\<rparr>) = barred i S H" "barred i S (H\<lparr>disk := d\<rparr>) = barred i S H"
  "barred i S (H\<lparr>Rooms := g\<rparr>) = barred i S H" "barred i S (H\<lparr>pending := ps\<rparr>) = barred i S H"
  "barred i S (H\<lparr>WhitelistMap := b\<rparr>) = barred i S H" "barred i S (H\<lparr>DBManager := m\<rparr>) = barred i S H"
  "barred i S (H\<lparr>Running := e\<rparr>) = barred i S H" "barred i S (saveACL E H) = barred i S H"
  "barred i S (rememberAdmin E p n H) = barred i S H" "barred i S (BumpEpoch E H) = barred i S H"
  "barred i S (close_raw H) = barred i S H"
  by (rule barred_cong; simp add: close_raw_def)+

lemma barred_upd [simp]: "(\<And>c. Identity (f c) = Identity c) \<Longrightarrow> barred i S (upd_obj r f H) = barred i S H"
  by (rule barred_cong) (simp_all add: upd_obj_apply)

lemma barred_roles: "roles H' = roles H \<Longrightarrow> barred i S H' = barred i S H"
proof -
  assume r: "roles H' = roles H"
  have "barred i S (roles G) = barred i S G" for G by (rule barred_cong) (simp_all add: roles_def)
  with r show ?thesis by metis
qed

section \<open>Operations\<close>

lemma barred_block [bar]: "barred i S H \<Longrightarrow> barred i S (snd (BlockClient E n H))"
proof (cases "GetClientByNickname n H")
  case (Some r)
  assume b: "barred i S H"
  have "Identity (objs (snd (BlockClient E n H)) q) = Identity (objs H q)" for q
    by (simp add: BlockClient_def Some Let_def)
  with b show ?thesis
    by (simp add: barred_def live_def BlockClient_effect(4,8) [OF Some] update_conv')
qed (simp add: BlockClient_def)

text \<open>Only an approval lifts a ban, and only that of an identity a connected client bears.\<close>

lemma barred_approve [bar]: "barred i {} H \<Longrightarrow> barred i {} (snd (ApproveClient E n H))"
proof (cases "GetClientByNickname n H")
  case (Some r)
  assume b: "barred i {} H"
  have "Identity (objs (snd (ApproveClient E n H)) q) = Identity (objs H q)" for q
    by (simp add: ApproveClient_def Some Let_def upd_obj_apply)
  moreover have "Identity (objs H r) \<noteq> i" using b found_live [OF Some] by (auto simp: barred_def)
  ultimately show ?thesis
    using b by (simp add: barred_def live_def ApproveClient_effect(5,7) [OF Some] AList.delete_conv)
qed (simp add: ApproveClient_none)

lemma barred_remove_entry [bar]: "barred i S H \<Longrightarrow> barred i S (snd (RemoveClient a H))"
  by (erule barred_fewer) (use set_delete [of a "clients H"] in \<open>auto simp: RemoveClient_def Let_def live_def\<close>)

lemma barred_remove [bar]: "barred i S H \<Longrightarrow> barred i S (removeClient E r H)"
  by (simp add: removeClient_def Let_def case_prod_beta bar)

lemma barred_handlers [bar]:
  assumes "barred i S H"
  shows "barred i S (handleAnn E r args H)" "barred i S (handleOp E r args H)"
    "S = {} \<Longrightarrow> barred i S (handleApprove E r args H)"
    "barred i S (handleBlock E r args H)" "barred i S (handleKick E r args H)" "barred i S (handleRoom E r args H)"
  using assms
  by (simp_all add: handleAnn_def handleOp_def handleApprove_def handleBlock_def handleKick_def
      handleRoom_def Let_def case_prod_beta bar split: option.split)

definition asks_approval :: "string list \<Rightarrow> bool" where
  "asks_approval ws \<longleftrightarrow> ws \<noteq> [] \<and> hd ws = ''/approve''"

lemma barred_Handle:
  assumes "barred i S H" and "asks_approval (Fields input) \<Longrightarrow> S = {}"
  shows "barred i S (Handle E r input H)"
proof (cases "Fields input")
  case (Cons w args)
  note handlers = barred_handlers [OF assms(1)]
  show ?thesis
  proof (cases "w = ''/approve''")
    case True
    then have "S = {}" using assms(2) Cons by (simp add: asks_approval_def)
    from handlers(3) [OF this] True show ?thesis by (simp add: Handle_def Cons registry_lookup)
  next
    case False
    then show ?thesis by (simp add: Handle_def Cons registry_lookup handlers(1,2,4-6) assms(1))
  qed
qed (simp add: Handle_def assms(1))

lemma barred_process:
  assumes "barred i S H"
    and "\<And>msg. open_message E (objs H r) txt = Some msg \<Longrightarrow> IsAdmin (objs H r) \<Longrightarrow>
      asks_approval (Fields (Content msg)) \<Longrightarrow> S = {}"
  shows "barred i S (processClientMessage E r txt H)"
proof (cases "IsAdmin (objs H r)")
  case False
  then have "roles (processClientMessage E r txt H) = roles H" by (rule roles_process)
  then show ?thesis using barred_roles assms(1) by blast
next
  case True
  show ?thesis
  proof (cases "open_message E (objs H r) txt")
    case (Some msg)
    have "barred i S (dispatch E r msg G)" if "barred i S G" for G
      using that assms(2) [OF Some True]
      by (simp add: dispatch_def handleCommand_def Let_def barred_Handle barred_roles [OF roles_FilePut])
    moreover have "barred i S (upd_obj r (\<lambda>_. snd (allowMessage (clock H) (objs H r))) H)"
      by (rule iffD2 [OF barred_cong assms(1)]) (simp_all add: upd_obj_apply allowMessage_def Let_def)
    ultimately show ?thesis
      using assms(1) by (simp add: processClientMessage_def Some Let_def case_prod_beta)
  qed (simp add: processClientMessage_def assms(1))
qed

section \<open>Connections\<close>

lemma barred_enter:
  assumes "barred i S H" and "Identity c \<noteq> i"
  shows "barred i S (AddClient a r (H\<lparr>objs := (objs H)(r := c), next_obj := n\<rparr>))"
  using assms set_update [of a r "clients H"] by (fastforce simp: barred_def live_def AddClient_def)

lemma barred_register:
  assumes "barred i S H" and "h_Identity hello \<noteq> i"
  shows "barred i S (snd (hs_register E a hello key H))"
proof -
  have add: "AddClient a r (Log E m G) = AddClient a r (G\<lparr>ConsoleHistory := ConsoleHistory (Log E m G)\<rparr>)" for r m G
    by (simp add: Log_def push_console_def AddClient_def)
  have cons: "barred i S (AddClient a r (G\<lparr>ConsoleHistory := cs\<rparr>)) = barred i S (AddClient a r G)" for r G cs
    by (rule barred_cong) (simp_all add: AddClient_def)
  have set: "upd_obj r (\<lambda>_. c) (H\<lparr>objs := (objs H)(r := d), next_obj := n\<rparr>) = H\<lparr>objs := (objs H)(r := c), next_obj := n\<rparr>"
    for r c d n by (simp add: upd_obj_def)
  show ?thesis
    by (simp add: hs_register_def Let_def add cons set split: option.split)
       (use assms(2) in \<open>auto intro!: barred_enter [OF assms(1)] simp: new_client_def empty_client_def\<close>)
qed

lemma barred_welcome [simp]: "barred i S (hs_welcome E r a n k H) = barred i S H"
  by (simp add: hs_welcome_def welcome_member_def enroll_member_def Let_def case_prod_beta)

lemma barred_answer: "barred i S H \<Longrightarrow> barred i S (snd (hs_answer E a priv nonce payload up H))"
proof (cases payload)
  case (Some b)
  assume t: "barred i S H"
  show ?thesis
  proof (cases "hs_verify E priv nonce b H")
    case (Pass hello key)
    then have "h_Identity hello \<noteq> i" using t by (auto simp: hs_verify_pass barred_def)
    from barred_register [OF t this, of E a key] show ?thesis
      by (auto simp: hs_answer_def Some Pass Let_def case_prod_beta split: option.split)
  qed (simp_all add: hs_answer_def Some t)
qed (simp add: hs_answer_def)

lemma barred_connect [bar]: "barred i S H \<Longrightarrow> barred i S (connect E a p up H)"
proof -
  assume "barred i S H"
  then have "barred i S (snd (accept H))" by (simp add: accept_def Let_def)
  moreover have "barred i S (snd (handleConnection E a p up G))" if "barred i S G" for G
  proof -
    obtain g G1 where g: "hs_greet E a G = (g, G1)" by fastforce
    have "barred i S (snd (hs_greet E a G)) = barred i S G"
      by (simp add: hs_greet_def Let_def case_prod_beta split: option.split sum.split)
    then have "barred i S G1" using that g by simp
    then show ?thesis
      using barred_answer by (auto simp: handleConnection_def g Let_def case_prod_beta split: option.split prod.split)
  qed
  ultimately show ?thesis by (simp add: connect_def case_prod_beta)
qed

section \<open>Steps and runs\<close>

lemma barred_fold [bar]: "(\<And>x G. barred i S G \<Longrightarrow> barred i S (g x G)) \<Longrightarrow> barred i S H \<Longrightarrow> barred i S (fold g xs H)"
  by (induction xs arbitrary: H) simp_all

lemma barred_pumps [bar]:
  assumes "barred i S H"
  shows "barred i S (write_pump r H)" "barred i S (ping_one E bs r H)" "barred i S (read_end E r H)"
    "barred i S (snd (http_upload E q H))" "barred i S (expire_messages E H)" "barred i S (panel_kick E r H)"
  using assms
  by (simp_all add: write_pump_def ping_one_def read_end_def http_upload_def expire_messages_def panel_kick_def
      Let_def case_prod_beta bar split: list.split sum.split option.split prod.split)

text \<open>A command to approve a client, given at the panel or sent by an administrator.\<close>

fun approving :: "'a hub_env_scheme \<Rightarrow> event \<Rightarrow> Hub \<Rightarrow> bool" where
  "approving E (Panel val) H \<longleftrightarrow> asks_approval (SplitN val (CHR '' '') 3)"
| "approving E (Frame r payload) H \<longleftrightarrow>
     (case open_message E (objs H r) payload of None \<Rightarrow> False
      | Some msg \<Rightarrow> IsAdmin (objs H r) \<and> asks_approval (Fields (Content msg)))"
| "approving E _ H \<longleftrightarrow> False"

lemma barred_panel:
  assumes "barred i S H" and "asks_approval (SplitN val (CHR '' '') 3) \<Longrightarrow> S = {}"
  shows "barred i S (snd (executeAdminCommand E val (p, H)))"
proof (cases "SplitN val (CHR '' '') 3")
  case Nil
  then show ?thesis using assms(1) by (simp add: executeAdminCommand_def)
next
  case (Cons w args)
  show ?thesis
  proof (cases "w = ''/approve''")
    case True
    then have "S = {}" using assms(2) Cons by (simp add: asks_approval_def)
    then have "barred i S (snd (ApproveClient E n H))" for n using assms(1) barred_approve by blast
    then show ?thesis
      using assms(1) True by (simp add: executeAdminCommand_def Cons Let_def case_prod_beta split: list.split)
  next
    case False
    then show ?thesis
      using assms(1)
      by (simp add: executeAdminCommand_def Cons panel_op_def Let_def case_prod_beta bar split: list.split option.split)
  qed
qed

lemma perform_barred:
  assumes "barred i S H" and "approving E e H \<Longrightarrow> S = {}"
  shows "barred i S (perform E e H)"
proof (cases e)
  case (Frame r payload)
  have "open_message E ((objs H r)\<lparr>LastSeen := t\<rparr>) payload = open_message E (objs H r) payload" for t
    by (simp add: open_message_def cong: option.case_cong)
  then show ?thesis
    using assms unfolding Frame perform.simps read_pump_def
    by (intro barred_process) (simp_all add: upd_obj_apply split: option.splits)
next
  case (Panel val)
  then show ?thesis using assms by (simp add: barred_panel)
qed (use assms(1) in \<open>simp_all add: delayed_removal_def heartbeat_def case_prod_beta vault_sweep_def
    vault_delete_def bar\<close>)

text \<open>Runs in which nobody is approved as long as the client \<open>r\<close> is connected.\<close>

inductive ban_run :: "'a hub_env_scheme \<Rightarrow> nat \<Rightarrow> Hub \<Rightarrow> Hub \<Rightarrow> bool" for E r where
  stop: "ban_run E r H H"
| more: "ban_run E r H H1 \<Longrightarrow> enabled e H1 \<Longrightarrow> (approving E e H1 \<Longrightarrow> r \<notin> live H1) \<Longrightarrow>
    ban_run E r H (perform E e H1)"

lemma ban_run_barred: "ban_run E r H G \<Longrightarrow> barred i {r} H \<Longrightarrow> barred i {r} G"
proof (induction rule: ban_run.induct)
  case (more H H1 e)
  then have b: "barred i {r} H1" by simp
  show ?case
  proof (cases "approving E e H1")
    case True
    then have "barred i {} H1" using b more.hyps by (auto simp: barred_def)
    then have "barred i {} (perform E e H1)" by (rule perform_barred) simp
    then show ?thesis by (auto simp: barred_def)
  qed (use perform_barred [OF b, of E e] in simp)
qed

section \<open>What a banned identity meets\<close>

text \<open>The checks of a hello that come before the look at the bans.\<close>

definition presentable :: "'a hub_env_scheme \<Rightarrow> bytes \<Rightarrow> bytes \<Rightarrow> ClientHello \<Rightarrow> Hub \<Rightarrow> bool" where
  "presentable E priv nonce hello H \<longleftrightarrow>
     h_X25519Pub hello \<noteq> [] \<and> CompatibleVersion (h_Version hello) Version \<and>
     h_Nickname hello \<noteq> [] \<and> length (h_Nickname hello) \<le> 32 \<and>
     VerifyPoW E nonce (h_PowNonce hello) PoWDifficulty = Some True \<and>
     DeriveSharedKey E priv (h_X25519Pub hello) \<noteq> None \<and>
     Verify E (h_SigningPub hello) nonce (h_Signature hello) \<and>
     (\<forall>k. (k, h_Nickname hello) \<in> set (WhitelistMap H) \<longrightarrow> k = Base64Encode (h_SigningPub hello))"

lemma banned_refused:
  assumes "map_of (BlacklistMap H) (h_Identity hello) = Some b" and "pb_hello_dec E payload = Some hello"
  shows "hs_verify E priv nonce payload H \<noteq> Pass h k"
    and "presentable E priv nonce hello H \<Longrightarrow> hs_verify E priv nonce payload H = Refuse (''banned: '' @ b)"
proof -
  show "hs_verify E priv nonce payload H \<noteq> Pass h k" using assms by (auto simp: hs_verify_pass)
  assume "presentable E priv nonce hello H"
  then show "hs_verify E priv nonce payload H = Refuse (''banned: '' @ b)"
    using assms by (auto simp: hs_verify_def presentable_def Let_def split: option.splits)
qed

end
