(* ===== verification/HubProperties.thy ===== *)
theory HubProperties
  imports Instances HubBans
begin

text \<open>
  Properties of the hub: who gets in, who may do what, what is delivered, what is stored and
  what every run keeps. The examples run on \<open>demo_hub\<close>, a hub started in the environment
  \<open>demo\<close>.
\<close>

section \<open>Examples\<close>

definition demo_hub :: Hub where
  "demo_hub = (NewServer demo 0 0 (\<lambda>_. None))\<lparr>VaultDir := ''/h/vault''\<rparr>"

definition demo_client :: "string \<Rightarrow> string \<Rightarrow> bytes \<Rightarrow> string \<Rightarrow> Client" where
  "demo_client nick addr pub st =
     empty_client\<lparr>Nickname := nick, Address := addr, Identity := addr @ ''id'', SigningPubKey := pub,
       EncryptionKey := zeros 32, State := st, ConnOpen := True, Pumping := True, Reading := True\<rparr>"

text \<open>Two members and one client that waits.\<close>

definition demo_room :: Hub where
  "demo_room = demo_hub\<lparr>
     objs := (\<lambda>_. empty_client)(0 := demo_client ''ann'' ''1'' ''ka'' ''WHITELISTED'',
        1 := demo_client ''bob'' ''2'' ''kb'' ''WHITELISTED'', 2 := demo_client ''eve'' ''3'' ''ke'' ''PENDING''),
     next_obj := 3, clients := [(''1'', 0), (''2'', 1), (''3'', 2)]\<rparr>"

lemma demo_hub_fields [simp]:
  "objs demo_hub = (\<lambda>_. empty_client)" "next_obj demo_hub = 0" "clients demo_hub = []"
  "WhitelistMap demo_hub = []" "BlacklistMap demo_hub = []" "Admins demo_hub = []"
  "VaultToken demo_hub = []" "disk demo_hub = (\<lambda>_. None)" "clock demo_hub = 0" "rpos demo_hub = 0"
  "AutoApprove demo_hub = False" "ConsoleHistory demo_hub = []" "EventLog demo_hub = []"
  "VaultDir demo_hub = ''/h/vault''" "pending demo_hub = []"
  "DBManager demo_hub = NewMemoryManager MessageHistoryLimit MessageTTL"
  by (simp_all add: demo_hub_def NewServer_def loadACL_def Let_def)

lemma demo_room_fields [simp]:
  "objs demo_room = (\<lambda>_. empty_client)(0 := demo_client ''ann'' ''1'' ''ka'' ''WHITELISTED'',
        1 := demo_client ''bob'' ''2'' ''kb'' ''WHITELISTED'', 2 := demo_client ''eve'' ''3'' ''ke'' ''PENDING'')"
  "next_obj demo_room = 3" "clients demo_room = [(''1'', 0), (''2'', 1), (''3'', 2)]"
  "WhitelistMap demo_room = []" "BlacklistMap demo_room = []" "Admins demo_room = []"
  "VaultToken demo_room = []" "disk demo_room = (\<lambda>_. None)" "clock demo_room = 0"
  "rpos demo_room = 0" "AutoApprove demo_room = False" "ConsoleHistory demo_room = []"
  "EventLog demo_room = []" "VaultDir demo_room = ''/h/vault''"
  "DBManager demo_room = NewMemoryManager MessageHistoryLimit MessageTTL"
  by (simp_all add: demo_room_def)

lemma demo_client_fields [simp]:
  "Nickname (demo_client n a k s) = n" "Address (demo_client n a k s) = a"
  "Identity (demo_client n a k s) = a @ ''id''"
  "SigningPubKey (demo_client n a k s) = k" "EncryptionKey (demo_client n a k s) = zeros 32"
  "State (demo_client n a k s) = s" "SendChan (demo_client n a k s) = []"
  "IsAdmin (demo_client n a k s) = False" "winStart (demo_client n a k s) = None"
  by (simp_all add: demo_client_def empty_client_def)

lemma empty_client_chan [simp]: "SendChan empty_client = []"
  by (simp add: empty_client_def)

lemma demo_bounded: "bounded demo_hub" "bounded demo_room"
  by (simp_all add: bounded_def memory_ok_def NewMemoryManager_def)

lemma demo_live [simp]: "live demo_room = {0, 1, 2}" "live demo_hub = {}"
  by (auto simp: live_def)

lemma demo_id_inv: "id_inv demo_hub" "id_inv demo_room"
  by (simp_all add: id_inv_def demo_live)


definition demo_hello :: "string \<Rightarrow> char \<Rightarrow> ClientHello" where
  "demo_hello nick c =
     \<lparr>h_X25519Pub = zeros 32, h_Nickname = nick, h_Identity = nick, h_SigningPub = replicate 32 c,
      h_Signature = zeros 64, h_PowNonce = 0, h_E2EPub = [], h_Version = Version\<rparr>"

definition demo_payload :: "string \<Rightarrow> char \<Rightarrow> bytes" where
  "demo_payload nick c = the (hello_enc (demo_hello nick c))"

lemma demo_hello_dec: "hello_dec (demo_payload nick c) = Some (demo_hello nick c)"
proof -
  obtain b where b: "hello_enc (demo_hello nick c) = Some b" by (simp add: hello_enc_def)
  then have "hello_dec b = Some (demo_hello nick c)"
    using demo_pb(3) by (simp add: pb_handshake_ok_def)
  with b show ?thesis by (simp add: demo_payload_def)
qed

lemma demo_pass:
  assumes "nick \<noteq> []" "length nick \<le> 32"
  shows "hs_verify demo priv nonce (demo_payload nick c) demo_hub = Pass (demo_hello nick c) (zeros 32)"
proof -
  have z: "zeros 32 \<noteq> []" by (simp add: zeros_def)
  show ?thesis
    unfolding hs_verify_pass using assms z
    by (simp add: demo_hello_dec demo_hello_def CompatibleVersion_def VerifyPoW_def powTarget_def
        powHash_def Verify_def DeriveSharedKey_def DeriveSessionKey_def GetClientByNickname_def cfg)
qed

section \<open>Admission\<close>

lemma hs_welcome_objs:
  "EncryptionKey (objs (hs_welcome E r a n k H) q) = EncryptionKey (objs H q)"
  "SigningPubKey (objs (hs_welcome E r a n k H) q) = SigningPubKey (objs H q)"
  "Nickname (objs (hs_welcome E r a n k H) q) = Nickname (objs H q)"
  "State (objs (hs_welcome E r a n k H) q) =
     (if q = r \<and> (k \<or> AutoApprove H) then ''WHITELISTED'' else State (objs H q))"
  "clients (hs_welcome E r a n k H) = clients H"
  by (simp_all add: hs_welcome_def welcome_member_def enroll_member_def Let_def case_prod_beta
      upd_obj_apply)

lemma register_effect:
  assumes "hs_register E a hello key H = ((r, known), H')"
  shows "r = next_obj H" and "known \<longleftrightarrow> map_of (WhitelistMap H) (Base64Encode (h_SigningPub hello)) \<noteq> None"
    and "EncryptionKey (objs H' r) = key" and "SigningPubKey (objs H' r) = h_SigningPub hello"
    and "Nickname (objs H' r) = (case map_of (WhitelistMap H) (Base64Encode (h_SigningPub hello)) of
           None \<Rightarrow> h_Nickname hello | Some n \<Rightarrow> n)"
    and "State (objs H' r) = (if known then ''WHITELISTED'' else ''PENDING'')"
    and "clients H' = AList.update a r (clients H)" and "AutoApprove H' = AutoApprove H"
    and "HTTPPort H' = HTTPPort H" and "q \<noteq> r \<Longrightarrow> objs H' q = objs H q" and "next_obj H' = Suc r"
    and "WhitelistMap H' = WhitelistMap H"
  using assms
  by (auto simp: hs_register_def Let_def AddClient_def upd_obj_apply new_client_def empty_client_def
      Log_def push_console_def split: option.splits)

text \<open>C1: the hub takes a client in only after every check of the handshake passed: a compatible
  version, a nickname of 1 to 32 bytes that nobody uses and no other key owns, a valid proof of
  work, a signature over the hub's own nonce and an identity that is not banned. The client
  then has the session key of that exchange, the nickname its key owns if it owns one, and is a
  member only when its key is whitelisted or the hub approves everybody. A refused hello leaves
  the hub as it was.\<close>

theorem admission:
  assumes "hs_answer E addr priv nonce (Some payload) up H = ((res, out), H')"
  shows "(case hs_verify E priv nonce payload H of
      Pass hello key \<Rightarrow>
        pb_hello_dec E payload = Some hello \<and> CompatibleVersion (h_Version hello) Version \<and>
        0 < length (h_Nickname hello) \<and> length (h_Nickname hello) \<le> 32 \<and>
        VerifyPoW E nonce (h_PowNonce hello) PoWDifficulty = Some True \<and>
        Verify E (h_SigningPub hello) nonce (h_Signature hello) \<and>
        DeriveSharedKey E priv (h_X25519Pub hello) = Some key \<and>
        map_of (BlacklistMap H) (h_Identity hello) = None \<and>
        (\<forall>r \<in> set (GetAllClients H). Nickname (objs H r) \<noteq> h_Nickname hello) \<and>
        (\<forall>x \<in> set (WhitelistMap H). snd x = h_Nickname hello \<longrightarrow>
           fst x = Base64Encode (h_SigningPub hello)) \<and>
        (let r = next_obj H; own = map_of (WhitelistMap H) (Base64Encode (h_SigningPub hello))
         in map_of (clients H') addr = Some r \<and> EncryptionKey (objs H' r) = key \<and>
            SigningPubKey (objs H' r) = h_SigningPub hello \<and>
            Nickname (objs H' r) = (case own of None \<Rightarrow> h_Nickname hello | Some n \<Rightarrow> n) \<and>
            (State (objs H' r) = ''WHITELISTED'' \<longrightarrow> own \<noteq> None \<or> AutoApprove H) \<and>
            (res \<noteq> None \<longrightarrow> res = Some r))
    | _ \<Rightarrow> res = None \<and> H' = H)"
proof (cases "hs_verify E priv nonce payload H")
  case (Pass hello key)
  obtain r known H1 where reg: "hs_register E addr hello key H = ((r, known), H1)"
    by (metis prod.collapse)
  note eff = register_effect [OF reg]
  have cases: "H' = upd_obj r (\<lambda>c. c\<lparr>ConnOpen := False\<rparr>) H1 \<and> res = None \<or>
      H' = upd_obj r (\<lambda>c. c\<lparr>Pumping := True, Reading := True\<rparr>)
        (hs_welcome E r addr (h_Nickname hello) known H1) \<and> res = Some r"
    using assms by (auto simp: hs_answer_def Pass reg split: option.splits)
  have "map_of (clients H') addr = Some r" "EncryptionKey (objs H' r) = key"
    "SigningPubKey (objs H' r) = h_SigningPub hello"
    "Nickname (objs H' r) = (case map_of (WhitelistMap H) (Base64Encode (h_SigningPub hello)) of
       None \<Rightarrow> h_Nickname hello | Some n \<Rightarrow> n)"
    "State (objs H' r) = ''WHITELISTED'' \<longrightarrow> known \<or> AutoApprove H"
    using cases by (auto simp: hs_welcome_objs eff(3-8) update_conv' split: if_splits)
  moreover have "res \<noteq> None \<longrightarrow> res = Some r" using cases by auto
  moreover have "\<forall>x \<in> set (WhitelistMap H). snd x = h_Nickname hello \<longrightarrow>
      fst x = Base64Encode (h_SigningPub hello)"
    using Pass [unfolded hs_verify_pass] by auto
  ultimately show ?thesis
    using Pass [unfolded hs_verify_pass] eff(1,2) by (simp add: Pass Let_def by_nick_none)
qed (use assms in \<open>simp_all add: hs_answer_def\<close>)

theorem admission_witness:
  "let H' = snd (hs_answer demo ''9'' [] [] (Some (demo_payload ''bob'' (CHR ''k''))) True demo_hub)
   in map_of (clients H') ''9'' = Some 0 \<and> Nickname (objs H' 0) = ''bob'' \<and>
      State (objs H' 0) \<noteq> ''WHITELISTED''"
  using admission [of demo "''9''" "[]" "[]" "demo_payload ''bob'' (CHR ''k'')" True demo_hub, OF surjective_pairing
      [THEN trans, OF arg_cong2 [where f = Pair, OF surjective_pairing refl]]]
  by (simp add: demo_pass demo_hello_def Let_def)

section \<open>What every run keeps\<close>

text \<open>C2: along every run of handlers that do not overlap, starting from access lists in which a
  nickname has one owner, two connected clients with the same nickname have the same signing
  key, and a connected client that bears a whitelisted nickname holds the key it was
  whitelisted for: nobody can impersonate a member.\<close>

theorem no_impersonation:
  assumes "hub_run E H H'" and "id_inv H" and "kdf_sizes E"
  shows "id_inv H' \<and>
    (\<forall>r \<in> live H'. \<forall>s \<in> live H'. Nickname (objs H' r) = Nickname (objs H' s) \<longrightarrow>
       SigningPubKey (objs H' r) = SigningPubKey (objs H' s)) \<and>
    (\<forall>r \<in> live H'. \<forall>x \<in> set (WhitelistMap H'). snd x = Nickname (objs H' r) \<longrightarrow>
       fst x = Base64Encode (SigningPubKey (objs H' r)))"
proof -
  have "id_inv H'"
    by (rule run_invariant [where I = id_inv, OF assms(1,2)]) (rule perform_id_inv [OF _ assms(3)])
  then show ?thesis unfolding id_inv_def by (elim conjE) (intro conjI; assumption)
qed

theorem no_impersonation_witness:
  "id_inv (perform demo (Panel ''/approve eve'') demo_room)"
proof -
  have "hub_run demo demo_room (perform demo (Panel ''/approve eve'') demo_room)"
    by (rule hub_run.more [OF hub_run.stop hub_step.step]) simp
  from no_impersonation [OF this demo_id_inv(2) demo_keys(2)] show ?thesis by simp
qed

text \<open>C24: from its start on, in every run, the hub is well typed: what it holds are references to
  clients that were made, filed under their addresses, and every client waits or is a member. The
  third state the code names is never entered: the panel counts no blocked client, ever.\<close>

theorem hub_typed:
  assumes "hub_run E (StartOn E addr (NewServer E now pos d)) H"
  shows "typed H \<and> in_state H ''BLACKLISTED'' = 0"
proof -
  have "typed (StartOn E addr (NewServer E now pos d))" by (simp add: StartOn_def typed_NewServer)
  then have "typed H" using run_typed [OF assms] by blast
  then show ?thesis using none_blacklisted by blast
qed

theorem hub_typed_witness:
  "let H = perform demo (Connect ''1'' (Some ''x'') True) (StartOn demo '':6666'' (NewServer demo 0 0 (\<lambda>_. None)))
   in typed H \<and> in_state H ''BLACKLISTED'' = 0"
proof -
  let ?H = "StartOn demo '':6666'' (NewServer demo 0 0 (\<lambda>_. None))"
  have "hub_run demo ?H (perform demo (Connect ''1'' (Some ''x'') True) ?H)"
    by (rule hub_run.more [OF hub_run.stop hub_step.step]) simp
  from hub_typed [OF this] show ?thesis by (simp add: Let_def)
qed

text \<open>C35: the checks of a handshake and the entry into the map are not one critical section: two
  hellos with the same nickname and different keys, neither of which is on the whitelist, that are
  both checked before either client is entered are both entered: two connected clients then bear the
  one nickname with different signing keys, which the identity invariant excludes.\<close>

theorem handshake_race:
  assumes "hs_verify E p1 n1 b1 H = Pass h1 k1" and "hs_verify E p2 n2 b2 H = Pass h2 k2"
    and "h_Nickname h1 = h_Nickname h2" and "h_SigningPub h1 \<noteq> h_SigningPub h2" and "a1 \<noteq> a2"
    and "map_of (WhitelistMap H) (Base64Encode (h_SigningPub h1)) = None"
    and "map_of (WhitelistMap H) (Base64Encode (h_SigningPub h2)) = None"
    and "H' = snd (hs_register E a2 h2 k2 (snd (hs_register E a1 h1 k1 H)))"
  shows "\<exists>r1 r2. map_of (clients H') a1 = Some r1 \<and> map_of (clients H') a2 = Some r2 \<and> r1 \<noteq> r2 \<and>
    Nickname (objs H' r1) = h_Nickname h1 \<and> Nickname (objs H' r2) = h_Nickname h1 \<and>
    SigningPubKey (objs H' r1) = h_SigningPub h1 \<and> SigningPubKey (objs H' r2) = h_SigningPub h2 \<and>
    \<not> id_inv H'"
proof -
  let ?H1 = "snd (hs_register E a1 h1 k1 H)"
  obtain r1 w1 where r1: "hs_register E a1 h1 k1 H = ((r1, w1), ?H1)" by (metis prod.collapse)
  obtain r2 w2 where r2: "hs_register E a2 h2 k2 ?H1 = ((r2, w2), H')"
    unfolding assms(8) by (metis prod.collapse)
  note e1 = register_effect [OF r1] and e2 = register_effect [OF r2]
  have ne: "r1 \<noteq> r2" using e1(11) e2(1) by simp
  have at: "map_of (clients H') a1 = Some r1" "map_of (clients H') a2 = Some r2"
    using e1(7) e2(7) assms(5) by (simp_all add: update_conv')
  then have l: "r1 \<in> live H'" "r2 \<in> live H'"
    unfolding live_def by (force dest: map_of_SomeD simp: image_iff)+
  have one: "Nickname (objs H' r1) = h_Nickname h1" "SigningPubKey (objs H' r1) = h_SigningPub h1"
    using e1(4,5) e2(10) [OF ne] assms(6) by simp_all
  have two: "Nickname (objs H' r2) = h_Nickname h1" "SigningPubKey (objs H' r2) = h_SigningPub h2"
    using e2(4,5) e1(12) assms(3,7) by simp_all
  have "\<not> id_inv H'" using id_inv_nick [OF _ l] one two assms(4) by auto
  with at ne one two show ?thesis by blast
qed

theorem handshake_race_witness:
  "let H' = snd (hs_register demo ''2'' (demo_hello ''bob'' (CHR ''y'')) (zeros 32)
     (snd (hs_register demo ''1'' (demo_hello ''bob'' (CHR ''x'')) (zeros 32) demo_hub)))
   in id_inv demo_hub \<and> \<not> id_inv H' \<and>
      (\<exists>r1 r2. map_of (clients H') ''1'' = Some r1 \<and> map_of (clients H') ''2'' = Some r2 \<and> r1 \<noteq> r2 \<and>
         Nickname (objs H' r1) = ''bob'' \<and> Nickname (objs H' r2) = ''bob'')"
proof -
  have nick: "''bob'' \<noteq> []" "length ''bob'' \<le> 32" by simp_all
  note race = handshake_race [OF demo_pass [OF nick, where c = "CHR ''x''"] demo_pass [OF nick, where c = "CHR ''y''"]
      _ _ _ _ _ refl, of "''1''" "''2''"]
  show ?thesis unfolding Let_def using race demo_id_inv(1) by (auto simp: demo_hello_def)
qed

text \<open>In every run the two logs stay within 1000 and 200 entries, the message memory within
  its limit and every client's queue within 100 payloads.\<close>

lemma hub_bounded:
  assumes "hub_run E H H'" and "bounded H"
  shows "length (ConsoleHistory H') \<le> 1000 \<and> length (EventLog H') \<le> 200 \<and>
    length (messages (DBManager H')) \<le> MessageHistoryLimit \<and>
    (\<forall>r. length (SendChan (objs H' r)) \<le> 100)"
proof -
  have "bounded H'"
    by (rule run_invariant [where I = bounded, OF assms]) (rule perform_bounded)
  then show ?thesis by (simp add: bounded_def memory_ok_def)
qed

lemma hub_bounded_example:
  "length (ConsoleHistory (perform demo Ping demo_room)) \<le> 1000 \<and>
   length (EventLog (perform demo Ping demo_room)) \<le> 200 \<and>
   length (messages (DBManager (perform demo Ping demo_room))) \<le> MessageHistoryLimit \<and>
   (\<forall>r. length (SendChan (objs (perform demo Ping demo_room) r)) \<le> 100)"
proof -
  have "hub_run demo demo_room (perform demo Ping demo_room)"
    by (rule hub_run.more [OF hub_run.stop hub_step.step]) simp
  then show ?thesis using demo_bounded(2) by (rule hub_bounded)
qed



section \<open>Privileges\<close>

text \<open>C3: nothing a client without administrator rights sends changes who is connected, approved,
  banned or administrator, any client's name, keys or state, the access lists, the scheduled
  removals or the vault token.\<close>

theorem no_privilege_escalation:
  assumes "\<not> IsAdmin (objs H r)"
  shows "let H' = processClientMessage E r txt H
    in clients H' = clients H \<and> WhitelistMap H' = WhitelistMap H \<and> BlacklistMap H' = BlacklistMap H \<and>
       Admins H' = Admins H \<and> pending H' = pending H \<and> VaultToken H' = VaultToken H \<and>
       (\<forall>q. State (objs H' q) = State (objs H q) \<and> IsAdmin (objs H' q) = IsAdmin (objs H q) \<and>
            Nickname (objs H' q) = Nickname (objs H q) \<and>
            SigningPubKey (objs H' q) = SigningPubKey (objs H q) \<and>
            EncryptionKey (objs H' q) = EncryptionKey (objs H q) \<and>
            ConnOpen (objs H' q) = ConnOpen (objs H q))"
proof -
  let ?H' = "processClientMessage E r txt H"
  have objs: "(objs ?H' q)\<lparr>SendChan := [], MessageCount := 0, winStart := None, winCount := 0\<rparr> =
      (objs H q)\<lparr>SendChan := [], MessageCount := 0, winStart := None, winCount := 0\<rparr>" for q
    using arg_cong [OF roles_process [OF assms, of E "txt"], of "\<lambda>G. objs G q"] by (simp add: roles_def)
  have c: "State (objs ?H' q) = State (objs H q) \<and> IsAdmin (objs ?H' q) = IsAdmin (objs H q) \<and>
      Nickname (objs ?H' q) = Nickname (objs H q) \<and> SigningPubKey (objs ?H' q) = SigningPubKey (objs H q) \<and>
      EncryptionKey (objs ?H' q) = EncryptionKey (objs H q) \<and> ConnOpen (objs ?H' q) = ConnOpen (objs H q)" for q
    using objs [of q] by (cases "objs ?H' q"; cases "objs H q") simp
  note r = roles_process [OF assms, of E "txt"]
  show ?thesis
    using arg_cong [OF r, of clients] arg_cong [OF r, of WhitelistMap] arg_cong [OF r, of BlacklistMap]
      arg_cong [OF r, of Admins] arg_cong [OF r, of pending] arg_cong [OF r, of VaultToken] c
    by (simp add: roles_def Let_def)
qed

theorem no_privilege_escalation_witness:
  "let H' = processClientMessage demo 0 ''x'' demo_room
   in clients H' = clients demo_room \<and> WhitelistMap H' = WhitelistMap demo_room \<and>
      BlacklistMap H' = BlacklistMap demo_room \<and> Admins H' = Admins demo_room"
  using no_privilege_escalation [of demo_room 0 demo "''x''"] by (simp add: Let_def)

text \<open>C23: a client that waits for approval can do nothing: whatever it sends, at most one notice is
  queued for itself; no other queue, no history, no list and no state changes.\<close>

theorem pending_inert:
  assumes "State (objs H r) = ''PENDING''"
  shows "let H' = processClientMessage E r txt H
    in settled H' = settled H \<and> DBManager H' = DBManager H \<and>
       (\<forall>q. q \<noteq> r \<longrightarrow> SendChan (objs H' q) = SendChan (objs H q)) \<and>
       length (SendChan (objs H' r)) \<le> Suc (length (SendChan (objs H r)))"
proof -
  have "settled (SendSystemMessage E r c H) = settled H" for c
    by (rule SendSystemMessage.settled_f)
  moreover have "DBManager (SendSystemMessage E r c H) = DBManager H" for c
    by (simp add: SendSystemMessage_alt Let_def snd_deliver queue_to_def seal_for_def case_prod_beta
        snd_new_msg Log_def push_console_def)
  moreover have "length (SendChan (objs (SendSystemMessage E r c H) r)) \<le> Suc (length (SendChan (objs H r)))"
    for c by (simp add: SendSystemMessage_alt Let_def snd_deliver SendChan_queue_to)
  ultimately show ?thesis
    by (simp add: process_pending [OF assms] SendSystemMessage_other Let_def)
qed

theorem pending_inert_witness:
  "let H' = processClientMessage demo 2 ''x'' demo_room
   in settled H' = settled demo_room \<and> DBManager H' = DBManager demo_room"
  using pending_inert [of demo_room 2 demo "''x''"] by (simp add: Let_def)

section \<open>Delivery\<close>

lemma id_inv_distinct:
  assumes "id_inv H"
  shows "distinct (GetAllClients H)"
proof -
  note parts = id_inv_parts(1,2) [OF assms]
  have "inj_on snd (set (clients H))"
    by (rule inj_onI) (metis parts(2) prod.expand)
  then show ?thesis
    using parts(1) by (simp add: GetAllClients_def distinct_map)
qed

lemma id_inv_keys: "id_inv H \<Longrightarrow> keys_ok H"
  using id_inv_parts(3) by (auto simp: keys_ok_def GetAllClients_def live_def)

lemma broadcast_delivers:
  assumes "gcm_correct E" and "id_inv H" and "Encode E msg = Some bs"
  shows "(\<forall>q. if q \<in> live H \<and> State (objs H q) = st \<and> Address (objs H q) \<noteq> x \<and>
              length (SendChan (objs H q)) < 100
           then \<exists>p. SendChan (objs (BroadcastToState E st msg x H) q) = SendChan (objs H q) @ [p] \<and>
                  opened E (EncryptionKey (objs H q)) p = Some bs
           else SendChan (objs (BroadcastToState E st msg x H) q) = SendChan (objs H q)) \<and>
    MessagesSent (Stats (BroadcastToState E st msg x H)) = MessagesSent (Stats H) +
      int (length (receivers st x H (GetAllClients H)))"
proof -
  note b = BroadcastToState_gains [OF assms(1) id_inv_distinct [OF assms(2)] id_inv_keys [OF assms(2)]]
  have mem: "q \<in> set (receivers st x H (GetAllClients H)) \<longleftrightarrow>
      q \<in> live H \<and> State (objs H q) = st \<and> Address (objs H q) \<noteq> x \<and> length (SendChan (objs H q)) < 100" for q
    by (auto simp: receivers_def has_room_def GetAllClients_def live_def)
  have bs: "nil_or (Encode E msg) = bs" by (simp add: assms(3) nil_or_def)
  show ?thesis
    by (intro conjI allI b(2)) (rule b(1) [of msg st x, unfolded mem gains_def bs])
qed

text \<open>C8: a broadcast puts one payload, which the receiver's session key opens to the encoded
  message, into the queue of every connected client in the given state except the excluded
  address, provided the queue has room; no other queue changes, and the counter of sent messages
  grows by exactly the number of payloads queued.\<close>

theorem broadcast_exact:
  assumes "gcm_correct E" and "id_inv H" and "Encode E msg = Some bs"
  shows "(\<forall>q. if q \<in> live H \<and> State (objs H q) = st \<and> Address (objs H q) \<noteq> x \<and>
              length (SendChan (objs H q)) < 100
           then \<exists>p. SendChan (objs (BroadcastToState E st msg x H) q) = SendChan (objs H q) @ [p] \<and>
                  opened E (EncryptionKey (objs H q)) p = Some bs
           else SendChan (objs (BroadcastToState E st msg x H) q) = SendChan (objs H q)) \<and>
    MessagesSent (Stats (BroadcastToState E st msg x H)) = MessagesSent (Stats H) +
      int (length (receivers st x H (GetAllClients H)))"
  using assms by (rule broadcast_delivers)

theorem broadcast_exact_witness:
  "\<exists>p. SendChan (objs (BroadcastToState demo ''WHITELISTED'' empty_message ''1'' demo_room) 1) = [p] \<and>
     opened demo (zeros 32) p = chat_enc empty_message"
proof -
  obtain bs where e: "Encode demo empty_message = Some bs" "chat_enc empty_message = Some bs"
    by (simp add: Encode_def chat_enc_def)
  then show ?thesis
    using broadcast_exact [OF demo_gcm(1) demo_id_inv(2) e(1), of "''WHITELISTED''" "''1''"]
    by (auto dest: spec [of _ 1])
qed

lemma send_ack_other: "q \<noteq> r \<Longrightarrow> SendChan (objs (send_ack E r msg H) q) = SendChan (objs H q)"
  by (simp add: send_ack_def Let_def case_prod_beta snd_deliver SendChan_queue_to)

lemma allow_fields [simp]:
  "State (snd (allowMessage t c)) = State c" "Address (snd (allowMessage t c)) = Address c"
  "SendChan (snd (allowMessage t c)) = SendChan c"
  "EncryptionKey (snd (allowMessage t c)) = EncryptionKey c"
  by (simp_all add: allowMessage_def Let_def)

lemma relay_chat:
  assumes "gcm_correct E" and "id_inv H" and "r \<in> live H" and "State (objs H r) = ''WHITELISTED''"
    and "open_message E (objs H r) txt = Some msg" and "Type msg = MsgTypeChat" and "IsE2Ee msg"
    and "Encode E msg = Some bs" and "Decode E bs = Some msg"
    and "fst (allowMessage (clock H) (objs H r))" and "q \<in> live H" and "q \<noteq> r"
  shows "if State (objs H q) = ''WHITELISTED'' \<and> length (SendChan (objs H q)) < 100
    then \<exists>p. SendChan (objs (processClientMessage E r txt H) q) = SendChan (objs H q) @ [p] \<and>
           received E (EncryptionKey (objs H q)) p = Some msg
    else SendChan (objs (processClientMessage E r txt H) q) = SendChan (objs H q)"
proof -
  define H1 where "H1 = upd_obj r (\<lambda>_. snd (allowMessage (clock H) (objs H r))) H"
  define H2 where "H2 = save_history E MsgTypeChat ''[e2ee]'' (Nickname (objs (send_ack E r msg H1) r))
      (upd_obj r (\<lambda>c. c\<lparr>MessageCount := MessageCount c + 1\<rparr>) (send_ack E r msg H1))"
  define H3 where "H3 = Log E (''[WHITELIST] '' @ Nickname (objs (send_ack E r msg H1) r) @ '': ciphertext'') H2"
  have inv1: "id_inv H1"
    unfolding H1_def
    by (rule iffD2 [OF id_inv_cong assms(2)]) (simp_all add: same_ident_def upd_obj_apply)
  then have inv: "id_inv H3" by (simp add: H3_def H2_def)
  have same: "same_ident H H3"
    by (simp add: H3_def H2_def H1_def same_ident_def ident_def upd_obj_apply allowMessage_def Let_def)
  have st: "State (objs H3 q) = State (objs H q)" "Address (objs H3 q) = Address (objs H q)"
    "EncryptionKey (objs H3 q) = EncryptionKey (objs H q)" "SendChan (objs H3 q) = SendChan (objs H q)"
    using assms(12)
    by (simp_all add: H3_def H2_def H1_def upd_obj_apply send_ack_other)
  have run: "processClientMessage E r txt H =
      BroadcastToState E ''WHITELISTED'' msg (Address (objs H r)) H3"
    using assms(4-7,10)
    by (simp add: processClientMessage_def dispatch_def rate_limited_def Let_def case_prod_beta cfg
        H1_def [symmetric] H2_def H3_def upd_obj_apply)
  have live: "live H3 = live H" by (rule same_identD(3) [OF same])
  have "Address (objs H q) \<noteq> Address (objs H r)"
  proof
    assume eq: "Address (objs H q) = Address (objs H r)"
    obtain x y where x: "x \<in> set (clients H)" "snd x = q" and y: "y \<in> set (clients H)" "snd y = r"
      using assms(3,11) by (auto simp: live_def)
    then have "fst x = fst y" using id_inv_parts(2) [OF assms(2)] eq by metis
    then have "x = y" using x(1) y(1) id_inv_parts(1) [OF assms(2)] by (metis eq_key_imp_eq_value prod.collapse)
    with x y assms(12) show False by simp
  qed
  then show ?thesis
    using broadcast_delivers [OF assms(1) inv assms(8), of "''WHITELISTED''" "Address (objs H r)"] assms(9,11)
    by (auto simp: run live st received_def split: if_splits dest!: spec [of _ q])
qed

text \<open>C6: an end-to-end encrypted chat message of a member that is within its rate reaches every
  other member whose queue has room, field by field as the member sent it (the hub does not look
  at the sender name the message claims), and nobody who is not a member.\<close>

theorem chat_relayed:
  assumes "gcm_correct E" and "id_inv H" and "r \<in> live H" and "State (objs H r) = ''WHITELISTED''"
    and "open_message E (objs H r) txt = Some msg" and "Type msg = MsgTypeChat" and "IsE2Ee msg"
    and "Encode E msg = Some bs" and "Decode E bs = Some msg"
    and "fst (allowMessage (clock H) (objs H r))" and "q \<in> live H" and "q \<noteq> r"
  shows "if State (objs H q) = ''WHITELISTED'' \<and> length (SendChan (objs H q)) < 100
    then \<exists>p. SendChan (objs (processClientMessage E r txt H) q) = SendChan (objs H q) @ [p] \<and>
           received E (EncryptionKey (objs H q)) p = Some msg
    else SendChan (objs (processClientMessage E r txt H) q) = SendChan (objs H q)"
  by (rule relay_chat [OF assms])

lemma demo_sent:
  assumes "EncryptionKey c = zeros 32"
  obtains t bs where "open_message demo c t = Some m" and "Encode demo m = Some bs" and "Decode demo bs = Some m"
proof -
  obtain bs where bs: "Encode demo m = Some bs" by (simp add: Encode_def chat_enc_def)
  then have dec: "Decode demo bs = Some m" by (simp add: Encode_def Decode_def chat_codec)
  obtain ct where "Encrypt demo 0 (zeros 32) bs = (Some ct, 0 + nonceSize)"
    using Encrypt_total [of "zeros 32" demo 0 bs] by auto
  then have "open_message demo c (Base64Encode ct) = Some m"
    using Decrypt_Encrypt [OF demo_gcm(1)] dec by (simp add: open_message_def assms)
  then show ?thesis using bs dec by (rule that)
qed

theorem chat_relayed_witness:
  "\<exists>t p. SendChan (objs (processClientMessage demo 0 t demo_room) 1) = [p] \<and>
     received demo (zeros 32) p = Some (empty_message\<lparr>Type := MsgTypeChat, Sender := ''x'', IsE2Ee := True\<rparr>)"
proof -
  let ?m = "empty_message\<lparr>Type := MsgTypeChat, Sender := ''x'', IsE2Ee := True\<rparr>"
  obtain t bs where t: "open_message demo (objs demo_room 0) t = Some ?m" "Encode demo ?m = Some bs"
    "Decode demo bs = Some ?m" by (rule demo_sent [of "objs demo_room 0" ?m]) simp_all
  show ?thesis
    using chat_relayed [OF demo_gcm(1) demo_id_inv(2) _ _ t(1) _ _ t(2,3), of 1]
    by (auto simp: allowMessage_def)
qed

text \<open>C26: within any interval of the length of the rate window a client gets at most forty
  rate-limited messages through, however it times them; within one open window it gets exactly
  the first twenty.\<close>

theorem rate_limit:
  assumes "\<forall>t \<in> set ts. a \<le> t \<and> t \<le> a + RateLimitWindow" and "0 \<le> winCount c"
  shows "allow_run ts c \<le> 40 \<and>
    (winStart c = None \<longrightarrow> ts \<noteq> [] \<longrightarrow> hd ts = a \<longrightarrow> allow_run ts c = min (length ts) 20)"
proof
  have "allow_run ts c \<le> nat (RateLimitMessages - winCount c) + nat RateLimitMessages"
    by (rule allow_run_interval [OF assms])
  with assms(2) show "allow_run ts c \<le> 40" by (simp add: cfg)
  show "winStart c = None \<longrightarrow> ts \<noteq> [] \<longrightarrow> hd ts = a \<longrightarrow> allow_run ts c = min (length ts) 20"
  proof (intro impI)
    assume h: "winStart c = None" "ts \<noteq> []" "hd ts = a"
    then obtain us where ts: "ts = a # us" by (cases ts) auto
    have "\<forall>u \<in> set us. u - a \<le> RateLimitWindow" using assms(1) ts by fastforce
    then have "allow_run us (c\<lparr>winStart := Some a, winCount := 1\<rparr>) =
        min (length us) (nat (RateLimitMessages - 1))"
      using allow_run_open [of "c\<lparr>winStart := Some a, winCount := 1\<rparr>" a us] by simp
    then show "allow_run ts c = min (length ts) 20"
      by (simp add: ts allowMessage_def h(1) cfg)
  qed
qed

theorem rate_limit_witness:
  "allow_run (replicate 25 5) empty_client = 20"
  using rate_limit [of "replicate 25 5" 5 empty_client] by (simp add: cfg empty_client_def)

section \<open>Membership\<close>

text \<open>Approving a connected client makes it a member under the nickname it bears, files its key
  in the whitelist and lifts a ban on its identity; it becomes administrator exactly when it was
  one, is a stored one or is then the only member, and is stored as administrator in that case;
  no other client's state or rights change; afterwards there is a vault token.\<close>

lemma approve_member:
  assumes "GetClientByNickname n H = Some r"
  shows "let H' = snd (ApproveClient E n H); pub = Base64Encode (SigningPubKey (objs H r))
    in fst (ApproveClient E n H) \<and> State (objs H' r) = ''WHITELISTED'' \<and>
       map_of (WhitelistMap H') pub = Some n \<and> map_of (BlacklistMap H') (Identity (objs H r)) = None \<and>
       (IsAdmin (objs H' r) \<longleftrightarrow> becomes_admin r H) \<and>
       (becomes_admin r H \<longrightarrow> map_of (Admins H') pub = Some n) \<and>
       (\<forall>q. q \<noteq> r \<longrightarrow> State (objs H' q) = State (objs H q) \<and> IsAdmin (objs H' q) = IsAdmin (objs H q)) \<and>
       VaultToken H' \<noteq> []"
  unfolding Let_def ApproveClient_effect(2-6) [OF assms]
  using ApproveClient_effect(1,11) [OF assms, of E]
  by (simp add: update_conv' AList.delete_conv)

lemma approve_member_example:
  "let H' = snd (ApproveClient demo ''eve'' demo_room)
   in State (objs H' 2) = ''WHITELISTED'' \<and> map_of (WhitelistMap H') (Base64Encode ''ke'') = Some ''eve''"
  using approve_member [of "''eve''" demo_room 2 demo] by (simp add: GetClientByNickname_def Let_def)



text \<open>Kicking a member announces its departure twice: the command removes the client, and when
  its connection's read loop then ends the removal runs again, so the history gains two
  identical lines.\<close>

lemma kick_announced_twice:
  assumes "IsAdmin (objs H adm)" and "GetClientByNickname n H = Some r"
    and "State (objs H r) = ''WHITELISTED''"
  shows "DBManager (read_end E r (handleKick E adm [n] H)) =
    keep_message (leave_entry E (objs H r) (clock H))
      (keep_message (leave_entry E (objs H r) (clock H)) (DBManager H)) \<and>
    \<not> ConnOpen (objs (handleKick E adm [n] H) r)"
  using assms
  by (simp add: handleKick_def read_end_def close_raw_def removeClient_effect leave_entry_def)

lemma kick_announced_twice_example:
  "\<not> ConnOpen (objs (handleKick demo 0 [''bob''] (upd_obj 0 (\<lambda>c. c\<lparr>IsAdmin := True\<rparr>) demo_room)) 1)"
  using kick_announced_twice [of "upd_obj 0 (\<lambda>c. c\<lparr>IsAdmin := True\<rparr>) demo_room" 0 "''bob''" 1 demo]
  by (simp add: GetClientByNickname_def upd_obj_apply)

section \<open>Storage\<close>

text \<open>A stored file of records is sent back record by record.\<close>

lemma get_file:
  assumes "wire_ok E" and "ascii name" and "Base name = name" and "name \<noteq> []" and "name \<noteq> ''.''"
    and "\<not> is_dir E (JoinPath [VaultDir H, name])" and "disk H (JoinPath [VaultDir H, name]) = Some f"
    and "content f = concat (map put_record cts)"
    and "\<forall>ct \<in> set cts. length ct \<le> 8 * 1024 * 1024"
    and "aes_key_ok (EncryptionKey (objs H g))" and "length (SendChan (objs H g)) + length cts < 100"
    and "FileId m = name"
  shows "\<exists>ps fin f. SendChan (objs (handleFileGet E g m H) g) = SendChan (objs H g) @ ps @ [fin] \<and>
    list_all2 (is_chunk E (EncryptionKey (objs H g)) name) ps (enumerate 0 (takeWhile (\<lambda>ct. ct \<noteq> []) cts)) \<and>
    received E (EncryptionKey (objs H g)) fin = Some f \<and> Type f = MsgTypeFileData \<and> FileId f = name \<and> ChunkIdx f = -1 \<and>
    TotalChunks f = int (length (takeWhile (\<lambda>ct. ct \<noteq> []) cts))"
proof -
  have "\<exists>ps H2. get_loop E g name (int 0) (concat (map put_record cts)) H = (int (0 + length (takeWhile (\<lambda>ct. ct \<noteq> []) cts)), H2) \<and>
      talks H H2 \<and> SendChan (objs H2 g) = SendChan (objs H g) @ ps \<and>
      list_all2 (is_chunk E (EncryptionKey (objs H g)) name) ps (enumerate 0 (takeWhile (\<lambda>ct. ct \<noteq> []) cts))"
    using assms(9-11) by (intro get_loop_records [OF assms(1,2)]) simp_all
  then obtain ps H2 where loop: "get_loop E g name 0 (concat (map put_record cts)) H = (int (length (takeWhile (\<lambda>ct. ct \<noteq> []) cts)), H2)"
    "talks H H2" "SendChan (objs H2 g) = SendChan (objs H g) @ ps"
    "list_all2 (is_chunk E (EncryptionKey (objs H g)) name) ps (enumerate 0 (takeWhile (\<lambda>ct. ct \<noteq> []) cts))"
    by auto
  have len: "length ps \<le> length cts" using list_all2_lengthD [OF loop(4)] by (simp add: length_takeWhile_le)
  let ?m = "fst (file_data E name [] (-1) (int (length (takeWhile (\<lambda>ct. ct \<noteq> []) cts))) H2)"
  let ?H3 = "H2\<lparr>rpos := rpos H2 + 8\<rparr>"
  have key: "EncryptionKey (objs H2 g) = EncryptionKey (objs H g)"
    using same_identD(7) [OF same_ident_talks [OF loop(2)]] by simp
  have asc: "ascii_msg ?m" using assms(1,2) by (simp add: ascii_file_data wire_ok_def)
  have room: "has_room ?H3 g" using assms(11) loop(3) len by (simp add: has_room_def)
  obtain fin where fin: "SendChan (objs (SendMessage E g ?m ?H3) g) = SendChan (objs H2 g) @ [fin]"
    "received E (EncryptionKey (objs H g)) fin = Some ?m"
    using SendMessage_received [OF assms(1) asc _ room] assms(10) key by auto
  have "handleFileGet E g m H = SendMessage E g ?m ?H3"
    using loop(1) assms(6-8)
    by (simp add: handleFileGet_def assms(3,4,12) read_open_def case_prod_beta)
  then show ?thesis
    using fin loop(3,4)
    by (intro exI [of _ ps] exI [of _ fin] exI [of _ ?m]) (simp add: file_data_fields)
qed

lemma put_then_get:
  assumes "wire_ok E" and "ascii name" and "Base name = name" and "name \<noteq> []" and "name \<noteq> ''.''"
    and "can_write E (JoinPath [VaultDir H, name])" and "\<not> is_dir E (JoinPath [VaultDir H, name])"
    and "cts \<noteq> []" and "\<forall>ct \<in> set cts. length ct \<le> 8 * 1024 * 1024"
    and "aes_key_ok (EncryptionKey (objs H g))" and "length (SendChan (objs H g)) + length cts < 100"
    and "FileId m = name"
  shows "\<exists>ps fin f. SendChan (objs (handleFileGet E g m (put_all E r name 0 cts H)) g) =
      SendChan (objs H g) @ ps @ [fin] \<and>
    list_all2 (is_chunk E (EncryptionKey (objs H g)) name) ps (enumerate 0 (takeWhile (\<lambda>ct. ct \<noteq> []) cts)) \<and>
    received E (EncryptionKey (objs H g)) fin = Some f \<and> Type f = MsgTypeFileData \<and> FileId f = name \<and> ChunkIdx f = -1 \<and>
    TotalChunks f = int (length (takeWhile (\<lambda>ct. ct \<noteq> []) cts))"
proof -
  let ?path = "JoinPath [VaultDir H, name]"
  obtain f where f: "put_all E r name 0 cts H = H\<lparr>disk := (disk H)(?path \<mapsto> f)\<rparr>"
    "content f = concat (map put_record cts)"
    using put_all_content [OF assms(3-8)] by blast
  show ?thesis
    using get_file [OF assms(1-5), of "H\<lparr>disk := (disk H)(?path \<mapsto> f)\<rparr>" f cts g m] f(2) assms(7,9-12)
    by (simp add: f(1))
qed

text \<open>C19: chunks of at most 8 MiB that a member puts into the vault one after the other are sent
  back, to any client with room in its queue that asks for the file, as the same chunks in the
  same order with consecutive indices, up to the first empty one (its header reads as the end of the
  file, so it and what follows it are cut off; nothing is, when no chunk is empty), followed by an
  end message that carries the number of chunks sent.\<close>

theorem vault_put_get:
  assumes "wire_ok E" and "ascii name" and "Base name = name" and "name \<noteq> []" and "name \<noteq> ''.''"
    and "can_write E (JoinPath [VaultDir H, name])" and "\<not> is_dir E (JoinPath [VaultDir H, name])"
    and "cts \<noteq> []" and "\<forall>ct \<in> set cts. length ct \<le> 8 * 1024 * 1024"
    and "aes_key_ok (EncryptionKey (objs H g))" and "length (SendChan (objs H g)) + length cts < 100"
    and "FileId m = name"
  shows "\<exists>ps fin f. SendChan (objs (handleFileGet E g m (put_all E r name 0 cts H)) g) =
      SendChan (objs H g) @ ps @ [fin] \<and>
    list_all2 (is_chunk E (EncryptionKey (objs H g)) name) ps (enumerate 0 (takeWhile (\<lambda>ct. ct \<noteq> []) cts)) \<and>
    received E (EncryptionKey (objs H g)) fin = Some f \<and> Type f = MsgTypeFileData \<and> FileId f = name \<and> ChunkIdx f = -1 \<and>
    TotalChunks f = int (length (takeWhile (\<lambda>ct. ct \<noteq> []) cts))"
  by (rule put_then_get [OF assms])

theorem vault_put_get_witness:
  "\<exists>ps fin f. SendChan (objs (handleFileGet demo 1 (empty_message\<lparr>FileId := ''x''\<rparr>)
      (put_all demo 0 ''x'' 0 [''ab'', ''c'', [], ''d''] demo_room)) 1) = SendChan (objs demo_room 1) @ ps @ [fin] \<and>
    list_all2 (is_chunk demo (EncryptionKey (objs demo_room 1)) ''x'') ps (enumerate 0 [''ab'', ''c'']) \<and>
    received demo (EncryptionKey (objs demo_room 1)) fin = Some f \<and> Type f = MsgTypeFileData \<and> FileId f = ''x'' \<and> ChunkIdx f = -1 \<and>
    TotalChunks f = 2"
proof -
  have "JoinPath [VaultDir demo_room, ''x''] = abs_path ([''h'', ''vault''] @ [''x''])"
    using JoinPath_child [of "[''h'', ''vault'']" "''x''"]
    by (simp add: good_comp_def slash_def abs_path_def)
  then have "\<not> is_dir demo (JoinPath [VaultDir demo_room, ''x''])"
    by (simp add: abs_path_def slash_def)
  then show ?thesis
    using vault_put_get [OF demo_wire_ok, of "''x''" demo_room "[''ab'', ''c'', [], ''d'']" 1
        "empty_message\<lparr>FileId := ''x''\<rparr>" 0]
    by (simp add: ascii_def Base_def slash_def)
qed

text \<open>C38: what is stored that way has no end marker: fetched whole over HTTP by an authorized client
  and decrypted as a stream, the file yields all its content and then always the error of a
  truncated stream.\<close>

theorem vault_http_truncated:
  assumes "Base name = name" and "name \<noteq> []" and "name \<noteq> ''.''"
    and "can_write E (JoinPath [VaultDir H, name])" and "\<not> is_dir E (JoinPath [VaultDir H, name])"
    and "cts \<noteq> []" and "opens E key name 0 cts pts"
    and "q_f q = name" and "q_t q = VaultToken H"
  shows "\<exists>body. http_download E q (put_all E r name 0 cts H) = Reply 200 body \<and>
    DecryptReaderTo E body key name = (Some (Truncated EOF), concat pts)"
proof -
  obtain f where f: "put_all E r name 0 cts H = H\<lparr>disk := (disk H)(JoinPath [VaultDir H, name] \<mapsto> f)\<rparr>"
    "content f = concat (map put_record cts)"
    using put_all_content [OF assms(1-6)] by blast
  have "http_download E q (put_all E r name 0 cts H) = Reply 200 (content f)"
    by (simp add: http_download_def authorized_def f(1) assms(1,8,9) read_open_def)
  moreover have "DecryptReaderTo E (content f) key name = (Some (Truncated EOF), concat pts)"
    using decrypt_records [OF assms(7), of "[]"]
    by (simp add: DecryptReaderTo_def f(2) decrypt_eof)
  ultimately show ?thesis by blast
qed

theorem vault_http_truncated_witness:
  "\<exists>body. http_download demo \<lparr>q_f = ''x'', q_t = [], q_u = [], authorization = ''no'', body_size = 0,
        form_file = None\<rparr> (put_all demo 0 ''x'' 0 [zeros 12 @ ''ab'' @ zeros 16] demo_room) = Reply 200 body \<and>
    DecryptReaderTo demo body (zeros 32) ''x'' = (Some (Truncated EOF), concat [''ab''])"
proof (rule vault_http_truncated)
  have "JoinPath [VaultDir demo_room, ''x''] = abs_path ([''h'', ''vault''] @ [''x''])"
    using JoinPath_child [of "[''h'', ''vault'']" "''x''"]
    by (simp add: good_comp_def slash_def abs_path_def)
  then show "\<not> is_dir demo (JoinPath [VaultDir demo_room, ''x''])"
    by (simp add: abs_path_def slash_def)
  have "gcm_open demo k n (''ab'' @ zeros 16) a = Some ''ab''" for k n a
    by (simp add: demo_def demo_host_def demo_open_def)
  then show "opens demo (zeros 32) ''x'' 0 [zeros 12 @ ''ab'' @ zeros 16] [''ab'']"
    by (simp add: DecryptChunk_def decryptWithAAD_def nonceSize_def ChunkSize_def)
qed (simp_all add: Base_def slash_def)

text \<open>Marshalling access lists of ASCII strings succeeds and unmarshals to the same maps.\<close>

definition same_map :: "strmap option \<Rightarrow> strmap option \<Rightarrow> bool" where
  "same_map a b \<longleftrightarrow> map_option map_of a = map_option map_of b"

definition acl_codec_ok :: "'a hub_env_scheme \<Rightarrow> bool" where
  "acl_codec_ok E \<longleftrightarrow>
     (\<forall>w b a t. ascii_map w \<longrightarrow> ascii_map b \<longrightarrow> ascii_map a \<longrightarrow> ascii t \<longrightarrow>
        (\<exists>j f. acl_json E \<lparr>f_Whitelist = Some w, f_Blacklist = Some b, f_Admins = Some a, f_VaultToken = t\<rparr> = Some j \<and>
           acl_unjson E j = Some f \<and> same_map (f_Whitelist f) (Some w) \<and>
           same_map (f_Blacklist f) (Some b) \<and> same_map (f_Admins f) (Some a) \<and> f_VaultToken f = t))"

text \<open>C27: a restarted hub that reads the access lists a hub saved has the same whitelist, bans,
  administrators and vault token.\<close>

theorem acl_survives_restart:
  assumes "acl_codec_ok E" and "can_write E (aclPath E)" and "can_write E (aclPath E @ ''.tmp'')"
    and "distinct (map fst (WhitelistMap H))" and "distinct (map fst (BlacklistMap H))"
    and "distinct (map fst (Admins H))"
    and "ascii_map (WhitelistMap H)" and "ascii_map (BlacklistMap H)" and "ascii_map (Admins H)"
    and "ascii (VaultToken H)" and "VaultToken H \<noteq> []"
  shows "let G = NewServer E now pos (disk (saveACL E H))
    in map_of (WhitelistMap G) = map_of (WhitelistMap H) \<and>
       map_of (BlacklistMap G) = map_of (BlacklistMap H) \<and> map_of (Admins G) = map_of (Admins H) \<and>
       VaultToken G = VaultToken H"
proof -
  have acl: "acl_of H = \<lparr>f_Whitelist = Some (WhitelistMap H), f_Blacklist = Some (BlacklistMap H),
      f_Admins = Some (Admins H), f_VaultToken = VaultToken H\<rparr>"
    by (simp add: acl_of_def copyMap_id assms(4-6))
  obtain j f where j: "acl_json E (acl_of H) = Some j" "acl_unjson E j = Some f"
    "same_map (f_Whitelist f) (Some (WhitelistMap H))" "same_map (f_Blacklist f) (Some (BlacklistMap H))"
    "same_map (f_Admins f) (Some (Admins H))" "f_VaultToken f = VaultToken H"
    using assms(1,7-10) unfolding acl_codec_ok_def acl by blast
  have saved: "disk (saveACL E H) (aclPath E) = Some \<lparr>content = j, mtime = clock H\<rparr>"
    using j(1) assms(2,3) by (simp add: saveACL_def write_file_def rename_file_def Let_def)
  show ?thesis
    using j(2-6) assms(11)
    by (auto simp: NewServer_def loadACL_def Let_def saved same_map_def split: option.splits)
qed

theorem acl_survives_restart_witness:
  "let H = demo_hub\<lparr>WhitelistMap := [(''k'', ''ann'')], BlacklistMap := [(''i'', ''eve'')], VaultToken := ''t''\<rparr>;
       G = NewServer demo 5 0 (disk (saveACL demo H))
   in map_of (WhitelistMap G) = map_of (WhitelistMap H) \<and>
      map_of (BlacklistMap G) = map_of (BlacklistMap H) \<and> map_of (Admins G) = map_of (Admins H) \<and>
      VaultToken G = VaultToken H"
proof -
  have "acl_codec_ok demo"
    by (simp add: acl_codec_ok_def acl_enc_def acl_dec_def same_map_def)
  then show ?thesis
    unfolding Let_def
    by (rule acl_survives_restart [unfolded Let_def]) (simp_all add: ascii_map_def ascii_def)
qed

text \<open>The message memory keeps the newest messages up to its limit, in order, and a clean-up
  keeps exactly those no older than the time to live and reports how many it dropped.\<close>

lemma memory_keeps_newest:
  assumes "length (messages m) \<le> mlimit m"
  shows "messages (fold keep_message es m) = lastn (mlimit m) (messages m @ es) \<and>
    CleanupOldMessages now m =
      (length (filter (\<lambda>x. now - hm_ParsedTime x > ttl m) (messages m)),
       m\<lparr>messages := filter (\<lambda>x. now - hm_ParsedTime x \<le> ttl m) (messages m)\<rparr>)"
  using memory.entries_fold [OF assms] by (simp add: CleanupOldMessages_def cleanup_go_spec not_le)

lemma memory_keeps_newest_example:
  "\<forall>m1 m2 m3. messages (fold keep_message [m1, m2, m3] (NewMemoryManager 2 5)) = [m2, m3]"
  using memory_keeps_newest [of "NewMemoryManager 2 5" "[_, _, _]" 0]
  by (simp add: NewMemoryManager_def lastn_def)

end
