(* ===== verification/Threads.thy ===== *)
theory Threads
  imports Prelude
begin

text \<open>
  Goroutines that share a state. A thread is what it has left to do; a step of it changes the
  shared state and leaves something else to do, or nothing happens because the thread has
  ended. A schedule is the list of the threads that move, in order. What holds under every
  schedule is proved once here, from what single steps keep.
\<close>

section \<open>Schedules\<close>

definition turn :: "('l \<Rightarrow> 's \<Rightarrow> ('l \<times> 's) option) \<Rightarrow> nat \<Rightarrow> 'l list \<times> 's \<Rightarrow> 'l list \<times> 's" where
  "turn step i cfg =
     (case cfg of (ls, s) \<Rightarrow>
        if i < length ls then
          (case step (ls ! i) s of None \<Rightarrow> (ls, s) | Some (l', s') \<Rightarrow> (ls[i := l'], s'))
        else (ls, s))"

definition schedule ::
  "('l \<Rightarrow> 's \<Rightarrow> ('l \<times> 's) option) \<Rightarrow> nat list \<Rightarrow> 'l list \<times> 's \<Rightarrow> 'l list \<times> 's" where
  "schedule step is cfg = fold (turn step) is cfg"

lemma schedule_simps [simp]:
  "schedule step [] cfg = cfg"
  "schedule step (i # is) cfg = schedule step is (turn step i cfg)"
  "schedule step (is @ js) cfg = schedule step js (schedule step is cfg)"
  by (simp_all add: schedule_def)

lemma turn_ended: "step (ls ! i) s = None \<Longrightarrow> turn step i (ls, s) = (ls, s)"
  by (simp add: turn_def)

lemma turn_moves:
  "i < length ls \<Longrightarrow> step (ls ! i) s = Some (l', s') \<Longrightarrow> turn step i (ls, s) = (ls[i := l'], s')"
  by (simp add: turn_def)

lemma turn_cases:
  obtains "turn step i (ls, s) = (ls, s)"
  | l' s' where "i < length ls" and "step (ls ! i) s = Some (l', s')" and "turn step i (ls, s) = (ls[i := l'], s')"
  by (cases "i < length ls"; cases "step (ls ! i) s") (auto simp: turn_def)

lemma length_turn [simp]: "length (fst (turn step i cfg)) = length (fst cfg)"
  by (cases cfg) (simp add: turn_def split: option.split)

lemma length_schedule [simp]: "length (fst (schedule step is cfg)) = length (fst cfg)"
  by (induction "is" arbitrary: cfg) simp_all

text \<open>Threads that get no turn stay as they are.\<close>

lemma turn_prefix:
  "i < length ls \<Longrightarrow> turn step i (ls @ os, s) = (fst (turn step i (ls, s)) @ os, snd (turn step i (ls, s)))"
  by (simp add: turn_def nth_append list_update_append split: option.split)

lemma schedule_prefix:
  "schedule step is (ls, s) = (ls', s') \<Longrightarrow> \<forall>i \<in> set is. i < length ls \<Longrightarrow>
   schedule step is (ls @ os, s) = (ls' @ os, s')"
proof (induction "is" arbitrary: ls s)
  case (Cons i js)
  obtain ls1 s1 where t: "turn step i (ls, s) = (ls1, s1)" by (metis prod.collapse)
  have "length ls1 = length ls" using length_turn [of step i "(ls, s)"] by (simp add: t)
  then show ?case using Cons turn_prefix [of i ls step os s] by (simp add: t)
qed simp

section \<open>What steps keep, schedules keep\<close>

text \<open>The contract of a shared state: \<open>inv ls s\<close> survives the step of any thread.\<close>

locale interleaved =
  fixes step :: "'l \<Rightarrow> 's \<Rightarrow> ('l \<times> 's) option"
    and inv :: "'l list \<Rightarrow> 's \<Rightarrow> bool"
  assumes step_inv:
    "inv ls s \<Longrightarrow> i < length ls \<Longrightarrow> step (ls ! i) s = Some (l', s') \<Longrightarrow> inv (ls[i := l']) s'"
begin

lemma turn_inv: "inv ls s \<Longrightarrow> turn step i (ls, s) = (ls', s') \<Longrightarrow> inv ls' s'"
  by (rule turn_cases [of step i ls s]) (auto intro: step_inv)

lemma schedule_inv:
  "schedule step is (ls, s) = (ls', s') \<Longrightarrow> inv ls s \<Longrightarrow> inv ls' s'"
proof (induction "is" arbitrary: ls s)
  case (Cons i js)
  obtain ls1 s1 where t: "turn step i (ls, s) = (ls1, s1)" by (metis prod.collapse)
  show ?case by (rule Cons.IH [OF _ turn_inv [OF Cons.prems(2) t]]) (use Cons.prems(1) t in simp)
qed simp

end

text \<open>
  An invariant of the shared state alone, with a condition on what each thread may still do: the
  contract above follows.
\<close>

locale shared =
  fixes step :: "'l \<Rightarrow> 's \<Rightarrow> ('l \<times> 's) option"
    and ok :: "'l \<Rightarrow> bool"
    and keeps :: "'s \<Rightarrow> bool"
  assumes step_ok: "ok l \<Longrightarrow> keeps s \<Longrightarrow> step l s = Some (l', s') \<Longrightarrow> ok l' \<and> keeps s'"

sublocale shared \<subseteq> interleaved step "\<lambda>ls s. list_all ok ls \<and> keeps s"
proof unfold_locales
  fix ls s i l' s'
  assume I: "list_all ok ls \<and> keeps s" and i: "i < length ls" and st: "step (ls ! i) s = Some (l', s')"
  have "ok (ls ! i)" using I i by (simp add: list_all_length)
  then have "ok l'" "keeps s'" using step_ok st I by blast+
  then show "list_all ok (ls[i := l']) \<and> keeps s'"
    using I i by (auto simp: list_all_length nth_list_update)
qed

context shared begin

lemma schedule_keeps:
  "schedule step is (ls, s) = (ls', s') \<Longrightarrow> list_all ok ls \<Longrightarrow> keeps s \<Longrightarrow> keeps s'"
  using schedule_inv by blast

end

section \<open>A thread on its own\<close>

text \<open>
  \<open>whole l\<close> is what a thread does to the shared state when nobody else moves. If every step
  takes the thread closer to its end and the whole of it is its step followed by the whole of what
  is left, then some number of turns of that thread, alone, comes to the same.
\<close>

locale sequential =
  fixes step :: "'l \<Rightarrow> 's \<Rightarrow> ('l \<times> 's) option"
    and whole :: "'l \<Rightarrow> 's \<Rightarrow> 's"
    and closer :: "('l \<times> 'l) set"
    and ended :: 'l
  assumes wf_closer: "wf closer"
    and at_end: "step l s = None \<Longrightarrow> l = ended \<and> whole l s = s"
    and moves: "step l s = Some (l', s') \<Longrightarrow> whole l' s' = whole l s \<and> (l', l) \<in> closer"
begin

lemma run_one:
  "i < length ls \<Longrightarrow> \<exists>n. schedule step (replicate n i) (ls, s) = (ls[i := ended], whole (ls ! i) s)"
proof (induction "ls ! i" arbitrary: ls s rule: wf_induct_rule [OF wf_closer])
  case 1
  show ?case
  proof (cases "step (ls ! i) s")
    case None
    then have "schedule step (replicate 0 i) (ls, s) = (ls[i := ended], whole (ls ! i) s)"
      using at_end by (simp add: list_update_same_conv 1)
    then show ?thesis by blast
  next
    case (Some p)
    obtain l' s' where p: "step (ls ! i) s = Some (l', s')" using Some by (cases p) simp
    note m = moves [OF p]
    obtain n where "schedule step (replicate n i) (ls[i := l'], s') = (ls[i := ended], whole l' s')"
      using 1(1) [of "ls[i := l']" s'] m 1(2) by auto
    then have "schedule step (replicate (Suc n) i) (ls, s) = (ls[i := ended], whole (ls ! i) s)"
      using m p 1(2) by (simp add: turn_moves)
    then show ?thesis by blast
  qed
qed

lemma alone: "\<exists>n. schedule step (replicate n 0) ([l], s) = ([ended], whole l s)"
  using run_one [of 0 "[l]" s] by simp

text \<open>Whatever has happened so far, all threads can end.\<close>

lemma some_end:
  "k \<le> length ls \<Longrightarrow> \<exists>js s'. schedule step js (ls, s) = (replicate k ended @ drop k ls, s')"
proof (induction k)
  case 0
  have "schedule step [] (ls, s) = (replicate 0 ended @ drop 0 ls, s)" by simp
  then show ?case by blast
next
  case (Suc k)
  let ?ls = "replicate k ended @ drop k ls"
  obtain js s' where js: "schedule step js (ls, s) = (?ls, s')" using Suc by auto
  obtain n s'' where "schedule step (replicate n k) (?ls, s') = (?ls[k := ended], s'')"
    using run_one [of k ?ls s'] Suc.prems by auto
  moreover have "?ls[k := ended] = replicate (Suc k) ended @ drop (Suc k) ls"
    using Suc.prems by (simp add: list_update_append Cons_nth_drop_Suc [symmetric] replicate_append_same)
  ultimately have "schedule step (js @ replicate n k) (ls, s) = (replicate (Suc k) ended @ drop (Suc k) ls, s'')"
    using js by simp
  then show ?case by blast
qed

lemma can_end: "\<exists>js s'. schedule step (is @ js) (ls, s) = (replicate (length ls) ended, s')"
proof -
  obtain ls1 s1 where 1: "schedule step is (ls, s) = (ls1, s1)" by (metis prod.collapse)
  then have "length ls1 = length ls" using length_schedule [of step "is" "(ls, s)"] by simp
  with 1 some_end [of "length ls1" ls1 s1] show ?thesis by simp
qed

end

end
