(* ===== verification/HubThreads.thy ===== *)
theory HubThreads
  imports HubCommands Threads
begin

text \<open>
  The handlers of the hub as goroutines (\<^verbatim>\<open>internal/server/core.go\<close>,
  \<^verbatim>\<open>persist.go\<close>). The code's mutexes cover single accesses, so a handler gives way
  between any two of them: at every client a broadcast serves, and between taking a copy of the
  access lists, writing it to the temporary file and renaming that file. \<open>Do\<close> is one access,
  the other actions keep the local variables of the loop or of the save they stand in.
\<close>

section \<open>Actions\<close>

datatype act =
  Do "Hub \<Rightarrow> Hub"
| ToState string bytes string
| StateLoop string bytes string int "nat list"
| ToMembers string string
| MemberLoop ChatMessage "nat list"
| UserList
| UserLoop bytes "nat list"
| SaveAcl
| WriteTmp bytes
| RenameTmp
| Epoch
| Leave nat
| CheckAdmin nat
| SaveMember nat
| Ack nat ChatMessage

definition tmpPath :: "'a hub_env_scheme \<Rightarrow> string" where
  "tmpPath E = aclPath E @ ''.tmp''"

definition member_one :: "'a hub_env_scheme \<Rightarrow> ChatMessage \<Rightarrow> nat \<Rightarrow> Hub \<Rightarrow> Hub" where
  "member_one E msg r H = (if State (objs H r) = ''WHITELISTED'' then SendMessage E r msg H else H)"

definition new_epoch :: "'a hub_env_scheme \<Rightarrow> Hub \<Rightarrow> Hub" where
  "new_epoch E H = fresh_token E (H\<lparr>RoomKey := []\<rparr>)"

definition epoch_event :: "Hub \<Rightarrow> Hub" where
  "epoch_event = AddEvent u_cycle ''Membership epoch bumped. Sender keys rotate; vault token kept.''"

definition is_member :: "nat \<Rightarrow> Hub \<Rightarrow> bool" where
  "is_member r H \<longleftrightarrow> State (objs H r) = ''WHITELISTED''"

definition leave_msg :: "Client \<Rightarrow> string" where
  "leave_msg c = u_leave @ '' '' @ Nickname c @ '' left the chat''"

definition gone_member :: "'a hub_env_scheme \<Rightarrow> Client \<Rightarrow> act list" where
  "gone_member E c =
     [Do (Log E (''Client disconnected: '' @ Nickname c @ '' ('' @ Address c @ '')'')),
      Do (AddEvent u_red (''Disconnected: '' @ Nickname c @ '' ['' @ State c @ '']'')), UserList, Epoch]"

definition gone_pending :: "'a hub_env_scheme \<Rightarrow> Client \<Rightarrow> act list" where
  "gone_pending E c =
     [Do (Log E (''Pending client disconnected: '' @ Address c)),
      Do (AddEvent u_plug (''Pending client dropped: '' @ Address c))]"

definition pub_of :: "nat \<Rightarrow> Hub \<Rightarrow> string" where
  "pub_of r H = Base64Encode (SigningPubKey (objs H r))"

definition remember :: "nat \<Rightarrow> Hub \<Rightarrow> Hub" where
  "remember r H = H\<lparr>Admins := AList.update (pub_of r H) (Nickname (objs H r)) (Admins H)\<rparr>"

definition make_admin :: "'a hub_env_scheme \<Rightarrow> nat \<Rightarrow> act list" where
  "make_admin E r =
     [Do (upd_obj r (\<lambda>c. c\<lparr>IsAdmin := True\<rparr>)),
      Do (SendSystemMessage E r ''You have admin privileges.'')]"

definition count_sent :: "int \<Rightarrow> Hub \<Rightarrow> Hub" where
  "count_sent n H = H\<lparr>Stats := (Stats H)\<lparr>MessagesSent := MessagesSent (Stats H) + n\<rparr>\<rparr>"

fun act_step :: "'a hub_env_scheme \<Rightarrow> act \<Rightarrow> Hub \<Rightarrow> act list \<times> Hub" where
  "act_step E (Do f) H = ([], f H)"
| "act_step E (ToState st bs x) H = ([StateLoop st bs x 0 (GetAllClients H)], H)"
| "act_step E (StateLoop st bs x n []) H = ([], count_sent n H)"
| "act_step E (StateLoop st bs x n (r # rs)) H =
     (let (n1, H1) = relay_one E st bs x r (n, H) in ([StateLoop st bs x n1 rs], H1))"
| "act_step E (ToMembers ty c) H =
     (let (msg, H1) = new_msg E ty c ''SERVER'' H in ([MemberLoop msg (GetAllClients H1)], H1))"
| "act_step E (MemberLoop msg []) H = ([], H)"
| "act_step E (MemberLoop msg (r # rs)) H = ([MemberLoop msg rs], member_one E msg r H)"
| "act_step E UserList H =
     (let (msg, H1) = new_msg E MsgTypeUserList (userList H) ''SERVER'' H
      in ([UserLoop (nil_or (Encode E msg)) (GetAllClients H1)], H1))"
| "act_step E (UserLoop bs []) H = ([], H)"
| "act_step E (UserLoop bs (r # rs)) H = ([UserLoop bs rs], snd (deliver E r bs H))"
| "act_step E SaveAcl H =
     (case acl_json E (acl_of H) of None \<Rightarrow> ([], H) | Some data \<Rightarrow> ([WriteTmp data], H))"
| "act_step E (WriteTmp data) H =
     (let (ok, H1) = write_file E (tmpPath E) data H in (if ok then [RenameTmp] else [], H1))"
| "act_step E RenameTmp H = ([], snd (rename_file E (tmpPath E) (aclPath E) H))"
| "act_step E Epoch H =
     (let H1 = new_epoch E H in ([ToMembers MsgTypeEpoch (VaultToken H1), Do epoch_event], H1))"
| "act_step E (Leave r) H =
     (let c = objs H r
      in if is_member r H then
           (let (bMsg, H1) = new_msg E MsgTypeJoin (leave_msg c) ''SERVER''
                  (save_history E MsgTypeJoin (leave_msg c) ''SERVER'' H)
            in (ToState (State c) (nil_or (Encode E bMsg)) (Address c) # gone_member E c, H1))
         else (gone_pending E c, H))"
| "act_step E (CheckAdmin r) H =
     (if isStoredAdmin (pub_of r H) H \<or> WhitelistedCount H = 1 then (make_admin E r, H) else ([], H))"
| "act_step E (SaveMember r) H =
     (if IsAdmin (objs H r) then ([Do (remember r), SaveAcl], H) else ([SaveAcl], H))"
| "act_step E (Ack r msg) H = ([], send_ack E r msg H)"

fun thread_step :: "'a hub_env_scheme \<Rightarrow> act list \<Rightarrow> Hub \<Rightarrow> (act list \<times> Hub) option" where
  "thread_step E [] H = None"
| "thread_step E (a # k) H = (let (b, H1) = act_step E a H in Some (b @ k, H1))"

lemma thread_stepE:
  assumes "thread_step E k H = Some (k', H')"
  obtains a j where "k = a # j" and "k' = fst (act_step E a H) @ j" and "H' = snd (act_step E a H)"
  using assms by (cases k) (auto simp: case_prod_beta Let_def)

section \<open>An action run to its end\<close>

fun act_whole :: "'a hub_env_scheme \<Rightarrow> act \<Rightarrow> Hub \<Rightarrow> Hub" where
  "act_whole E (Do f) H = f H"
| "act_whole E (StateLoop st bs x n rs) H =
     (let (n1, H1) = fold (relay_one E st bs x) rs (n, H) in count_sent n1 H1)"
| "act_whole E (ToState st bs x) H =
     (let (n1, H1) = fold (relay_one E st bs x) (GetAllClients H) (0, H) in count_sent n1 H1)"
| "act_whole E (MemberLoop msg rs) H = fold (member_one E msg) rs H"
| "act_whole E (ToMembers ty c) H =
     (let (msg, H1) = new_msg E ty c ''SERVER'' H in fold (member_one E msg) (GetAllClients H1) H1)"
| "act_whole E (UserLoop bs rs) H = fold (\<lambda>r H. snd (deliver E r bs H)) rs H"
| "act_whole E UserList H = BroadcastUserList E H"
| "act_whole E SaveAcl H = saveACL E H"
| "act_whole E (WriteTmp data) H =
     (let (ok, H1) = write_file E (tmpPath E) data H
      in if ok then snd (rename_file E (tmpPath E) (aclPath E) H1) else H1)"
| "act_whole E RenameTmp H = snd (rename_file E (tmpPath E) (aclPath E) H)"
| "act_whole E Epoch H = BumpEpoch E H"
| "act_whole E (Leave r) H =
     (let c = objs H r
      in if is_member r H then
           (let (bMsg, H1) = new_msg E MsgTypeJoin (leave_msg c) ''SERVER''
                  (save_history E MsgTypeJoin (leave_msg c) ''SERVER'' H)
            in BumpEpoch E (BroadcastUserList E
                 (AddEvent u_red (''Disconnected: '' @ Nickname c @ '' ['' @ State c @ '']'')
                   (Log E (''Client disconnected: '' @ Nickname c @ '' ('' @ Address c @ '')'')
                     (BroadcastToState E (State c) bMsg (Address c) H1)))))
         else
           AddEvent u_plug (''Pending client dropped: '' @ Address c)
             (Log E (''Pending client disconnected: '' @ Address c) H))"
| "act_whole E (CheckAdmin r) H =
     (if isStoredAdmin (pub_of r H) H \<or> WhitelistedCount H = 1 then
        SendSystemMessage E r ''You have admin privileges.'' (upd_obj r (\<lambda>c. c\<lparr>IsAdmin := True\<rparr>) H)
      else H)"
| "act_whole E (SaveMember r) H =
     (if IsAdmin (objs H r) then rememberAdmin E (pub_of r H) (Nickname (objs H r)) H else saveACL E H)"
| "act_whole E (Ack r msg) H = send_ack E r msg H"

definition thread_whole :: "'a hub_env_scheme \<Rightarrow> act list \<Rightarrow> Hub \<Rightarrow> Hub" where
  "thread_whole E k H = fold (act_whole E) k H"

text \<open>Loops that have not begun, and what is left of those that have.\<close>

fun act_opens :: "act \<Rightarrow> nat" where
  "act_opens (ToState st bs x) = 1"
| "act_opens (ToMembers ty c) = 1"
| "act_opens UserList = 1"
| "act_opens Epoch = 2"
| "act_opens (Leave r) = 5"
| "act_opens _ = 0"

fun act_left :: "act \<Rightarrow> nat" where
  "act_left (StateLoop st bs x n rs) = Suc (length rs)"
| "act_left (MemberLoop msg rs) = Suc (length rs)"
| "act_left (UserLoop bs rs) = Suc (length rs)"
| "act_left SaveAcl = 3"
| "act_left (WriteTmp data) = 2"
| "act_left (CheckAdmin r) = 3"
| "act_left (SaveMember r) = 5"
| "act_left _ = 1"

definition nearer :: "(act list \<times> act list) set" where
  "nearer = inv_image (less_than <*lex*> less_than)
     (\<lambda>k. (sum_list (map act_opens k), sum_list (map act_left k)))"

lemma act_step_whole: "act_step E a H = (b, H1) \<Longrightarrow> fold (act_whole E) b H1 = act_whole E a H"
  by (cases "(E, a, H)" rule: act_step.cases)
     (auto simp: saveACL_def tmpPath_def BroadcastUserList_def BumpEpoch_def new_epoch_def epoch_event_def
       broadcastToWhitelisted_def member_one_def [abs_def] Let_def gone_member_def gone_pending_def make_admin_def
       remember_def rememberAdmin_def BroadcastToState_def count_sent_def split: prod.splits option.splits if_splits)

lemma act_step_nearer:
  "act_step E a H = (b, H1) \<Longrightarrow>
   sum_list (map act_opens b) < act_opens a \<or>
   sum_list (map act_opens b) = act_opens a \<and> sum_list (map act_left b) < act_left a"
  by (cases "(E, a, H)" rule: act_step.cases)
     (auto simp: Let_def gone_member_def gone_pending_def make_admin_def split: prod.splits option.splits if_splits)

interpretation hub_thread: sequential "thread_step E" "thread_whole E" nearer "[]" for E
proof unfold_locales
  show "wf nearer" unfolding nearer_def by (intro wf_inv_image wf_lex_prod wf_less_than)
  show "k = [] \<and> thread_whole E k H = H" if "thread_step E k H = None" for k H
    using that by (cases k) (simp_all add: thread_whole_def split: prod.splits)
  show "thread_whole E k' H' = thread_whole E k H \<and> (k', k) \<in> nearer"
    if st: "thread_step E k H = Some (k', H')" for k H k' H'
  proof -
    from st obtain a j b where k: "k = a # j" and b: "act_step E a H = (b, H')" and k': "k' = b @ j"
      by (metis thread_stepE prod.collapse)
    show ?thesis
      using act_step_whole [OF b] act_step_nearer [OF b] by (auto simp: k k' thread_whole_def nearer_def)
  qed
qed

section \<open>The handlers\<close>

text \<open>\<open>target\<close>, \<open>client\<close> and \<open>st\<close> are local variables, read before the thread begins.\<close>

definition block_thread :: "'a hub_env_scheme \<Rightarrow> nat \<Rightarrow> string \<Rightarrow> act list" where
  "block_thread E target nickname =
     [Do (\<lambda>H. H\<lparr>BlacklistMap := AList.update (Identity (objs H target)) (Nickname (objs H target)) (BlacklistMap H),
                WhitelistMap := AList.delete (pub_of target H) (WhitelistMap H),
                Admins := AList.delete (pub_of target H) (Admins H)\<rparr>),
      SaveAcl,
      Do (SendSystemMessage E target (u_zap @ '' You have been blocked from the server.'')),
      Do (\<lambda>H. H\<lparr>pending := pending H @ [target]\<rparr>),
      Do (Log E (''Admin blocked and disconnected: '' @ nickname)),
      Do (AddEvent u_no_entry (''Admin blocked '' @ nickname)),
      UserList]"

definition approve_thread :: "'a hub_env_scheme \<Rightarrow> nat \<Rightarrow> string \<Rightarrow> act list" where
  "approve_thread E target nickname =
     [Do (upd_obj target (\<lambda>c. c\<lparr>State := ''WHITELISTED''\<rparr>)),
      CheckAdmin target,
      Epoch,
      Do (\<lambda>H. H\<lparr>WhitelistMap := AList.update (pub_of target H) (Nickname (objs H target)) (WhitelistMap H),
                BlacklistMap := AList.delete (Identity (objs H target)) (BlacklistMap H)\<rparr>),
      SaveMember target,
      Do (SendSystemMessage E target (u_check @ '' You have been approved by an admin. Welcome!'')),
      Do (Log E (''Admin approved: '' @ nickname)),
      Do (AddEvent u_check (''Admin approved: '' @ nickname @ '' '' @ u_arrow @ '' CHAT ROOM'')),
      UserList]"

definition remove_thread :: "nat \<Rightarrow> Hub \<Rightarrow> act list" where
  "remove_thread client H0 =
     [Do (\<lambda>H. snd (RemoveClient (Address (objs H0 client)) H)),
      Do (upd_obj client (\<lambda>c. c\<lparr>ConnOpen := False\<rparr>)),
      Leave client]"

definition relay_thread :: "'a hub_env_scheme \<Rightarrow> nat \<Rightarrow> ChatMessage \<Rightarrow> Hub \<Rightarrow> act list" where
  "relay_thread E client msg H0 =
     (let st = State (objs H0 client); nick = Nickname (objs H0 client)
      in [Ack client msg, Do (upd_obj client (\<lambda>c. c\<lparr>MessageCount := MessageCount c + 1\<rparr>))] @
         (if st = ''WHITELISTED'' then
            [Do (save_history E MsgTypeChat ''[e2ee]'' nick),
             Do (Log E (''[WHITELIST] '' @ nick @ '': ciphertext''))]
          else []) @
         [ToState st (nil_or (Encode E msg)) (Address (objs H0 client))])"

lemmas thread_defs =
  block_thread_def approve_thread_def remove_thread_def relay_thread_def thread_whole_def

lemma block_whole:
  "GetClientByNickname n H = Some r \<Longrightarrow> thread_whole E (block_thread E r n) H = snd (BlockClient E n H)"
  by (simp add: thread_defs BlockClient_def Let_def pub_of_def)

lemma pub_of_maps: "pub_of r (H\<lparr>WhitelistMap := w, BlacklistMap := b\<rparr>) = pub_of r H"
  by (simp add: pub_of_def)

lemma approve_whole:
  "GetClientByNickname n H = Some r \<Longrightarrow> thread_whole E (approve_thread E r n) H = snd (ApproveClient E n H)"
  by (simp only: thread_defs ApproveClient_def Let_def fold_simps act_whole.simps option.case snd_conv
      pub_of_def [symmetric] pub_of_maps)

lemma remove_whole: "thread_whole E (remove_thread r H) H = removeClient E r H"
  by (simp add: thread_defs removeClient_def Let_def is_member_def leave_msg_def case_prod_beta)

text \<open>The messages that \<^verbatim>\<open>processClientMessage\<close> hands to its last lines: a chat message
  that is no command, for one.\<close>

definition relayed :: "ChatMessage \<Rightarrow> bool" where
  "relayed msg \<longleftrightarrow>
     Type msg \<notin> {MsgTypeCmd, MsgTypePrivate, MsgTypeFileOffer, MsgTypeFilePut, MsgTypeFileGet} \<and>
     \<not> (Type msg = MsgTypeChat \<and> \<not> IsE2Ee msg \<and> HasPrefix (Content msg) ''/'')"

lemma relay_whole:
  "relayed msg \<Longrightarrow> thread_whole E (relay_thread E r msg H) H = dispatch E r msg H"
  by (auto simp: thread_defs dispatch_def Let_def relayed_def BroadcastToState_def count_sent_def case_prod_beta)

end
