(* ===== verification/HubConcurrency.thy ===== *)
theory HubConcurrency
  imports HubThreads HubProperties
begin

text \<open>
  What holds when the hub's handlers interleave: the bounds of its buffers, what relays that run
  at the same time leave in a member's queue, and what two saves of the access lists can do to each
  other.
\<close>

section \<open>Bounds\<close>

definition tame :: "act list \<Rightarrow> bool" where
  "tame k \<longleftrightarrow> (\<forall>f. Do f \<in> set k \<longrightarrow> (\<forall>H. bounded H \<longrightarrow> bounded (f H)))"

lemma tame_simps [simp]:
  "tame []" "tame (Do f # k) \<longleftrightarrow> (\<forall>H. bounded H \<longrightarrow> bounded (f H)) \<and> tame k"
  "tame (j @ k) \<longleftrightarrow> tame j \<and> tame k" "(\<And>f. a \<noteq> Do f) \<Longrightarrow> tame (a # k) \<longleftrightarrow> tame k"
  by (auto simp: tame_def)

lemma relay_one_bounded [bound]: "bounded (snd s) \<Longrightarrow> bounded (snd (relay_one E st bs x r s))"
  using talks_relay_one [OF talks_refl, of s E st bs x r] by (simp add: talks_def)

lemma access_bounded [bound]:
  "bounded G \<Longrightarrow> bounded (count_sent n G)" "bounded G \<Longrightarrow> bounded (new_epoch E G)"
  "bounded G \<Longrightarrow> bounded (member_one E msg r G)" "bounded G \<Longrightarrow> bounded (snd (write_file E p d G))"
  "bounded G \<Longrightarrow> bounded (snd (rename_file E p q G))" "bounded G \<Longrightarrow> bounded (remember r G)"
  "bounded G \<Longrightarrow> bounded (send_ack E r msg G)"
  by (simp_all add: count_sent_def new_epoch_def member_one_def write_file_def rename_file_def remember_def
      bound) (simp_all add: bounded_def)

lemma act_bounded: "bounded H \<Longrightarrow> tame [a] \<Longrightarrow> bounded (snd (act_step E a H))"
  by (cases "(E, a, H)" rule: act_step.cases) (simp_all add: Let_def case_prod_beta bound split: option.split)

lemma act_tame: "tame [a] \<Longrightarrow> tame (fst (act_step E a H))"
  by (cases "(E, a, H)" rule: act_step.cases)
     (simp_all add: Let_def case_prod_beta bound gone_member_def gone_pending_def make_admin_def epoch_event_def
       split: option.split)

interpretation bounded_threads: shared "thread_step E" tame bounded for E
proof unfold_locales
  fix k H k' H'
  assume t: "tame k" and b: "bounded H" and st: "thread_step E k H = Some (k', H')"
  from st obtain a j where k: "k = a # j" and "k' = fst (act_step E a H) @ j" "H' = snd (act_step E a H)"
    by (rule thread_stepE)
  moreover have "tame [a]" "tame j" using t unfolding k by (simp_all add: tame_def)
  ultimately show "tame k' \<and> bounded H'" using act_bounded [OF b] act_tame by (metis tame_simps(3))
qed

text \<open>
  What a goroutine of the hub may have before it: the handlers of theory \<open>HubThreads\<close>, and any
  event of theory \<open>HubStep\<close> as one access.
\<close>

inductive goroutine :: "'a hub_env_scheme \<Rightarrow> act list \<Rightarrow> bool" for E where
  idle: "goroutine E []"
| relay: "goroutine E k \<Longrightarrow> goroutine E (relay_thread E r msg H0 @ k)"
| approve: "goroutine E k \<Longrightarrow> goroutine E (approve_thread E r n @ k)"
| block: "goroutine E k \<Longrightarrow> goroutine E (block_thread E r n @ k)"
| remove: "goroutine E k \<Longrightarrow> goroutine E (remove_thread r H0 @ k)"
| other: "goroutine E k \<Longrightarrow> goroutine E (Do (perform E e) # k)"

lemma goroutine_tame: "goroutine E k \<Longrightarrow> tame k"
  by (induction rule: goroutine.induct)
     (simp_all add: thread_defs Let_def RemoveClient_def bound perform_bounded del: perform.simps)

section \<open>Relays that run at the same time\<close>

text \<open>While messages are relayed nobody joins, leaves or changes state; each action fills queues
  only.\<close>

definition same_seats :: "Hub \<Rightarrow> Hub \<Rightarrow> bool" where
  "same_seats H0 H \<longleftrightarrow> clients H = clients H0 \<and>
     (\<forall>r. State (objs H r) = State (objs H0 r) \<and> Address (objs H r) = Address (objs H0 r) \<and>
          EncryptionKey (objs H r) = EncryptionKey (objs H0 r))"

lemma same_seats_refl [simp]: "same_seats H H"
  by (simp add: same_seats_def)

lemma same_seats_trans: "same_seats A B \<Longrightarrow> same_seats B C \<Longrightarrow> same_seats A C"
  by (simp add: same_seats_def)

lemma talks_seats: "talks A B \<Longrightarrow> same_seats A B"
  unfolding talks_def same_seats_def
  using settledD(2) client_fields(2,4,5) settledD(17) by metis

definition quiet :: "(Hub \<Rightarrow> Hub) \<Rightarrow> bool" where
  "quiet f \<longleftrightarrow> (\<forall>H. same_seats H (f H) \<and> (\<forall>q. SendChan (objs (f H) q) = SendChan (objs H q)))"

fun chatty :: "act \<Rightarrow> bool" where
  "chatty (Do f) \<longleftrightarrow> quiet f"
| "chatty (ToState st bs x) \<longleftrightarrow> True"
| "chatty (StateLoop st bs x n rs) \<longleftrightarrow> distinct rs"
| "chatty (Ack r msg) \<longleftrightarrow> True"
| "chatty _ \<longleftrightarrow> False"

text \<open>What an action still owes to client \<open>q\<close>: for each payload, the plaintexts it may open to. A
  relayed message is one plaintext; an acknowledgement has a fresh identifier.\<close>

definition ack_texts :: "'a hub_env_scheme \<Rightarrow> string \<Rightarrow> bytes set" where
  "ack_texts E mid = range (\<lambda>H. nil_or (Encode E (fst (new_msg E MsgTypeAck mid ''SERVER'' H))))"

definition gets_ack :: "ChatMessage \<Rightarrow> bool" where
  "gets_ack msg \<longleftrightarrow> (Type msg = MsgTypeChat \<or> Type msg = MsgTypePrivate) \<and> MessageId msg \<noteq> []"

definition served :: "Hub \<Rightarrow> nat \<Rightarrow> string \<Rightarrow> string \<Rightarrow> bool" where
  "served H q st x \<longleftrightarrow> State (objs H q) = st \<and> Address (objs H q) \<noteq> x"

fun due :: "'a hub_env_scheme \<Rightarrow> Hub \<Rightarrow> nat \<Rightarrow> act \<Rightarrow> bytes set list" where
  "due E H q (ToState st bs x) = (if q \<in> set (GetAllClients H) \<and> served H q st x then [{bs}] else [])"
| "due E H q (StateLoop st bs x n rs) = (if q \<in> set rs \<and> served H q st x then [{bs}] else [])"
| "due E H q (Ack r msg) = (if q = r \<and> gets_ack msg then [ack_texts E (MessageId msg)] else [])"
| "due E H q _ = []"

definition dues :: "'a hub_env_scheme \<Rightarrow> Hub \<Rightarrow> nat \<Rightarrow> act list \<Rightarrow> bytes set list" where
  "dues E H q k = concat (map (due E H q) k)"

lemma dues_simps [simp]:
  "dues E H q [] = []" "dues E H q (a # k) = due E H q a @ dues E H q k"
  "dues E H q (j @ k) = dues E H q j @ dues E H q k"
  by (simp_all add: dues_def)

text \<open>One action pays what it owes: the queue gains a payload that opens to what was due, or the
  debt is as before.\<close>

definition pays :: "'a hub_env_scheme \<Rightarrow> Hub \<Rightarrow> nat \<Rightarrow> bytes set list \<Rightarrow> bytes set list \<Rightarrow> Hub \<Rightarrow> Hub \<Rightarrow> bool" where
  "pays E H0 q d d' H H' \<longleftrightarrow>
     d = d' \<and> SendChan (objs H' q) = SendChan (objs H q) \<or>
     (\<exists>X p bs. d = X # d' \<and> SendChan (objs H' q) = SendChan (objs H q) @ [p] \<and> bs \<in> X \<and>
        opened E (EncryptionKey (objs H0 q)) p = Some bs)"

lemma relay_other: "q \<noteq> r \<Longrightarrow> SendChan (objs (snd (relay_one E st bs x r s)) q) = SendChan (objs (snd s) q)"
  by (simp add: relay_one_alt Let_def snd_deliver SendChan_queue_to)

lemma GetAllClients_seats: "same_seats H0 H \<Longrightarrow> GetAllClients H = GetAllClients H0"
  by (simp add: same_seats_def GetAllClients_def)

lemma served_seats: "same_seats H0 H \<Longrightarrow> served H q st x = served H0 q st x"
  by (simp add: same_seats_def served_def)

lemma act_seats:
  assumes "chatty a"
  shows "same_seats H (snd (act_step E a H))"
proof (cases "(E, a, H)" rule: act_step.cases)
  case (1 E' f H')
  then show ?thesis using assms by (simp add: quiet_def)
next
  case (3 E' st bs x n H')
  then show ?thesis by (simp add: same_seats_def count_sent_def)
next
  case (4 E' st bs x n r rs H')
  then show ?thesis
    using talks_seats [OF talks_relay_one [OF talks_refl, of "(n, H)" E st bs x r]] by (simp add: case_prod_beta)
next
  case (18 E' r msg H')
  then show ?thesis using talks_seats [OF send_ack.talks_f [of H E r msg]] by simp
qed (use assms in simp_all)

lemma act_chatty:
  assumes "chatty a" and "distinct (GetAllClients H)"
  shows "list_all chatty (fst (act_step E a H))"
  using assms by (cases "(E, a, H)" rule: act_step.cases) (simp_all add: case_prod_beta)

lemma pays_same: "SendChan (objs H' q) = SendChan (objs H q) \<Longrightarrow> pays E H0 q d d H H'"
  by (simp add: pays_def)

lemma loop_pays:
  assumes "gcm_correct E" and "aes_key_ok (EncryptionKey (objs H0 q))" and "same_seats H0 H"
    and "distinct (r # rs)" and "due E H0 q (StateLoop st bs x n (r # rs)) \<noteq> [] \<Longrightarrow> has_room H q"
  shows "pays E H0 q (due E H0 q (StateLoop st bs x n (r # rs))) (due E H0 q (StateLoop st bs x m rs)) H
    (snd (relay_one E st bs x r (n, H)))"
proof (cases "q = r")
  case False
  then show ?thesis by (simp add: pays_same relay_other)
next
  case r: True
  have key: "EncryptionKey (objs H q) = EncryptionKey (objs H0 q)" using assms(3) by (simp add: same_seats_def)
  note one = relay_one_gains(1) [where s = "(n, H)" and r = r and st = st and bs = bs and x = x and q = q,
      OF assms(1)]
  show ?thesis
  proof (cases "served H0 q st x")
    case True
    then have "q \<in> set (receivers st x H [r])"
      using assms(5) r served_seats [OF assms(3)] by (simp add: receivers_def served_def)
    then have "gains E bs H (snd (relay_one E st bs x r (n, H))) True q" using one assms(2) key r by simp
    with True show ?thesis using assms(4) r key by (auto simp: pays_def gains_def)
  next
    case False
    then have "q \<notin> set (receivers st x H [r])"
      using served_seats [OF assms(3), of q st x] by (auto simp: receivers_def served_def)
    then have "gains E bs H (snd (relay_one E st bs x r (n, H))) False q" using one assms(2) key r by simp
    with False show ?thesis by (simp add: pays_def gains_def)
  qed
qed

lemma ack_pays:
  assumes "gcm_correct E" and "aes_key_ok (EncryptionKey (objs H0 q))" and "same_seats H0 H"
    and "due E H0 q (Ack r msg) \<noteq> [] \<Longrightarrow> has_room H q"
  shows "pays E H0 q (due E H0 q (Ack r msg)) [] H (send_ack E r msg H)"
proof (cases "gets_ack msg")
  case False
  then show ?thesis by (auto simp: send_ack_def gets_ack_def intro: pays_same)
next
  case ack: True
  let ?p = "new_msg E MsgTypeAck (MessageId msg) ''SERVER'' H"
  let ?bs = "nil_or (Encode E (fst ?p))"
  have sent: "send_ack E r msg H = snd (deliver E r ?bs (snd ?p))"
    using ack by (auto simp: send_ack_def gets_ack_def case_prod_beta)
  show ?thesis
  proof (cases "q = r")
    case False
    then show ?thesis by (simp add: sent pays_same snd_deliver SendChan_queue_to)
  next
    case True
    have key: "EncryptionKey (objs (snd ?p) r) = EncryptionKey (objs H0 q)"
      using assms(3) True by (simp add: same_seats_def)
    have "gains E ?bs (snd ?p) (send_ack E r msg H) (q = r \<and> has_room (snd ?p) r) q"
      unfolding sent by (rule deliver_gains [OF assms(1)]) (simp only: key assms(2))
    moreover have "has_room (snd ?p) r" using assms(4) True ack by (simp add: has_room_def)
    moreover have "?bs \<in> ack_texts E (MessageId msg)" unfolding ack_texts_def by (rule rangeI)
    ultimately show ?thesis using True ack key by (auto simp: pays_def gains_def)
  qed
qed

lemma act_pays:
  assumes "gcm_correct E" and "aes_key_ok (EncryptionKey (objs H0 q))" and "same_seats H0 H" and "chatty a"
    and "due E H0 q a \<noteq> [] \<Longrightarrow> has_room H q"
  shows "pays E H0 q (due E H0 q a) (dues E H0 q (fst (act_step E a H))) H (snd (act_step E a H))"
proof (cases "(E, a, H)" rule: act_step.cases)
  case (1 E' f H')
  then show ?thesis using assms(4) by (simp add: quiet_def pays_same)
next
  case (2 E' st bs x H')
  then have H: "H' = H" "E' = E" "a = ToState st bs x" by simp_all
  show ?thesis by (simp add: H pays_same GetAllClients_seats [OF assms(3)])
next
  case (3 E' st bs x n H')
  then show ?thesis by (simp add: pays_same count_sent_def)
next
  case (4 E' st bs x n r rs H')
  then have H: "E' = E" "H' = H" and a: "a = StateLoop st bs x n (r # rs)" by simp_all
  have "pays E H0 q (due E H0 q a) (due E H0 q (StateLoop st bs x (fst (relay_one E st bs x r (n, H))) rs)) H
      (snd (relay_one E st bs x r (n, H)))"
    unfolding a by (rule loop_pays [OF assms(1-3)]) (use assms(4,5) a in simp_all)
  then show ?thesis by (simp add: a case_prod_beta)
next
  case (18 E' r msg H')
  then show ?thesis using ack_pays [OF assms(1-3), of r msg] assms(5) by simp
qed (use assms(4) in simp_all)

text \<open>\<open>L\<close> names, payload by payload, the thread that queued it and what it owed; thread \<open>i\<close> has
  paid, in its order, the first of its debts and still owes the others.\<close>

definition woven :: "bytes set list list \<Rightarrow> bytes set list list \<Rightarrow> (nat \<times> bytes set) list \<Rightarrow> bool" where
  "woven owed0 owed L \<longleftrightarrow>
     (\<forall>e \<in> set L. fst e < length owed0) \<and>
     (\<forall>i < length owed0. map snd (filter (\<lambda>e. fst e = i) L) @ owed ! i = owed0 ! i)"

definition opens_to :: "'a prims_scheme \<Rightarrow> bytes \<Rightarrow> nat \<times> bytes set \<Rightarrow> string \<Rightarrow> bool" where
  "opens_to P key e p \<longleftrightarrow> (\<exists>bs \<in> snd e. opened P key p = Some bs)"

definition paying :: "'a hub_env_scheme \<Rightarrow> Hub \<Rightarrow> nat \<Rightarrow> bytes set list list \<Rightarrow> act list list \<Rightarrow> Hub \<Rightarrow> bool" where
  "paying E H0 q owed0 ls H \<longleftrightarrow>
     gcm_correct E \<and> aes_key_ok (EncryptionKey (objs H0 q)) \<and> distinct (GetAllClients H0) \<and>
     same_seats H0 H \<and> list_all (list_all chatty) ls \<and> length ls = length owed0 \<and>
     length (SendChan (objs H q)) + sum_list (map (\<lambda>k. length (dues E H0 q k)) ls) \<le> 100 \<and>
     (\<exists>L ps. SendChan (objs H q) = SendChan (objs H0 q) @ ps \<and>
        list_all2 (opens_to E (EncryptionKey (objs H0 q))) L ps \<and>
        woven owed0 (map (dues E H0 q) ls) L)"

lemma woven_pay:
  assumes "woven owed0 owed L" and "i < length owed0" and "length owed = length owed0"
    and "owed ! i = X # d"
  shows "woven owed0 (owed[i := d]) (L @ [(i, X)])"
  using assms by (auto simp: woven_def nth_list_update)

lemma sum_list_update_nat:
  "i < length xs \<Longrightarrow> sum_list (map f (xs[i := y])) + f (xs ! i) = sum_list (map f xs) + (f y :: nat)"
  by (induction xs arbitrary: i) (auto split: nat.split simp: nth_Cons')

lemma paying_progress:
  assumes I: "paying E H0 q owed0 ls H" and i: "i < length ls"
    and st: "thread_step E (ls ! i) H = Some (k', H')"
  shows "same_seats H0 H' \<and> list_all (list_all chatty) (ls[i := k']) \<and>
    pays E H0 q (dues E H0 q (ls ! i)) (dues E H0 q k') H H'"
proof -
  from st obtain a j where k: "ls ! i = a # j"
    and k': "k' = fst (act_step E a H) @ j" and H': "H' = snd (act_step E a H)" by (rule thread_stepE)
  have chat: "list_all chatty (a # j)" using I i k unfolding paying_def by (metis list_all_length)
  have base: "gcm_correct E" "aes_key_ok (EncryptionKey (objs H0 q))" "distinct (GetAllClients H0)"
    "same_seats H0 H" using I by (simp_all add: paying_def)
  have room: "has_room H q" if "due E H0 q a \<noteq> []"
    using I k that elem_le_sum_list [of i "map (\<lambda>k. length (dues E H0 q k)) ls"] i
    by (cases "due E H0 q a") (auto simp: paying_def has_room_def)
  have "pays E H0 q (due E H0 q a) (dues E H0 q (fst (act_step E a H))) H H'"
    unfolding H' by (rule act_pays [OF base(1,2,4)]) (use chat room in simp_all)
  then have "pays E H0 q (dues E H0 q (ls ! i)) (dues E H0 q k') H H'" by (auto simp: pays_def k k')
  moreover have "same_seats H0 H'" using same_seats_trans [OF base(4)] act_seats [of a H E] chat H' by simp
  moreover have "list_all chatty k'"
    using chat act_chatty [of a H E] base(3) GetAllClients_seats [OF base(4)] by (simp add: k')
  ultimately show ?thesis using I i by (auto simp: paying_def list_all_length nth_list_update)
qed

lemma paying_step:
  assumes I: "paying E H0 q owed0 ls H" and i: "i < length ls"
    and st: "thread_step E (ls ! i) H = Some (k', H')"
  shows "paying E H0 q owed0 (ls[i := k']) H'"
proof -
  have seats: "same_seats H0 H'" and chat: "list_all (list_all chatty) (ls[i := k'])"
    and pay: "pays E H0 q (dues E H0 q (ls ! i)) (dues E H0 q k') H H'"
    using paying_progress [OF assms] by simp_all
  have base: "gcm_correct E" "aes_key_ok (EncryptionKey (objs H0 q))" "distinct (GetAllClients H0)"
    "length ls = length owed0" using I by (simp_all add: paying_def)
  note size = sum_list_update_nat [OF i, of "\<lambda>k. length (dues E H0 q k)" k']
  obtain L ps where L: "SendChan (objs H q) = SendChan (objs H0 q) @ ps"
    "list_all2 (opens_to E (EncryptionKey (objs H0 q))) L ps" "woven owed0 (map (dues E H0 q) ls) L"
    using I unfolding paying_def by blast
  show ?thesis
  proof (cases "dues E H0 q (ls ! i) = dues E H0 q k' \<and> SendChan (objs H' q) = SendChan (objs H q)")
    case True
    then have "map (dues E H0 q) (ls[i := k']) = map (dues E H0 q) ls"
      using i by (auto simp: map_update list_update_same_conv)
    then show ?thesis using I True base seats chat size L by (auto simp: paying_def)
  next
    case False
    then obtain X p bs where X: "dues E H0 q (ls ! i) = X # dues E H0 q k'"
      "SendChan (objs H' q) = SendChan (objs H q) @ [p]" "bs \<in> X"
      "opened E (EncryptionKey (objs H0 q)) p = Some bs"
      using pay unfolding pays_def by blast
    have "woven owed0 (map (dues E H0 q) (ls[i := k'])) (L @ [(i, X)])"
      unfolding map_update by (rule woven_pay [OF L(3)]) (use i base(4) X(1) in simp_all)
    moreover have "list_all2 (opens_to E (EncryptionKey (objs H0 q))) (L @ [(i, X)]) (ps @ [p])"
      using L(2) X(3,4) by (auto simp: opens_to_def intro!: list_all2_appendI)
    moreover have "SendChan (objs H' q) = SendChan (objs H0 q) @ ps @ [p]" using L(1) X(2) by simp
    moreover have "length (SendChan (objs H' q)) + sum_list (map (\<lambda>k. length (dues E H0 q k)) (ls[i := k'])) \<le> 100"
      using I size X(1,2) by (simp add: paying_def)
    ultimately show ?thesis using base seats chat unfolding paying_def by (metis length_list_update)
  qed
qed

interpretation relays: interleaved "thread_step E" "paying E H0 q owed0" for E H0 q owed0
  by unfold_locales (rule paying_step)

definition relay_job :: "'a hub_env_scheme \<Rightarrow> Hub \<Rightarrow> (nat \<times> ChatMessage) list \<Rightarrow> act list" where
  "relay_job E H rs = concat (map (\<lambda>(r, msg). relay_thread E r msg H) rs)"

text \<open>What relaying a message of client \<open>r\<close> owes client \<open>q\<close>.\<close>

definition relay_due :: "'a hub_env_scheme \<Rightarrow> Hub \<Rightarrow> nat \<Rightarrow> nat \<times> ChatMessage \<Rightarrow> bytes set list" where
  "relay_due E H q x =
     (case x of (r, msg) \<Rightarrow>
        (if q = r \<and> gets_ack msg then [ack_texts E (MessageId msg)] else []) @
        (if q \<in> set (GetAllClients H) \<and> served H q (State (objs H r)) (Address (objs H r))
         then [{nil_or (Encode E msg)}] else []))"

lemma quiet_accesses:
  "quiet (upd_obj r (\<lambda>c. c\<lparr>MessageCount := MessageCount c + 1\<rparr>))" "quiet (save_history E ty c s)"
  "quiet (Log E m)"
  by (auto simp: quiet_def same_seats_def upd_obj_def save_history_def Log_def push_console_def)

lemma relay_job_chatty: "list_all chatty (relay_job E H rs)"
  by (induction rs) (auto simp: relay_job_def relay_thread_def Let_def quiet_accesses)

lemma relay_job_dues: "dues E H q (relay_job E H rs) = concat (map (relay_due E H q) rs)"
  by (induction rs) (auto simp: relay_job_def relay_thread_def relay_due_def Let_def)

lemma relays_start:
  assumes "gcm_correct E" and "aes_key_ok (EncryptionKey (objs H q))" and "distinct (GetAllClients H)"
    and "length (SendChan (objs H q)) + sum_list (map (\<lambda>rs. length (concat (map (relay_due E H q) rs))) jobs) \<le> 100"
  shows "paying E H q (map (\<lambda>rs. concat (map (relay_due E H q) rs)) jobs) (map (relay_job E H) jobs) H"
proof -
  have "woven owed owed []" for owed by (simp add: woven_def)
  then show ?thesis
    using assms by (auto simp: paying_def relay_job_dues relay_job_chatty list_all_iff comp_def
        intro!: exI [of _ "[]"] relay_job_chatty [unfolded list_all_iff, rule_format])
qed

lemma paying_done:
  assumes "paying E H0 q owed0 ls H" and "\<forall>k \<in> set ls. k = []"
  shows "\<exists>L ps. SendChan (objs H q) = SendChan (objs H0 q) @ ps \<and>
    list_all2 (opens_to E (EncryptionKey (objs H0 q))) L ps \<and> (\<forall>e \<in> set L. fst e < length owed0) \<and>
    (\<forall>i < length owed0. map snd (filter (\<lambda>e. fst e = i) L) = owed0 ! i)"
proof -
  have "map (dues E H0 q) ls ! i = []" if "i < length owed0" for i
  proof -
    have len: "length ls = length owed0" using assms(1) by (simp add: paying_def)
    then have "ls ! i = []" using assms(2) that by (metis nth_mem)
    then show ?thesis using len that by simp
  qed
  then show ?thesis using assms(1) unfolding paying_def woven_def by (metis append.right_neutral)
qed

text \<open>C11: when any number of goroutines relay chat messages at the same time, each a list of
  messages one after the other, and they have all ended under whatever schedule, then the queue of a
  client with room has gained exactly what every goroutine owed it (each message of another member of
  its state, and an acknowledgement of each of its own), nothing else and nothing twice, and what one
  goroutine owed it stands there in the order of that goroutine.\<close>

theorem relays_interleave:
  assumes "schedule (thread_step E) is (map (relay_job E H) jobs, H) = (ls, H')" and "\<forall>k \<in> set ls. k = []"
    and "gcm_correct E" and "aes_key_ok (EncryptionKey (objs H q))" and "distinct (GetAllClients H)"
    and "length (SendChan (objs H q)) + sum_list (map (\<lambda>rs. length (concat (map (relay_due E H q) rs))) jobs) \<le> 100"
  shows "\<exists>L ps. SendChan (objs H' q) = SendChan (objs H q) @ ps \<and>
    list_all2 (opens_to E (EncryptionKey (objs H q))) L ps \<and> (\<forall>e \<in> set L. fst e < length jobs) \<and>
    (\<forall>i < length jobs. map snd (filter (\<lambda>e. fst e = i) L) = concat (map (relay_due E H q) (jobs ! i)))"
  using paying_done [OF relays.schedule_inv [OF assms(1) relays_start [OF assms(3-6)]] assms(2)] by simp

definition demo_jobs :: "(nat \<times> ChatMessage) list list" where
  "demo_jobs = [[(0, empty_message\<lparr>Type := MsgTypeChat, IsE2Ee := True, Content := ''x''\<rparr>)],
                [(1, empty_message\<lparr>Type := MsgTypeChat, IsE2Ee := True, Content := ''y''\<rparr>)]]"

lemma demo_jobs_small:
  "length (SendChan (objs demo_room 1)) +
     sum_list (map (\<lambda>rs. length (concat (map (relay_due demo demo_room 1) rs))) demo_jobs) \<le> 100"
  by (simp add: demo_jobs_def relay_due_def)

text \<open>However two relays have interleaved so far, they can end, and then this holds of them.\<close>

theorem relays_interleave_witness:
  "\<forall>is. \<exists>js H' L ps.
     schedule (thread_step demo) (is @ js) (map (relay_job demo demo_room) demo_jobs, demo_room) = ([[], []], H') \<and>
     SendChan (objs H' 1) = SendChan (objs demo_room 1) @ ps \<and>
     list_all2 (opens_to demo (EncryptionKey (objs demo_room 1))) L ps \<and> (\<forall>e \<in> set L. fst e < length demo_jobs) \<and>
     (\<forall>i < length demo_jobs. map snd (filter (\<lambda>e. fst e = i) L) = concat (map (relay_due demo demo_room 1) (demo_jobs ! i)))"
proof
  fix "is"
  obtain js H' where run:
    "schedule (thread_step demo) (is @ js) (map (relay_job demo demo_room) demo_jobs, demo_room) = ([[], []], H')"
    using hub_thread.can_end [of demo "is" "map (relay_job demo demo_room) demo_jobs" demo_room]
    by (auto simp: demo_jobs_def)
  have key: "aes_key_ok (EncryptionKey (objs demo_room 1))" "distinct (GetAllClients demo_room)"
    by (simp_all add: GetAllClients_def)
  show "\<exists>js H' L ps.
     schedule (thread_step demo) (is @ js) (map (relay_job demo demo_room) demo_jobs, demo_room) = ([[], []], H') \<and>
     SendChan (objs H' 1) = SendChan (objs demo_room 1) @ ps \<and>
     list_all2 (opens_to demo (EncryptionKey (objs demo_room 1))) L ps \<and> (\<forall>e \<in> set L. fst e < length demo_jobs) \<and>
     (\<forall>i < length demo_jobs. map snd (filter (\<lambda>e. fst e = i) L) = concat (map (relay_due demo demo_room 1) (demo_jobs ! i)))"
    by (rule exI [of _ js], rule exI [of _ H'])
       (use relays_interleave [OF run _ demo_gcm(1) key demo_jobs_small] run in simp)
qed

section \<open>Two saves of the access lists\<close>

text \<open>What follows the save in \<^verbatim>\<open>BlockClient\<close> touches neither the disk nor the bans, and no
  more does a relay.\<close>

definition leaves_acl :: "(Hub \<Rightarrow> Hub) \<Rightarrow> bool" where
  "leaves_acl f \<longleftrightarrow> (\<forall>H. disk (f H) = disk H \<and> BlacklistMap (f H) = BlacklistMap H)"

fun no_save :: "act \<Rightarrow> bool" where
  "no_save (Do f) \<longleftrightarrow> leaves_acl f"
| "no_save (ToState st bs x) \<longleftrightarrow> True"
| "no_save (StateLoop st bs x n rs) \<longleftrightarrow> True"
| "no_save (ToMembers ty c) \<longleftrightarrow> True"
| "no_save (MemberLoop msg rs) \<longleftrightarrow> True"
| "no_save UserList \<longleftrightarrow> True"
| "no_save (UserLoop bs rs) \<longleftrightarrow> True"
| "no_save (Ack r msg) \<longleftrightarrow> True"
| "no_save _ \<longleftrightarrow> False"

interpretation after_save: shared "thread_step E" "list_all no_save" "\<lambda>H. disk H = d \<and> BlacklistMap H = b" for E d b
proof unfold_locales
  fix k H k' H'
  assume "list_all no_save k" and "disk H = d \<and> BlacklistMap H = b" and "thread_step E k H = Some (k', H')"
  moreover have "list_all no_save (fst (act_step E a H)) \<and> disk (snd (act_step E a H)) = disk H \<and>
      BlacklistMap (snd (act_step E a H)) = BlacklistMap H" if "no_save a" for a
    using that by (cases "(E, a, H)" rule: act_step.cases)
      (simp_all add: leaves_acl_def case_prod_beta relay_one_alt Let_def member_one_def count_sent_def)
  ultimately show "list_all no_save k' \<and> disk H' = d \<and> BlacklistMap H' = b"
    by (cases k) (auto simp: case_prod_beta Let_def)
qed

definition ban :: "nat \<Rightarrow> Hub \<Rightarrow> Hub" where
  "ban r H = H\<lparr>BlacklistMap := AList.update (Identity (objs H r)) (Nickname (objs H r)) (BlacklistMap H),
     WhitelistMap := AList.delete (pub_of r H) (WhitelistMap H), Admins := AList.delete (pub_of r H) (Admins H)\<rparr>"

definition block_rest :: "'a hub_env_scheme \<Rightarrow> nat \<Rightarrow> string \<Rightarrow> act list" where
  "block_rest E r n = drop 2 (block_thread E r n)"

lemma block_split: "block_thread E r n = Do (ban r) # SaveAcl # block_rest E r n"
  by (simp only: block_rest_def block_thread_def ban_def [abs_def] numeral_2_eq_2 drop_Suc_Cons drop_0)

lemma leaves_acl_ops:
  "leaves_acl (SendSystemMessage E r c)" "leaves_acl (Log E m)" "leaves_acl (AddEvent i t)"
  "leaves_acl (\<lambda>H. H\<lparr>pending := pending H @ [r]\<rparr>)"
  by (simp_all add: leaves_acl_def)

lemma block_rest_safe: "list_all no_save (block_rest E r n)"
  by (simp only: block_rest_def block_thread_def numeral_2_eq_2 drop_Suc_Cons drop_0 list.pred_inject no_save.simps
      leaves_acl_ops)

lemma relay_safe: "list_all no_save (relay_thread E c msg G)"
  by (simp add: relay_thread_def Let_def leaves_acl_ops) (simp add: leaves_acl_def)

text \<open>Access lists that can be saved: a file holds what is written, up to the order of the maps.\<close>

definition storable :: "Hub \<Rightarrow> bool" where
  "storable H \<longleftrightarrow>
     distinct (map fst (WhitelistMap H)) \<and> distinct (map fst (BlacklistMap H)) \<and> distinct (map fst (Admins H)) \<and>
     ascii_map (WhitelistMap H) \<and> ascii_map (BlacklistMap H) \<and> ascii_map (Admins H) \<and> ascii (VaultToken H)"

lemma ascii_map_delete: "ascii_map m \<Longrightarrow> ascii_map (AList.delete k m)"
  by (auto simp: ascii_map_def AList.delete_eq)

lemma ascii_map_update: "ascii_map m \<Longrightarrow> ascii k \<Longrightarrow> ascii v \<Longrightarrow> ascii_map (AList.update k v m)"
  using set_update [of k v m] unfolding ascii_map_def by fastforce

lemma storable_ban:
  "storable H \<Longrightarrow> ascii (Identity (objs H r)) \<Longrightarrow> ascii (Nickname (objs H r)) \<Longrightarrow> storable (ban r H)"
  by (simp add: storable_def ban_def ascii_map_delete ascii_map_update distinct_update distinct_delete)

lemma stored:
  assumes "acl_codec_ok E" and "storable H"
  obtains j f where "acl_json E (acl_of H) = Some j" and "acl_unjson E j = Some f"
    and "same_map (f_Blacklist f) (Some (BlacklistMap H))"
proof -
  have "acl_of H = \<lparr>f_Whitelist = Some (WhitelistMap H), f_Blacklist = Some (BlacklistMap H),
      f_Admins = Some (Admins H), f_VaultToken = VaultToken H\<rparr>"
    using assms(2) by (simp add: acl_of_def copyMap_id storable_def)
  then show ?thesis
    using assms(1) [unfolded acl_codec_ok_def, rule_format, of "WhitelistMap H" "BlacklistMap H" "Admins H" "VaultToken H"]
      assms(2) that by (auto simp: storable_def)
qed

text \<open>Two goroutines block a client each. The first is held up between its copy of the lists and its
  write; the second saves in between.\<close>

lemma save_turns:
  assumes "acl_json E (acl_of H) = Some j"
  shows "thread_step E (Do f # k) H = Some (k, f H)"
    and "thread_step E (SaveAcl # k) H = Some (WriteTmp j # k, H)"
    and "can_write E (tmpPath E) \<Longrightarrow> thread_step E (WriteTmp d # k) G =
      Some (RenameTmp # k, G\<lparr>disk := (disk G)(tmpPath E \<mapsto> \<lparr>content = d, mtime = clock G\<rparr>)\<rparr>)"
    and "can_write E (aclPath E) \<Longrightarrow> disk G (tmpPath E) = Some v \<Longrightarrow> thread_step E (RenameTmp # k) G =
      Some (k, G\<lparr>disk := (disk G)(tmpPath E := None, aclPath E \<mapsto> v)\<rparr>)"
  using assms by (simp_all add: write_file_def rename_file_def)

lemma block_race_run:
  assumes j1: "acl_json E (acl_of (ban r1 H)) = Some j1" and j2: "acl_json E (acl_of (ban r2 (ban r1 H))) = Some j2"
    and w: "can_write E (aclPath E)" "can_write E (tmpPath E)"
  shows "\<exists>H'. schedule (thread_step E) [0, 0, 1, 1, 1, 1, 0, 0] ([block_thread E r1 n1, block_thread E r2 n2], H) =
      ([block_rest E r1 n1, block_rest E r2 n2], H') \<and>
    BlacklistMap H' = BlacklistMap (ban r2 (ban r1 H)) \<and>
    (\<exists>t. disk H' (aclPath E) = Some \<lparr>content = j1, mtime = t\<rparr>)"
proof -
  let ?p = "aclPath E" and ?t = "tmpPath E" and ?a = "block_rest E r1 n1" and ?b = "block_rest E r2 n2"
  define A where "A = ban r1 H"
  define B where "B = ban r2 A"
  define C where "C = B\<lparr>disk := (disk B)(?t \<mapsto> \<lparr>content = j2, mtime = clock B\<rparr>)\<rparr>"
  define D where "D = C\<lparr>disk := (disk C)(?t := None, ?p \<mapsto> \<lparr>content = j2, mtime = clock B\<rparr>)\<rparr>"
  define F where "F = D\<lparr>disk := (disk D)(?t \<mapsto> \<lparr>content = j1, mtime = clock D\<rparr>)\<rparr>"
  define G where "G = F\<lparr>disk := (disk F)(?t := None, ?p \<mapsto> \<lparr>content = j1, mtime = clock D\<rparr>)\<rparr>"
  note first = save_turns [OF j1 [folded A_def]] and second = save_turns [OF j2 [folded A_def, folded B_def]]
  have "schedule (thread_step E) [0, 0, 1] ([block_thread E r1 n1, block_thread E r2 n2], H) =
      ([WriteTmp j1 # ?a, SaveAcl # ?b], B)"
    using first(2) by (simp add: block_split turn_def A_def B_def)
  moreover have "turn (thread_step E) 1 ([WriteTmp j1 # ?a, SaveAcl # ?b], B) = ([WriteTmp j1 # ?a, WriteTmp j2 # ?b], B)"
    using second(2) [of ?b] by (simp add: turn_def)
  moreover have "turn (thread_step E) 1 ([WriteTmp j1 # ?a, WriteTmp j2 # ?b], B) = ([WriteTmp j1 # ?a, RenameTmp # ?b], C)"
    using second(3) [OF w(2), of j2 ?b B] by (simp add: turn_def C_def)
  moreover have "turn (thread_step E) 1 ([WriteTmp j1 # ?a, RenameTmp # ?b], C) = ([WriteTmp j1 # ?a, ?b], D)"
    using second(4) [OF w(1), of C _ ?b] by (simp add: turn_def C_def D_def)
  moreover have "turn (thread_step E) 0 ([WriteTmp j1 # ?a, ?b], D) = ([RenameTmp # ?a, ?b], F)"
    using second(3) [OF w(2), of j1 ?a D] by (simp add: turn_def F_def)
  moreover have "turn (thread_step E) 0 ([RenameTmp # ?a, ?b], F) = ([?a, ?b], G)"
    using second(4) [OF w(1), of F _ ?a] by (simp add: turn_def F_def G_def)
  ultimately have "schedule (thread_step E) ([0, 0, 1] @ [1, 1, 1, 0, 0])
      ([block_thread E r1 n1, block_thread E r2 n2], H) = ([?a, ?b], G)"
    by (simp only: schedule_simps)
  then have "schedule (thread_step E) [0, 0, 1, 1, 1, 1, 0, 0]
      ([block_thread E r1 n1, block_thread E r2 n2], H) = ([?a, ?b], G)" by simp
  moreover have "BlacklistMap G = BlacklistMap (ban r2 (ban r1 H))" by (simp add: G_def F_def D_def C_def B_def A_def)
  moreover have "disk G ?p = Some \<lparr>content = j1, mtime = clock D\<rparr>" by (simp add: G_def)
  ultimately show ?thesis by blast
qed

text \<open>C34: saving the access lists is not one critical section: when two clients of different
  identities are blocked at the same time (the lists being such that they can be saved and read back) and the first save is held up between its copy and its write while the second runs, then, in
  whatever order the rest of the two handlers and any goroutines that save nothing (relays, say) run
  on, the second ban is in force in memory and missing from the file: unless some later handler
  saves the lists again, a restarted hub lets the client in again.\<close>

theorem acl_save_race:
  assumes "schedule (thread_step E) ([0, 0, 1, 1, 1, 1, 0, 0] @ is)
      ([block_thread E r1 n1, block_thread E r2 n2] @ others, H) = (ls, H')"
    and "\<forall>k \<in> set others. list_all no_save k"
    and "GetClientByNickname n1 H = Some r1" and "GetClientByNickname n2 H = Some r2"
    and "Identity (objs H r1) \<noteq> Identity (objs H r2)" and "map_of (BlacklistMap H) (Identity (objs H r2)) = None"
    and "acl_codec_ok E" and "can_write E (aclPath E)" and "can_write E (tmpPath E)" and "storable H"
    and "\<forall>r \<in> {r1, r2}. ascii (Identity (objs H r)) \<and> ascii (Nickname (objs H r))"
  shows "map_of (BlacklistMap H') (Identity (objs H r2)) = Some n2 \<and>
    map_of (BlacklistMap (NewServer E now pos (disk H'))) (Identity (objs H r2)) = None"
proof -
  let ?B = "ban r2 (ban r1 H)"
  have s1: "storable (ban r1 H)" by (rule storable_ban) (use assms(10,11) in simp_all)
  have s2: "storable ?B" by (rule storable_ban [OF s1]) (use assms(11) in \<open>simp_all add: ban_def\<close>)
  obtain j1 f1 where j1: "acl_json E (acl_of (ban r1 H)) = Some j1" "acl_unjson E j1 = Some f1"
    "same_map (f_Blacklist f1) (Some (BlacklistMap (ban r1 H)))" by (rule stored [OF assms(7) s1])
  obtain j2 where j2: "acl_json E (acl_of ?B) = Some j2" by (rule stored [OF assms(7) s2])
  obtain H1 t where H1: "schedule (thread_step E) [0, 0, 1, 1, 1, 1, 0, 0]
      ([block_thread E r1 n1, block_thread E r2 n2], H) = ([block_rest E r1 n1, block_rest E r2 n2], H1)"
    "BlacklistMap H1 = BlacklistMap ?B" "disk H1 (aclPath E) = Some \<lparr>content = j1, mtime = t\<rparr>"
    using block_race_run [OF j1(1) j2 assms(8,9)] by blast
  have "\<forall>i \<in> set [0, 0, 1, 1, 1, 1, 0, 0]. i < length [block_thread E r1 n1, block_thread E r2 n2]" by simp
  note others = schedule_prefix [OF H1(1) this, of others]
  have "schedule (thread_step E) is ([block_rest E r1 n1, block_rest E r2 n2] @ others, H1) = (ls, H')"
    using assms(1) by (simp only: schedule_simps(3) others)
  from after_save.schedule_keeps [OF this, of "disk H1" "BlacklistMap H1"]
  have same: "disk H' = disk H1 \<and> BlacklistMap H' = BlacklistMap H1"
    using assms(2) by (simp add: block_rest_safe list_all_iff [of "list_all no_save"])
  have "Nickname (objs H r2) = n2" using by_nick_found [OF assms(4)] by simp
  then have "map_of (BlacklistMap H') (Identity (objs H r2)) = Some n2"
    by (simp add: same H1(2) ban_def update_conv')
  moreover have "map_of (BlacklistMap (NewServer E now pos (disk H'))) (Identity (objs H r2)) = None"
    using j1(2,3) assms(5,6)
    by (auto simp: NewServer_def loadACL_def Let_def same H1(3) same_map_def ban_def update_conv' split: option.splits)
  ultimately show ?thesis by blast
qed

lemma demo_storable: "acl_codec_ok demo" "storable demo_room"
  by (simp_all add: acl_codec_ok_def acl_enc_def acl_dec_def same_map_def storable_def ascii_map_def ascii_def)

theorem acl_save_race_witness:
  "\<forall>is msg. \<exists>ls H'. schedule (thread_step demo) ([0, 0, 1, 1, 1, 1, 0, 0] @ is)
       ([block_thread demo 1 ''bob'', block_thread demo 2 ''eve''] @ [relay_thread demo 0 msg demo_room], demo_room) =
         (ls, H') \<and>
     map_of (BlacklistMap H') ''3id'' = Some ''eve'' \<and>
     map_of (BlacklistMap (NewServer demo 9 9 (disk H'))) ''3id'' = None"
proof (intro allI)
  fix "is" msg
  have quiet: "\<forall>k \<in> set [relay_thread demo 0 msg demo_room]. list_all no_save k" by (simp add: relay_safe)
  obtain ls H' where run: "schedule (thread_step demo) ([0, 0, 1, 1, 1, 1, 0, 0] @ is)
      ([block_thread demo 1 ''bob'', block_thread demo 2 ''eve''] @ [relay_thread demo 0 msg demo_room], demo_room) = (ls, H')"
    by (metis prod.collapse)
  have "map_of (BlacklistMap H') ''3id'' = Some ''eve'' \<and>
      map_of (BlacklistMap (NewServer demo 9 9 (disk H'))) ''3id'' = None"
    using acl_save_race [OF run quiet _ _ _ _ demo_storable(1) _ _ demo_storable(2), of 9 9]
    by (simp add: GetClientByNickname_def ascii_def)
  with run show "\<exists>ls H'. schedule (thread_step demo) ([0, 0, 1, 1, 1, 1, 0, 0] @ is)
       ([block_thread demo 1 ''bob'', block_thread demo 2 ''eve''] @ [relay_thread demo 0 msg demo_room], demo_room) =
         (ls, H') \<and>
     map_of (BlacklistMap H') ''3id'' = Some ''eve'' \<and>
     map_of (BlacklistMap (NewServer demo 9 9 (disk H'))) ''3id'' = None" by blast
qed

section \<open>Handlers on their own, and the bounds of all of them\<close>

text \<open>A handler whose goroutine runs while no other moves comes, after some number of its steps, to
  its end and to the state the handler is modelled to return in one step: this holds of blocking,
  approving and removing a client and of relaying a message.\<close>

lemma handlers_alone:
  assumes "GetClientByNickname n H = Some r" and "relayed msg"
  shows "(\<exists>k. schedule (thread_step E) (replicate k 0) ([block_thread E r n], H) = ([[]], snd (BlockClient E n H))) \<and>
    (\<exists>k. schedule (thread_step E) (replicate k 0) ([approve_thread E r n], H) = ([[]], snd (ApproveClient E n H))) \<and>
    (\<exists>k. schedule (thread_step E) (replicate k 0) ([remove_thread c H], H) = ([[]], removeClient E c H)) \<and>
    (\<exists>k. schedule (thread_step E) (replicate k 0) ([relay_thread E c msg H], H) = ([[]], dispatch E c msg H))"
  using hub_thread.alone [of E _ H] block_whole [OF assms(1)] approve_whole [OF assms(1)] remove_whole
    relay_whole [OF assms(2)] by metis

lemma handlers_alone_example:
  "(\<exists>k. schedule (thread_step demo) (replicate k 0) ([block_thread demo 2 ''eve''], demo_room) =
     ([[]], snd (BlockClient demo ''eve'' demo_room))) \<and>
   (\<exists>k. schedule (thread_step demo) (replicate k 0) ([relay_thread demo 0 (empty_message\<lparr>Type := ''x''\<rparr>) demo_room], demo_room) =
     ([[]], dispatch demo 0 (empty_message\<lparr>Type := ''x''\<rparr>) demo_room))"
  using handlers_alone [of "''eve''" demo_room 2 "empty_message\<lparr>Type := ''x''\<rparr>" demo 0]
  by (simp add: GetClientByNickname_def relayed_def cfg)

text \<open>C25: however the goroutines of the hub interleave (relays, approvals, blocks and removals access by
  access, everything else as one access), the two logs stay within 1000 and 200 entries, the message
  memory within its limit and every client's queue within 100 payloads.\<close>

theorem goroutines_bounded:
  assumes "schedule (thread_step E) is (ks, H) = (ls, H')" and "\<forall>k \<in> set ks. goroutine E k" and "bounded H"
  shows "length (ConsoleHistory H') \<le> 1000 \<and> length (EventLog H') \<le> 200 \<and>
    length (messages (DBManager H')) \<le> MessageHistoryLimit \<and> (\<forall>r. length (SendChan (objs H' r)) \<le> 100)"
proof -
  have "list_all tame ks" using assms(2) goroutine_tame by (auto simp: list_all_iff)
  then have "bounded H'" using bounded_threads.schedule_keeps [OF assms(1)] assms(3) by blast
  then show ?thesis by (simp add: bounded_def memory_ok_def)
qed

theorem goroutines_bounded_witness:
  "\<forall>is. length (EventLog (snd (schedule (thread_step demo) is
      ([block_thread demo 2 ''eve'' @ [], Do (perform demo Ping) # approve_thread demo 2 ''eve'' @ []], demo_room)))) \<le> 200"
proof
  fix "is"
  let ?ks = "[block_thread demo 2 ''eve'' @ [], Do (perform demo Ping) # approve_thread demo 2 ''eve'' @ []]"
  have "\<forall>k \<in> set ?ks. goroutine demo k"
    by (auto intro!: goroutine.other goroutine.block goroutine.approve goroutine.idle simp del: append_Nil2)
  then show "length (EventLog (snd (schedule (thread_step demo) is (?ks, demo_room)))) \<le> 200"
    using goroutines_bounded [OF prod.collapse [symmetric] _ demo_bounded(2)] by blast
qed

end
