(* ===== verification/ClientEnv.thy ===== *)
theory ClientEnv
  imports Host
begin

text \<open>
  What the client (\<^verbatim>\<open>internal/client\<close>) uses of its surroundings beyond theory
  \<open>Host\<close>: the JSON of the pinned identities, protojson for queued messages, the zip
  reader, the public half of an Ed25519 seed, the passphrase of the environment, the local
  address of the connection, and on which files a read fails half-way.
\<close>

record zip_entry =
  ze_name :: string
  ze_dir :: bool
  ze_data :: bytes
  ze_ok :: bool

text \<open>An HTTP response: status, the header \<^verbatim>\<open>X-Conner-AEAD: chunk-v1\<close>, the body,
  and whether reading the body ends in an error.\<close>

record http_resp =
  status :: nat
  aead :: bool
  body :: bytes
  body_fails :: bool

record client_env = host +
  ids_json :: "strmap \<Rightarrow> bytes option"
  ids_unjson :: "bytes \<Rightarrow> strmap option"
  pj_enc :: "ChatMessage \<Rightarrow> bytes option"
  pj_dec :: "bytes \<Rightarrow> ChatMessage option"
  unzip :: "bytes \<Rightarrow> zip_entry list option"
  ed25519_pub :: "bytes \<Rightarrow> bytes"
  passphrase :: string
  local_addr :: string
  read_ok :: "string \<Rightarrow> bool"

text \<open>
  What is relied on: the JSON of a map of ASCII strings reads back as the same map; the
  protojson of a message is a non-empty line (control characters are escaped) that reads
  back as the message; a public key has 32 bytes.
\<close>

definition ids_codec_ok :: "'a client_env_scheme \<Rightarrow> bool" where
  "ids_codec_ok E \<longleftrightarrow>
     (\<forall>m. ascii_map m \<longrightarrow> (\<exists>j m'. ids_json E m = Some j \<and> ids_unjson E j = Some m' \<and> map_of m' = map_of m))"

definition pj_ok :: "'a client_env_scheme \<Rightarrow> bool" where
  "pj_ok E \<longleftrightarrow>
     (\<forall>m b. pj_enc E m = Some b \<longrightarrow> pj_dec E b = Some m \<and> b \<noteq> [] \<and> newline \<notin> set b) \<and>
     (\<forall>m. ascii_msg m \<longrightarrow> pj_enc E m \<noteq> None)"

section \<open>Identity keys (crypto.go, wrap.go, core.go)\<close>

text \<open>\<^verbatim>\<open>ed25519.GenerateKey\<close> draws a seed of 32 bytes; the private key is the seed
  followed by the public key.\<close>

definition GenerateSigningKeyPair :: "'a client_env_scheme \<Rightarrow> nat \<Rightarrow> (bytes \<times> bytes) \<times> nat" where
  "GenerateSigningKeyPair E pos =
     (let seed = rand_bytes E pos 32; pub = ed25519_pub E seed in ((pub, seed @ pub), pos + 32))"

definition WriteWrapped ::
  "'a host_scheme \<Rightarrow> int \<Rightarrow> nat \<Rightarrow> string \<Rightarrow> string \<Rightarrow> bytes \<Rightarrow> disk \<Rightarrow> bool \<times> nat \<times> disk" where
  "WriteWrapped E now pos path pass plaintext d =
     (case WrapKey E pos pass plaintext of
        (None, pos') \<Rightarrow> (False, pos', d)
      | (Some blob, pos') \<Rightarrow> (let (ok, d') = write_disk E now path blob d in (ok, pos', d')))"

definition ReadWrapped :: "'a host_scheme \<Rightarrow> string \<Rightarrow> string \<Rightarrow> disk \<Rightarrow> bytes option" where
  "ReadWrapped E path pass d =
     (case read_disk path d of None \<Rightarrow> None | Some blob \<Rightarrow> UnwrapKey E pass blob)"

text \<open>The pair of public and private key, the new random position and the disk.\<close>

definition loadIdentityKeys ::
  "'a client_env_scheme \<Rightarrow> int \<Rightarrow> string \<Rightarrow> nat \<times> disk \<Rightarrow> (bytes \<times> bytes) \<times> nat \<times> disk" where
  "loadIdentityKeys E now nick s =
     (let (pos, d) = s; keyFile = IdentityKey E nick; wrapFile = IdentityKeyWrap E nick;
          pass = passphrase E;
          wrapped = (if pass = [] then None else ReadWrapped E wrapFile pass d)
      in if (case read_disk keyFile d of Some data \<Rightarrow> length data = 64 | None \<Rightarrow> False) then
           (let data = the (read_disk keyFile d)
            in if pass \<noteq> [] then
                 (let (ok, pos', d') = WriteWrapped E now pos wrapFile pass data d
                  in ((drop 32 data, take 64 data), pos', remove_disk keyFile d'))
               else ((drop 32 data, take 64 data), pos, d))
         else if (case wrapped of Some data \<Rightarrow> length data = 64 | None \<Rightarrow> False) then
           (let data = the wrapped in ((drop 32 data, take 64 data), pos, d))
         else
           (let ((p, sk), pos1) = GenerateSigningKeyPair E pos
            in if pass \<noteq> [] then
                 (let (ok, pos', d') = WriteWrapped E now pos1 wrapFile pass sk d
                  in ((p, sk), pos', d'))
               else ((p, sk), pos1, snd (write_disk E now keyFile sk d))))"

text \<open>
  The first start makes a key pair; every later start with the same passphrase (or none)
  finds the same one.
\<close>

lemma read_wrapped_write:
  assumes "gcm_correct E" and "gcm_overhead E" and "kdf_sizes E" and "can_write E path"
  shows "\<exists>pos' d'. WriteWrapped E now pos path pass sk d = (True, pos', d') \<and>
    ReadWrapped E path pass d' = Some sk \<and> (\<forall>q. q \<noteq> path \<longrightarrow> d' q = d q)"
proof -
  let ?salt = "rand_bytes E pos 16"
  have "length (pbkdf2_sha256 E pass ?salt wrapIters) = 32"
    using assms(3) by (simp add: kdf_sizes_def)
  then obtain ct where "Encrypt E (pos + 16) (pbkdf2_sha256 E pass ?salt wrapIters) sk =
      (Some ct, pos + 16 + nonceSize)"
    using Encrypt_total aes_key_32 by blast
  then have w: "WrapKey E pos pass sk = (Some (?salt @ ct), pos + 28)"
    by (simp add: WrapKey_def Let_def nonceSize_def)
  then show ?thesis
    using wrap_roundtrip [OF assms(1,2) w] assms(4)
    by (simp add: WriteWrapped_def ReadWrapped_def write_disk_def read_disk_def)
qed

end
