(* ===== verification/IdentityStore.thy ===== *)
theory IdentityStore
  imports ClientEnv
begin

text \<open>
  \<^verbatim>\<open>internal/client/identity_store.go\<close>: the keys of other members are pinned when
  they are first seen; a different key is remembered beside the pin, not instead of it, until
  the user trusts it.
\<close>

record identity_store =
  Identities :: strmap
  ids_path :: string
  mismatch :: strmap

type_synonym ids_state = "identity_store \<times> disk"

definition load_ids :: "'a client_env_scheme \<Rightarrow> disk \<Rightarrow> identity_store \<Rightarrow> identity_store" where
  "load_ids E d s =
     (case read_disk (ids_path s) d of None \<Rightarrow> s
      | Some data \<Rightarrow> (case ids_unjson E data of None \<Rightarrow> s | Some m \<Rightarrow> s\<lparr>Identities := m\<rparr>))"

definition NewIdentityStore :: "'a client_env_scheme \<Rightarrow> string \<Rightarrow> disk \<Rightarrow> identity_store" where
  "NewIdentityStore E path d = load_ids E d \<lparr>Identities = [], ids_path = path, mismatch = []\<rparr>"

definition save_ids :: "'a client_env_scheme \<Rightarrow> int \<Rightarrow> ids_state \<Rightarrow> ids_state" where
  "save_ids E now x =
     (case ids_json E (Identities (fst x)) of None \<Rightarrow> x
      | Some data \<Rightarrow> (fst x, replace_disk E now (ids_path (fst x)) data (snd x)))"

definition HasMismatch :: "identity_store \<Rightarrow> bool" where
  "HasMismatch s \<longleftrightarrow> length (mismatch s) > 0"

definition PendingKey :: "identity_store \<Rightarrow> string \<Rightarrow> string option" where
  "PendingKey s nick = map_of (mismatch s) nick"

definition Trust :: "'a client_env_scheme \<Rightarrow> int \<Rightarrow> string \<Rightarrow> string \<Rightarrow> ids_state \<Rightarrow> ids_state" where
  "Trust E now nick pubKeyB64 x =
     (let s = fst x;
          key = (if pubKeyB64 = [] then (case map_of (mismatch s) nick of None \<Rightarrow> [] | Some k \<Rightarrow> k)
                 else pubKeyB64)
      in if key = [] then x
         else save_ids E now
           (s\<lparr>Identities := AList.update nick key (Identities s),
              mismatch := AList.delete nick (mismatch s)\<rparr>, snd x))"

text \<open>The answer is (isOK, isNew).\<close>

definition Check ::
  "'a client_env_scheme \<Rightarrow> int \<Rightarrow> string \<Rightarrow> string \<Rightarrow> ids_state \<Rightarrow> (bool \<times> bool) \<times> ids_state" where
  "Check E now nick pubKeyB64 x =
     (let s = fst x
      in case map_of (Identities s) nick of
           None \<Rightarrow>
             ((True, True),
              save_ids E now (s\<lparr>Identities := AList.update nick pubKeyB64 (Identities s)\<rparr>, snd x))
         | Some oldKey \<Rightarrow>
             if oldKey \<noteq> pubKeyB64 then
               ((False, False), (s\<lparr>mismatch := AList.update nick pubKeyB64 (mismatch s)\<rparr>, snd x))
             else ((True, False), (s\<lparr>mismatch := AList.delete nick (mismatch s)\<rparr>, snd x)))"

section \<open>Pins\<close>

definition pin :: "ids_state \<Rightarrow> string \<Rightarrow> string option" where
  "pin x = map_of (Identities (fst x))"

definition suspect :: "ids_state \<Rightarrow> string \<Rightarrow> string option" where
  "suspect x = map_of (mismatch (fst x))"

lemma save_ids_store [simp]: "fst (save_ids E now x) = fst x"
  by (simp add: save_ids_def split: option.split)

lemma save_ids_disk [frame]:
  "q \<noteq> ids_path (fst x) \<Longrightarrow> q \<noteq> ids_path (fst x) @ ''.tmp'' \<Longrightarrow> snd (save_ids E now x) q = snd x q"
  by (simp add: save_ids_def frame split: option.split)

lemma pin_save [simp]: "pin (save_ids E now x) = pin x" "suspect (save_ids E now x) = suspect x"
  by (simp_all add: pin_def suspect_def)

lemma HasMismatch_iff: "HasMismatch (fst x) \<longleftrightarrow> (\<exists>nick. suspect x nick \<noteq> None)"
proof (cases "mismatch (fst x)")
  case Nil
  then show ?thesis by (simp add: suspect_def HasMismatch_def)
next
  case (Cons a l)
  then have "suspect x (fst a) \<noteq> None" by (cases a) (simp add: suspect_def)
  with Cons show ?thesis by (auto simp: HasMismatch_def)
qed

lemma Check_effect:
  "pin (snd (Check E now nick key x)) = (if pin x nick = None then (pin x)(nick \<mapsto> key) else pin x)"
  "suspect (snd (Check E now nick key x)) =
     (case pin x nick of None \<Rightarrow> suspect x
      | Some old \<Rightarrow> if old = key then (suspect x)(nick := None) else (suspect x)(nick \<mapsto> key))"
  "fst (Check E now nick key x) =
     (pin x nick = None \<or> pin x nick = Some key, pin x nick = None)"
  by (auto simp: Check_def pin_def suspect_def Let_def update_conv' AList.delete_conv fun_eq_iff split: option.split)

lemma Trust_effect:
  "pin (Trust E now nick [] x) =
     (case suspect x nick of None \<Rightarrow> pin x
      | Some k \<Rightarrow> if k = [] then pin x else (pin x)(nick \<mapsto> k))"
  "suspect (Trust E now nick [] x) =
     (if suspect x nick \<noteq> None \<and> suspect x nick \<noteq> Some [] then (suspect x)(nick := None) else suspect x)"
  by (auto simp: Trust_def pin_def suspect_def Let_def update_conv' AList.delete_conv split: option.split)

text \<open>What a run of checks and decisions of the user does to a pin.\<close>

datatype ids_op = DoCheck string string | DoTrust string

fun ids_step :: "'a client_env_scheme \<Rightarrow> int \<Rightarrow> ids_op \<Rightarrow> ids_state \<Rightarrow> ids_state" where
  "ids_step E now (DoCheck nick key) x = snd (Check E now nick key x)"
| "ids_step E now (DoTrust nick) x = Trust E now nick [] x"

lemma pin_kept:
  assumes "pin x nick = Some key" and "DoTrust nick \<notin> set ops"
  shows "pin (fold (ids_step E now) ops x) nick = Some key"
  using assms
proof (induction ops arbitrary: x)
  case (Cons op ops)
  have "pin (ids_step E now op x) nick = Some key"
    using Cons.prems by (cases op) (auto simp: Check_effect Trust_effect split: option.split)
  then show ?case using Cons.IH Cons.prems(2) by simp
qed simp

text \<open>What was saved is what a store opened later holds.\<close>

lemma pins_saved:
  assumes "ids_codec_ok E" and "ascii_map (Identities (fst x))"
    and "can_write E (ids_path (fst x))" and "can_write E (ids_path (fst x) @ ''.tmp'')"
  shows "map_of (Identities (NewIdentityStore E (ids_path (fst x)) (snd (save_ids E now x)))) = pin x"
proof -
  obtain j m where j: "ids_json E (Identities (fst x)) = Some j" "ids_unjson E j = Some m"
    "map_of m = map_of (Identities (fst x))"
    using assms(1,2) unfolding ids_codec_ok_def by blast
  have "read_disk (ids_path (fst x)) (snd (save_ids E now x)) = Some j"
    using assms(3,4) by (simp add: save_ids_def j(1) read_disk_def replace_disk_path)
  then show ?thesis using j by (simp add: NewIdentityStore_def load_ids_def pin_def)
qed

end
