(* ===== verification/DiskQueue.thy ===== *)
theory DiskQueue
  imports ClientEnv
begin

text \<open>
  \<^verbatim>\<open>internal/client/queue.go\<close>: messages that found no room are kept on disk, one
  protojson line each, and read back at the next connection. The theory ends with the
  refinement of a queue of messages by the file.
\<close>

definition Enqueue ::
  "'a client_env_scheme \<Rightarrow> int \<Rightarrow> string \<Rightarrow> ChatMessage \<Rightarrow> disk \<Rightarrow> bool \<times> disk" where
  "Enqueue E now path msg d =
     (case pj_enc E msg of None \<Rightarrow> (False, d)
      | Some b \<Rightarrow> append_disk E now path (b @ [newline]) d)"

text \<open>\<open>cur\<close> is \<^verbatim>\<open>b[start:i]\<close>.\<close>

fun split_go :: "bytes \<Rightarrow> bytes \<Rightarrow> bytes list" where
  "split_go cur [] = (if cur = [] then [] else [cur])"
| "split_go cur (c # b) = (if c = newline then cur # split_go [] b else split_go (cur @ [c]) b)"

definition splitLines :: "bytes \<Rightarrow> bytes list" where
  "splitLines b = split_go [] b"

fun decode_lines :: "'a client_env_scheme \<Rightarrow> bytes list \<Rightarrow> ChatMessage list" where
  "decode_lines E [] = []"
| "decode_lines E (line # ls) =
     (if length line = 0 then decode_lines E ls
      else case pj_dec E line of None \<Rightarrow> decode_lines E ls | Some m \<Rightarrow> m # decode_lines E ls)"

text \<open>A missing file is an empty queue; one that cannot be read is an error.\<close>

definition Drain :: "'a client_env_scheme \<Rightarrow> string \<Rightarrow> disk \<Rightarrow> ChatMessage list option \<times> disk" where
  "Drain E path d =
     (case read_disk path d of
        None \<Rightarrow> (if is_dir E path then None else Some [], d)
      | Some raw \<Rightarrow> (Some (decode_lines E (splitLines raw)), remove_disk path d))"

section \<open>The file as a queue\<close>

definition queued :: "'a client_env_scheme \<Rightarrow> string \<Rightarrow> disk \<Rightarrow> ChatMessage list" where
  "queued E path d =
     (case read_disk path d of None \<Rightarrow> [] | Some raw \<Rightarrow> decode_lines E (splitLines raw))"

definition queue_wf :: "string \<Rightarrow> disk \<Rightarrow> bool" where
  "queue_wf path d \<longleftrightarrow> (\<forall>raw. read_disk path d = Some raw \<longrightarrow> raw \<noteq> [] \<longrightarrow> last raw = newline)"

lemma split_go_line: "newline \<notin> set b \<Longrightarrow> split_go cur (b @ newline # r) = (cur @ b) # split_go [] r"
  by (induction b arbitrary: cur) auto

lemma split_go_append:
  "split_go cur (a @ newline # b) = split_go cur (a @ [newline]) @ split_go [] b"
  by (induction a arbitrary: cur) auto

lemma splitLines_append:
  assumes "raw = [] \<or> last raw = newline"
  shows "splitLines (raw @ b) = splitLines raw @ splitLines b"
proof (cases "raw = []")
  case False
  then obtain a where "raw = a @ [newline]" using assms by (metis append_butlast_last_id)
  then show ?thesis by (simp add: splitLines_def split_go_append [of "[]" a b])
qed (simp add: splitLines_def)

lemma decode_lines_append: "decode_lines E (xs @ ys) = decode_lines E xs @ decode_lines E ys"
  by (induction xs) (auto split: option.split)

lemma queued_enqueue:
  assumes "pj_ok E" and "queue_wf path d" and "can_write E path" and "pj_enc E msg = Some b"
  shows "fst (Enqueue E now path msg d)"
    and "queued E path (snd (Enqueue E now path msg d)) = queued E path d @ [msg]"
    and "queue_wf path (snd (Enqueue E now path msg d))"
proof -
  have b: "pj_dec E b = Some msg" "b \<noteq> []" "newline \<notin> set b"
    using assms(1,4) by (auto simp: pj_ok_def)
  have line: "splitLines (b @ [newline]) = [b]"
    using split_go_line [OF b(3), of "[]" "[]"] by (simp add: splitLines_def)
  have read: "read_disk path (snd (Enqueue E now path msg d)) =
      Some ((case read_disk path d of None \<Rightarrow> [] | Some x \<Rightarrow> x) @ b @ [newline])"
    using assms(3) by (simp add: Enqueue_def assms(4) read_disk_append)
  show "queue_wf path (snd (Enqueue E now path msg d))"
    by (simp add: queue_wf_def read)
  show "fst (Enqueue E now path msg d)"
    using assms(3) by (simp add: Enqueue_def assms(4) append_disk_def write_disk_def)
  have wf: "(case read_disk path d of None \<Rightarrow> [] | Some x \<Rightarrow> x) = [] \<or>
      last (case read_disk path d of None \<Rightarrow> [] | Some x \<Rightarrow> x) = newline"
    using assms(2) by (auto simp: queue_wf_def split: option.split)
  have "splitLines [] = []" by (simp add: splitLines_def)
  then show "queued E path (snd (Enqueue E now path msg d)) = queued E path d @ [msg]"
    using splitLines_append [OF wf, of "b @ [newline]"] b
    by (simp add: queued_def read line decode_lines_append split: option.split)
qed

lemma drain_effect:
  assumes "\<not> is_dir E path"
  shows "fst (Drain E path d) = Some (queued E path d)"
    and "queued E path (snd (Drain E path d)) = []" and "queue_wf path (snd (Drain E path d))"
  using assms
  by (auto simp: Drain_def queued_def queue_wf_def read_disk_def remove_disk_def split: option.split)

text \<open>What a user of a store sees: the messages each draining returns.\<close>

datatype 'm store_op = Put 'm | TakeAll

fun store_run :: "('m \<Rightarrow> 's \<Rightarrow> 's) \<Rightarrow> ('s \<Rightarrow> 'm list \<times> 's) \<Rightarrow> 'm store_op list \<Rightarrow> 's \<Rightarrow> 'm list list" where
  "store_run enq drain [] s = []"
| "store_run enq drain (Put m # ops) s = store_run enq drain ops (enq m s)"
| "store_run enq drain (TakeAll # ops) s =
     (let (ms, s') = drain s in ms # store_run enq drain ops s')"

text \<open>The specification: a list that grows at its end and is emptied.\<close>

definition list_put :: "'m \<Rightarrow> 'm list \<Rightarrow> 'm list" where
  "list_put m ws = ws @ [m]"

definition list_take :: "'m list \<Rightarrow> 'm list \<times> 'm list" where
  "list_take ws = (ws, [])"

text \<open>
  A store of messages that survives the process: what the client needs of it. The abstraction
  is the list of messages waiting, under an invariant that both operations keep.
\<close>

locale message_store =
  fixes enq :: "'m \<Rightarrow> 's \<Rightarrow> 's"
    and drain :: "'s \<Rightarrow> 'm list \<times> 's"
    and wait :: "'s \<Rightarrow> 'm list"
    and inv :: "'s \<Rightarrow> bool"
    and storable :: "'m \<Rightarrow> bool"
  assumes enq_wait: "inv s \<Longrightarrow> storable m \<Longrightarrow> wait (enq m s) = wait s @ [m]"
    and enq_inv: "inv s \<Longrightarrow> storable m \<Longrightarrow> inv (enq m s)"
    and drain_wait: "inv s \<Longrightarrow> fst (drain s) = wait s \<and> wait (snd (drain s)) = []"
    and drain_inv: "inv s \<Longrightarrow> inv (snd (drain s))"
begin

lemma enq_all:
  "inv s \<Longrightarrow> \<forall>m \<in> set ms. storable m \<Longrightarrow> wait (fold enq ms s) = wait s @ ms \<and> inv (fold enq ms s)"
  by (induction ms arbitrary: s) (auto simp: enq_wait enq_inv)

lemma run_refines:
  "inv s \<Longrightarrow> \<forall>m. Put m \<in> set ops \<longrightarrow> storable m \<Longrightarrow>
   store_run enq drain ops s = store_run list_put list_take ops (wait s)"
proof (induction ops arbitrary: s)
  case (Cons op ops)
  then show ?case
  proof (cases op)
    case (Put m)
    then have "storable m" using Cons.prems(2) by simp
    then show ?thesis
      using Cons.IH [OF enq_inv [OF Cons.prems(1)], of m] Cons.prems
      by (simp add: Put enq_wait list_put_def)
  next
    case TakeAll
    then show ?thesis
      using Cons.IH [OF drain_inv [OF Cons.prems(1)]] drain_wait [OF Cons.prems(1)] Cons.prems(2)
      by (simp add: case_prod_beta list_take_def)
  qed
qed simp

lemma drain_all:
  assumes "inv s" and "\<forall>m \<in> set ms. storable m"
  shows "fst (drain (fold enq ms s)) = wait s @ ms" and "fst (drain (snd (drain (fold enq ms s)))) = []"
  using enq_all [OF assms] drain_wait drain_inv by auto

end

definition file_drain :: "'a client_env_scheme \<Rightarrow> string \<Rightarrow> disk \<Rightarrow> ChatMessage list \<times> disk" where
  "file_drain E path d =
     (case Drain E path d of (None, d') \<Rightarrow> ([], d') | (Some ms, d') \<Rightarrow> (ms, d'))"

interpretation disk_queue: message_store
  "\<lambda>m d. snd (Enqueue E now path m d)" "file_drain E path" "queued E path"
  "\<lambda>d. queue_wf path d \<and> pj_ok E \<and> can_write E path \<and> \<not> is_dir E path"
  "\<lambda>m. pj_enc E m \<noteq> None"
  for E :: "'a client_env_scheme" and now path
proof
  show "fst (file_drain E path d) = queued E path d \<and> queued E path (snd (file_drain E path d)) = []"
    if "queue_wf path d \<and> pj_ok E \<and> can_write E path \<and> \<not> is_dir E path" for d
    using drain_effect [of E path d] that by (auto simp: file_drain_def split: prod.split option.split)
  show "queue_wf path (snd (file_drain E path d)) \<and> pj_ok E \<and> can_write E path \<and> \<not> is_dir E path"
    if "queue_wf path d \<and> pj_ok E \<and> can_write E path \<and> \<not> is_dir E path" for d
    using drain_effect [of E path d] that by (auto simp: file_drain_def split: prod.split option.split)
qed (auto simp: queued_enqueue)

end
