(* ===== verification/P2P.thy ===== *)
theory P2P
  imports ClientEnv ChunkStream
begin

text \<open>
  \<^verbatim>\<open>internal/client/p2p.go\<close>: the file server of a client. Shared files are listed
  under an identifier and offered, encrypted as a stream, to whoever knows the token; the
  oldest share is withdrawn when there are more than twenty.
\<close>

record P2PService =
  p_OnionAddr :: string
  p_Port :: int
  p_Token :: string
  files :: strmap
  order :: "string list"

definition new_service :: "int \<Rightarrow> P2PService" where
  "new_service port = \<lparr>p_OnionAddr = [], p_Port = port, p_Token = [], files = [], order = []\<rparr>"

text \<open>
  \<^verbatim>\<open>StartP2PService\<close>: port 8888, or any other that is free (\<open>other\<close>); none at
  all is the error. The onion address arrives later, from Tor or from its hostname file.
\<close>

definition StartP2PService :: "(int \<Rightarrow> bool) \<Rightarrow> int option \<Rightarrow> P2PService option" where
  "StartP2PService listen_ok other =
     (if listen_ok 8888 then Some (new_service 8888)
      else case other of None \<Rightarrow> None | Some p \<Rightarrow> Some (new_service p))"

definition hostname_found :: "bytes \<Rightarrow> P2PService \<Rightarrow> P2PService" where
  "hostname_found b s = s\<lparr>p_OnionAddr := TrimSpace b\<rparr>"

definition bearer :: "string \<Rightarrow> string" where
  "bearer auth = TrimPrefix auth ''Bearer ''"

text \<open>The reply and the new random position.\<close>

definition handleDownload ::
  "'a client_env_scheme \<Rightarrow> string \<Rightarrow> string \<Rightarrow> nat \<Rightarrow> disk \<Rightarrow> P2PService \<Rightarrow> http_resp \<times> nat" where
  "handleDownload E fileID auth pos d s =
     (let clientHash = bearer auth; myToken = p_Token s;
          err = (\<lambda>n txt. (\<lparr>status = n, aead = False, body = txt, body_fails = False\<rparr>, pos))
      in case map_of (files s) fileID of
           None \<Rightarrow> err 404 ''File not found''
         | Some localPath \<Rightarrow>
             if clientHash = [] \<or> clientHash \<noteq> myToken then err 401 ''Unauthorized: Key mismatch''
             else
               (case read_disk localPath d of None \<Rightarrow> err 500 []
                | Some f \<Rightarrow>
                    (let key = FileContentKey E myToken fileID;
                         (e, out, pos') = EncryptReaderTo E pos (f, \<not> read_ok E localPath) key fileID
                     in (\<lparr>status = 200, aead = True, body = out, body_fails = False\<rparr>, pos'))))"

definition AddFile :: "string \<Rightarrow> string \<Rightarrow> disk \<times> P2PService \<Rightarrow> disk \<times> P2PService" where
  "AddFile fileID path x =
     (let (d, s) = x;
          s1 = s\<lparr>files := AList.update fileID path (files s), order := order s @ [fileID]\<rparr>
      in case order s1 of
           oldID # rest \<Rightarrow>
             if length (order s1) > 20 then
               (let s2 = s1\<lparr>order := rest\<rparr>
                in case map_of (files s1) oldID of
                     None \<Rightarrow> (d, s2)
                   | Some oldPath \<Rightarrow>
                       (if Base (Dir oldPath) = ''temp_shares'' then remove_disk oldPath d else d,
                        s2\<lparr>files := AList.delete oldID (files s1)\<rparr>))
             else (d, s1)
         | [] \<Rightarrow> (d, s1))"

definition GetOnionAddr :: "P2PService \<Rightarrow> string" where
  "GetOnionAddr s = p_OnionAddr s"

definition SetToken :: "string \<Rightarrow> P2PService \<Rightarrow> P2PService" where
  "SetToken token s = s\<lparr>p_Token := token\<rparr>"

definition UpdateToken :: "bytes \<Rightarrow> P2PService \<Rightarrow> P2PService" where
  "UpdateToken roomKey s = (if length roomKey = 0 then s else SetToken (HexEncode roomKey) s)"

section \<open>The shares\<close>

text \<open>At most twenty identifiers are listed and every shared file is among them.\<close>

definition shares_ok :: "P2PService \<Rightarrow> bool" where
  "shares_ok s \<longleftrightarrow> length (order s) \<le> 20 \<and> fst ` set (files s) \<subseteq> set (order s) \<and> distinct (map fst (files s))"

lemma shares_ok_new: "shares_ok (new_service port)"
  by (simp add: shares_ok_def new_service_def)

lemma shares_ok_AddFile:
  assumes "shares_ok s"
  shows "shares_ok (snd (AddFile fileID path (d, s)))"
proof -
  have sub: "fst ` set (AList.update fileID path (files s)) \<subseteq> set (order s @ [fileID])"
    using assms unfolding shares_ok_def dom_map_of_conv_image_fst [symmetric] update_conv' by auto
  have dist: "distinct (map fst (AList.update fileID path (files s)))"
    using assms by (simp add: shares_ok_def distinct_update)
  obtain old rest where o: "order s @ [fileID] = old # rest" by (cases "order s @ [fileID]") auto
  have len: "length (old # rest) \<le> 21" using assms by (simp add: shares_ok_def flip: o)
  have del: "fst ` set (AList.delete old (AList.update fileID path (files s))) \<subseteq> set rest"
    using sub o by (auto simp flip: dom_map_of_conv_image_fst simp: AList.delete_conv')
  have gone: "map_of (AList.update fileID path (files s)) old = None \<Longrightarrow>
      fst ` set (AList.update fileID path (files s)) \<subseteq> set rest"
    using sub o by (auto simp: map_of_eq_None_iff)
  show ?thesis
    using sub dist del gone len
    by (auto simp: AddFile_def shares_ok_def Let_def o AList.distinct_delete split: option.split)
qed

lemma AddFile_served:
  assumes "length (order s) < 20 \<or> hd (order s) \<noteq> fileID"
  shows "map_of (files (snd (AddFile fileID path (d, s)))) fileID = Some path"
proof -
  obtain old rest where o: "order s @ [fileID] = old # rest" by (cases "order s @ [fileID]") auto
  then have old: "order s \<noteq> [] \<Longrightarrow> old = hd (order s)" by (cases "order s") auto
  have len: "length (order s) = length rest" using arg_cong [OF o, of length] by simp
  show ?thesis
    using assms old len
    by (cases "order s = []")
      (auto simp: AddFile_def Let_def o update_conv' AList.delete_conv split: option.split)
qed

end
