(* ===== verification/ClientState.thy ===== *)
theory ClientState
  imports SenderKeys IdentityStore DiskQueue P2P Glyphs
begin

text \<open>
  The state of the client (\<^verbatim>\<open>internal/client/core.go\<close>) and the operations its
  goroutines share: the two channels, the ledger of synchronised files, the messages that
  wait for a sender key, the room directories.

  \<open>sendq\<close> and \<open>updates\<close> are the channels \<^verbatim>\<open>SendChan\<close> (256) and
  \<^verbatim>\<open>UpdateChan\<close> (200), \<open>fileGets\<close> the channels of running downloads (64).
  \<open>wire_out\<close> is what was written on the connection, \<open>Done\<close> says that the context
  was cancelled, \<open>jobs\<close> lists the goroutines started and not yet run.
\<close>

datatype job =
  AutoDownload string string string
| OfferFile string

record Cli =
  SessionKey :: bytes
  c_Nickname :: string
  sendq :: "ChatMessage list"
  updates :: "ChatMessage list"
  p2p :: "P2PService option"
  SigningPriv :: bytes
  SigningPub :: bytes
  UserKeys :: "string \<Rightarrow> bytes option"
  IdStore :: identity_store
  c_RoomKey :: bytes
  c_VaultToken :: string
  E2EPriv :: bytes
  E2EPub :: bytes
  PeerE2E :: "string \<Rightarrow> bytes option"
  Senders :: "SenderState option"
  CurrentRoom :: string
  outboxDir :: string
  inboxDir :: string
  ServerOnion :: string
  ServerHTTPPort :: int
  UseTor :: bool
  SocksAddr :: string
  syncLedger :: "string \<Rightarrow> int option"
  activeDownloads :: "string \<Rightarrow> bool"
  pendingDecrypt :: "ChatMessage list"
  queueFile :: string
  fileGets :: "string \<Rightarrow> ChatMessage list option"
  Done :: bool
  conn_up :: bool
  wire_out :: bytes
  jobs :: "job list"
  c_now :: int
  c_pos :: nat
  c_disk :: disk

section \<open>Channels\<close>

definition SendCap :: nat where
  [cfg]: "SendCap = 256"

definition UpdateCap :: nat where
  [cfg]: "UpdateCap = 200"

definition GetCap :: nat where
  [cfg]: "GetCap = 64"

definition make_msg :: "'a wire_scheme \<Rightarrow> string \<Rightarrow> string \<Rightarrow> Cli \<Rightarrow> ChatMessage \<times> Cli" where
  "make_msg E ty txt c =
     (let (m, p) = CreateMessage E (c_now c) (c_pos c) ty txt (c_Nickname c) in (m, c\<lparr>c_pos := p\<rparr>))"

definition sendUpdate :: "ChatMessage \<Rightarrow> Cli \<Rightarrow> Cli" where
  "sendUpdate msg c = c\<lparr>updates := fst (try_send UpdateCap msg (updates c))\<rparr>"

text \<open>\<^verbatim>\<open>&protocol.ChatMessage{Type: SYSTEM, Sender: ..., Content: ...}\<close>\<close>

definition notice :: "string \<Rightarrow> string \<Rightarrow> ChatMessage" where
  "notice sender txt = empty_message\<lparr>Type := MsgTypeSystem, Sender := sender, Content := txt\<rparr>"

text \<open>A send that waits for room; \<open>None\<close> is waiting.\<close>

definition send_block :: "ChatMessage \<Rightarrow> Cli \<Rightarrow> Cli option" where
  "send_block msg c = (if length (sendq c) < SendCap then Some (c\<lparr>sendq := sendq c @ [msg]\<rparr>) else None)"

definition try_post :: "ChatMessage \<Rightarrow> Cli \<Rightarrow> bool \<times> Cli" where
  "try_post msg c = (let (q, sent) = try_send SendCap msg (sendq c) in (sent, c\<lparr>sendq := q\<rparr>))"

definition to_disk :: "'a client_env_scheme \<Rightarrow> ChatMessage \<Rightarrow> Cli \<Rightarrow> Cli" where
  "to_disk E msg c = c\<lparr>c_disk := snd (Enqueue E (c_now c) (queueFile c) msg (c_disk c))\<rparr>"

definition EnqueueOrSend :: "'a client_env_scheme \<Rightarrow> ChatMessage \<Rightarrow> Cli \<Rightarrow> Cli" where
  "EnqueueOrSend E msg c = (case try_post msg c of (True, c1) \<Rightarrow> c1 | (False, c1) \<Rightarrow> to_disk E msg c1)"

fun flush_msgs :: "'a client_env_scheme \<Rightarrow> ChatMessage list \<Rightarrow> Cli \<Rightarrow> Cli" where
  "flush_msgs E [] c = c"
| "flush_msgs E (m # ms) c =
     (case try_post m c of (True, c1) \<Rightarrow> flush_msgs E ms c1 | (False, c1) \<Rightarrow> to_disk E m c1)"

definition flushQueue :: "'a client_env_scheme \<Rightarrow> Cli \<Rightarrow> Cli" where
  "flushQueue E c =
     (case Drain E (queueFile c) (c_disk c) of
        (None, d) \<Rightarrow> c\<lparr>c_disk := d\<rparr>
      | (Some ms, d) \<Rightarrow> flush_msgs E ms (c\<lparr>c_disk := d\<rparr>))"

section \<open>Sender keys\<close>

definition publishSenderKey :: "'a wire_scheme \<Rightarrow> Cli \<Rightarrow> Cli" where
  "publishSenderKey E c =
     (case Senders c of None \<Rightarrow> c
      | Some s \<Rightarrow>
          (case ExportMySeed s of None \<Rightarrow> c
           | Some seed \<Rightarrow>
               if length seed = 0 then c
               else (let (msg, c1) = make_msg E MsgTypeSenderKey (Base64Encode seed) c
                     in snd (try_post msg c1))))"

definition queuePending :: "ChatMessage \<Rightarrow> Cli \<Rightarrow> Cli" where
  "queuePending msg c =
     (let q = (if length (pendingDecrypt c) > 64 then tl (pendingDecrypt c) else pendingDecrypt c)
      in c\<lparr>pendingDecrypt := q @ [msg]\<rparr>)"

text \<open>
  A key of the sender's chain and the plaintext; \<open>NoKey\<close> and \<open>BadText\<close> are the two ways
  to fail once the content is base64.
\<close>

datatype group_result = NotBase64 | NoKey | BadText | Opened bytes

definition group_open :: "'a wire_scheme \<Rightarrow> ChatMessage \<Rightarrow> Cli \<Rightarrow> group_result \<times> Cli" where
  "group_open E m c =
     (case (Base64Decode (Content m), Senders c) of
        (Some encContent, Some s) \<Rightarrow>
          (case Recv (hmac_sha256 E) (Sender m) (RatchetStep m) s of
             (Inl e, s1) \<Rightarrow> (NoKey, c\<lparr>Senders := Some s1\<rparr>)
           | (Inr mk, s1) \<Rightarrow>
               (case Decrypt E mk encContent of
                  None \<Rightarrow> (BadText, c\<lparr>Senders := Some s1\<rparr>)
                | Some pt \<Rightarrow> (Opened pt, c\<lparr>Senders := Some s1\<rparr>)))
      | _ \<Rightarrow> (NotBase64, c))"

definition flush_one :: "'a wire_scheme \<Rightarrow> ChatMessage \<Rightarrow> Cli \<Rightarrow> Cli" where
  "flush_one E m c =
     (case group_open E m c of
        (Opened pt, c1) \<Rightarrow> sendUpdate (m\<lparr>Content := pt\<rparr>) c1
      | (_, c1) \<Rightarrow> c1)"

definition flushPending :: "'a wire_scheme \<Rightarrow> string \<Rightarrow> Cli \<Rightarrow> Cli" where
  "flushPending E nick c =
     fold (flush_one E) (filter (\<lambda>m. Sender m = nick) (pendingDecrypt c))
       (c\<lparr>pendingDecrypt := filter (\<lambda>m. Sender m \<noteq> nick) (pendingDecrypt c)\<rparr>)"

section \<open>The ledger\<close>

definition isSynced :: "string \<Rightarrow> int \<Rightarrow> Cli \<Rightarrow> bool" where
  "isSynced filename modTime c =
     (case syncLedger c filename of None \<Rightarrow> False | Some lastSync \<Rightarrow> \<not> modTime > lastSync)"

definition isSeen :: "string \<Rightarrow> Cli \<Rightarrow> bool" where
  "isSeen filename c \<longleftrightarrow> syncLedger c filename \<noteq> None"

definition markSynced :: "string \<Rightarrow> int \<Rightarrow> Cli \<Rightarrow> Cli" where
  "markSynced filename modTime c = c\<lparr>syncLedger := (syncLedger c)(filename \<mapsto> modTime)\<rparr>"

definition setDownloading :: "string \<Rightarrow> bool \<Rightarrow> Cli \<Rightarrow> Cli" where
  "setDownloading filename active c = c\<lparr>activeDownloads := (activeDownloads c)(filename := active)\<rparr>"

definition isDownloading :: "string \<Rightarrow> Cli \<Rightarrow> bool" where
  "isDownloading filename c = activeDownloads c filename"

section \<open>Directories\<close>

definition SetRoomDirs :: "'a host_scheme \<Rightarrow> string \<Rightarrow> Cli \<Rightarrow> Cli" where
  "SetRoomDirs E rm c =
     c\<lparr>CurrentRoom := rm, outboxDir := RoomOutbox E rm, inboxDir := RoomInbox E rm\<rparr>"

definition InboxDir :: "Cli \<Rightarrow> string" where
  "InboxDir c = (if inboxDir c = [] then ''downloads'' else inboxDir c)"

definition OutboxDir :: "Cli \<Rightarrow> string" where
  "OutboxDir c = (if outboxDir c = [] then ''uploads'' else outboxDir c)"

section \<open>Bounds and frames\<close>

definition cli_bounded :: "Cli \<Rightarrow> bool" where
  "cli_bounded c \<longleftrightarrow>
     length (sendq c) \<le> SendCap \<and> length (updates c) \<le> UpdateCap \<and> length (pendingDecrypt c) \<le> 65 \<and>
     (\<forall>f q. fileGets c f = Some q \<longrightarrow> length q \<le> GetCap)"

named_theorems cbound \<open>introduction rules for \<open>cli_bounded\<close>\<close>

lemma cbound_sendUpdate [cbound]: "cli_bounded c \<Longrightarrow> cli_bounded (sendUpdate m c)"
  using try_send_bound [of "updates c" UpdateCap m] by (simp add: cli_bounded_def sendUpdate_def)

lemma cbound_try_post [cbound]: "cli_bounded c \<Longrightarrow> cli_bounded (snd (try_post m c))"
  using try_send_bound [of "sendq c" SendCap m]
  by (simp add: cli_bounded_def try_post_def case_prod_beta)

lemma cbound_try_postD: "try_post m c = (b, c') \<Longrightarrow> cli_bounded c \<Longrightarrow> cli_bounded c'"
  using cbound_try_post by (metis snd_conv)

lemma cbound_send_block: "cli_bounded c \<Longrightarrow> send_block m c = Some c' \<Longrightarrow> cli_bounded c'"
  by (auto simp: cli_bounded_def send_block_def split: if_splits)

lemma cbound_fields [cbound]:
  "cli_bounded c \<Longrightarrow> cli_bounded (c\<lparr>c_disk := d\<rparr>)" "cli_bounded c \<Longrightarrow> cli_bounded (c\<lparr>c_pos := p\<rparr>)"
  "cli_bounded c \<Longrightarrow> cli_bounded (c\<lparr>Senders := s\<rparr>)" "cli_bounded c \<Longrightarrow> cli_bounded (c\<lparr>IdStore := i\<rparr>)"
  "cli_bounded c \<Longrightarrow> cli_bounded (c\<lparr>c_VaultToken := t\<rparr>)" "cli_bounded c \<Longrightarrow> cli_bounded (c\<lparr>p2p := q\<rparr>)"
  "cli_bounded c \<Longrightarrow> cli_bounded (c\<lparr>PeerE2E := e\<rparr>)" "cli_bounded c \<Longrightarrow> cli_bounded (c\<lparr>UserKeys := u\<rparr>)"
  "cli_bounded c \<Longrightarrow> cli_bounded (c\<lparr>jobs := j\<rparr>)" "cli_bounded c \<Longrightarrow> cli_bounded (c\<lparr>Done := b\<rparr>)"
  "cli_bounded c \<Longrightarrow> cli_bounded (c\<lparr>wire_out := w\<rparr>)"
  "cli_bounded c \<Longrightarrow> cli_bounded (setDownloading f a c)" "cli_bounded c \<Longrightarrow> cli_bounded (markSynced f mt c)"
  "cli_bounded c \<Longrightarrow> cli_bounded (to_disk E m c)"
  by (simp_all add: cli_bounded_def setDownloading_def markSynced_def to_disk_def)

lemma cbound_make_msg [cbound]: "cli_bounded c \<Longrightarrow> cli_bounded (snd (make_msg E ty t c))"
  by (simp add: make_msg_def case_prod_beta cbound)

lemma cbound_EnqueueOrSend [cbound]: "cli_bounded c \<Longrightarrow> cli_bounded (EnqueueOrSend E m c)"
  by (auto simp: EnqueueOrSend_def cbound split: prod.split bool.split dest: cbound_try_postD)

lemma cbound_publish [cbound]: "cli_bounded c \<Longrightarrow> cli_bounded (publishSenderKey E c)"
  by (simp add: publishSenderKey_def case_prod_beta cbound split: option.split)

lemma cbound_queuePending [cbound]: "cli_bounded c \<Longrightarrow> cli_bounded (queuePending m c)"
  by (auto simp: cli_bounded_def queuePending_def Let_def)

lemma cbound_group_open [cbound]: "cli_bounded c \<Longrightarrow> cli_bounded (snd (group_open E m c))"
  by (auto simp: group_open_def cbound split: option.split prod.split sum.split)

lemma cbound_group_openD: "group_open E m c = (g, c') \<Longrightarrow> cli_bounded c \<Longrightarrow> cli_bounded c'"
  using cbound_group_open by (metis snd_conv)

lemma cbound_flush_one [cbound]: "cli_bounded c \<Longrightarrow> cli_bounded (flush_one E m c)"
  by (auto simp: flush_one_def cbound split: prod.split group_result.split dest: cbound_group_openD)

lemma cbound_fold [cbound]:
  "(\<And>x c. cli_bounded c \<Longrightarrow> cli_bounded (g x c)) \<Longrightarrow> cli_bounded c \<Longrightarrow> cli_bounded (fold g xs c)"
  by (induction xs arbitrary: c) simp_all

lemma cbound_flushPending [cbound]: "cli_bounded c \<Longrightarrow> cli_bounded (flushPending E nick c)"
proof -
  assume b: "cli_bounded c"
  let ?left = "filter (\<lambda>m. Sender m \<noteq> nick) (pendingDecrypt c)"
  have "length ?left \<le> length (pendingDecrypt c)" by (rule length_filter_le)
  also have "\<dots> \<le> 65" using b by (simp add: cli_bounded_def)
  finally have "cli_bounded (c\<lparr>pendingDecrypt := ?left\<rparr>)" using b by (simp add: cli_bounded_def)
  then show ?thesis unfolding flushPending_def by (intro cbound_fold cbound_flush_one)
qed

lemma cbound_flush_msgs [cbound]: "cli_bounded c \<Longrightarrow> cli_bounded (flush_msgs E ms c)"
proof (induction ms arbitrary: c)
  case (Cons m ms)
  then show ?case by (auto simp: cbound split: prod.split bool.split dest: cbound_try_postD)
qed simp

lemma cbound_flushQueue [cbound]: "cli_bounded c \<Longrightarrow> cli_bounded (flushQueue E c)"
  by (auto simp: flushQueue_def cbound split: prod.split option.split)

end
