(* ===== verification/ClientPump.thy ===== *)
theory ClientPump
  imports ClientState
begin

text \<open>
  The client's two loops (\<^verbatim>\<open>core.go\<close>): \<^verbatim>\<open>readPump\<close>, which opens what
  the hub sends and acts on it by type, and \<^verbatim>\<open>writePump\<close>, which encrypts and
  writes what the client sends.
\<close>

section \<open>Reading\<close>

datatype opened = Hangup string | Ignore | Incoming ChatMessage

definition open_frame :: "'a wire_scheme \<Rightarrow> bytes \<Rightarrow> bytes \<Rightarrow> opened" where
  "open_frame E key raw =
     (if HasPrefix raw ''ERROR:'' then Hangup (TrimPrefix raw ''ERROR:'')
      else
        (case Base64Decode raw of None \<Rightarrow> Ignore
         | Some enc \<Rightarrow>
             (case Decrypt E key enc of None \<Rightarrow> Ignore
              | Some bs \<Rightarrow> (case Decode E bs of None \<Rightarrow> Ignore | Some m \<Rightarrow> Incoming m))))"

definition check_version :: "ChatMessage \<Rightarrow> Cli \<Rightarrow> Cli" where
  "check_version msg c =
     (if Type msg = MsgTypeJoin \<and> FileId msg \<noteq> [] \<and> FileId msg \<noteq> Version then
        sendUpdate (notice ''SECURITY''
          (u_warn @ '' WARNING: Peer '' @ Sender msg @ '' is using a different version ('' @ FileId msg @
           ''). Sync might be unstable.'')) c
      else c)"

definition on_file_data :: "ChatMessage \<Rightarrow> Cli \<Rightarrow> Cli" where
  "on_file_data msg c =
     (case fileGets c (FileId msg) of None \<Rightarrow> c
      | Some q \<Rightarrow> c\<lparr>fileGets := (fileGets c)(FileId msg \<mapsto> fst (try_send GetCap msg q))\<rparr>)"

definition on_epoch :: "'a wire_scheme \<Rightarrow> ChatMessage \<Rightarrow> Cli \<Rightarrow> Cli" where
  "on_epoch E msg c =
     (let tok = TrimSpace (Content msg);
          c1 = (if tok \<noteq> [] then c\<lparr>c_VaultToken := tok, p2p := map_option (SetToken tok) (p2p c)\<rparr> else c);
          (seed, p) = GenerateRandomKey E (c_pos c1);
          c2 = c1\<lparr>c_pos := p\<rparr>
      in case Senders c2 of None \<Rightarrow> c2
         | Some s \<Rightarrow> publishSenderKey E (c2\<lparr>Senders := Some (ResetEpoch (epoch s + 1) seed s)\<rparr>))"

definition on_sender_key :: "'a wire_scheme \<Rightarrow> ChatMessage \<Rightarrow> Cli \<Rightarrow> Cli" where
  "on_sender_key E msg c =
     (case (Base64Decode (Content msg), Senders c) of
        (Some seed, Some s) \<Rightarrow>
          flushPending E (Sender msg) (c\<lparr>Senders := Some (AdoptPeer (Sender msg) seed s)\<rparr>)
      | _ \<Rightarrow> c)"

text \<open>Chat and file offers under the sender's chain.\<close>

definition open_group :: "'a wire_scheme \<Rightarrow> ChatMessage \<Rightarrow> Cli \<Rightarrow> ChatMessage \<times> Cli" where
  "open_group E msg c =
     (if (Type msg = MsgTypeChat \<or> Type msg = MsgTypeFileOffer) \<and> IsE2Ee msg \<and> Sender msg \<noteq> c_Nickname c then
        (case group_open E msg c of
           (Opened pt, c1) \<Rightarrow> (msg\<lparr>Content := pt\<rparr>, c1)
         | (BadText, c1) \<Rightarrow> (msg\<lparr>Content := ''[decrypt failed]''\<rparr>, c1)
         | (NoKey, c1) \<Rightarrow>
             (msg\<lparr>Content := ''[waiting for sender key]''\<rparr>, publishSenderKey E (queuePending msg c1))
         | (NotBase64, c1) \<Rightarrow> (msg, c1))
      else (msg, c))"

text \<open>The key of a private message is the one it carries, or the one announced in the user
  list when it carries none; a decoding error leaves the bytes decoded so far.\<close>

definition open_private :: "'a wire_scheme \<Rightarrow> ChatMessage \<Rightarrow> Cli \<Rightarrow> ChatMessage" where
  "open_private E msg c =
     (if Type msg = MsgTypePrivate \<and> IsE2Ee msg \<and> Sender msg \<noteq> c_Nickname c then
        (case Base64Decode (Content msg) of None \<Rightarrow> msg
         | Some encContent \<Rightarrow>
             if length (E2EPriv c) = 0 then msg
             else
               (let carried = fst (Base64DecodeErr (PubKey msg));
                    peerPub = (if length carried = 0
                               then (case PeerE2E c (Sender msg) of None \<Rightarrow> [] | Some k \<Rightarrow> k) else carried)
                in if length peerPub = 32 then
                     (case DeriveSharedKey E (E2EPriv c) peerPub of None \<Rightarrow> msg
                      | Some sk \<Rightarrow>
                          (case Decrypt E sk encContent of None \<Rightarrow> msg
                           | Some pt \<Rightarrow> msg\<lparr>Content := pt\<rparr>))
                   else msg))
      else msg)"

text \<open>An offer starts a download; the goroutine is entered as a job.\<close>

definition on_file_offer :: "ChatMessage \<Rightarrow> Cli \<Rightarrow> Cli" where
  "on_file_offer msg c =
     (case Split (Content msg) (CHR ''|'') of
        filename # senderOnion # fileID # rest \<Rightarrow>
          if isSeen filename c \<or> isDownloading filename c \<or> Sender msg = c_Nickname c then c
          else
            (let c1 = sendUpdate (notice ''SYNC''
                   (u_inbox @ '' Auto-sync triggered for: '' @ filename @ '' (Source: '' @ Sender msg @ '')'')) c;
                 checksum = (case rest of [] \<Rightarrow> [] | s # _ \<Rightarrow> s);
                 c2 = setDownloading filename True c1
             in c2\<lparr>jobs := jobs c2 @ [AutoDownload filename senderOnion checksum]\<rparr>)
      | _ \<Rightarrow> c)"

definition on_listed_user :: "'a client_env_scheme \<Rightarrow> string \<Rightarrow> Cli \<Rightarrow> Cli" where
  "on_listed_user E p c =
     (case Split p (CHR ''|'') of
        nick # signingB64 # rest \<Rightarrow>
          (let signingPub = fst (Base64DecodeErr signingB64);
               c1 = (case rest of [] \<Rightarrow> c
                     | e2eB64 # _ \<Rightarrow>
                         (let e2e = fst (Base64DecodeErr e2eB64)
                          in if length e2e = 32 then c\<lparr>PeerE2E := (PeerE2E c)(nick \<mapsto> e2e)\<rparr> else c))
           in if length signingPub = 32 then
                (let ((isOK, isNew), (st, d)) = Check E (c_now c1) nick signingB64 (IdStore c1, c_disk c1);
                     c2 = c1\<lparr>IdStore := st, c_disk := d\<rparr>
                 in if \<not> isOK then
                      sendUpdate (notice ''SECURITY''
                        (u_siren @ '' WARNING: '' @ nick @ '' has changed their identity key!'')) c2
                    else
                      (let c3 = (if isNew \<and> nick \<noteq> c_Nickname c then
                             sendUpdate (notice ''SECURITY''
                               (u_shield @ '' New identity discovered: '' @ nick)) c2 else c2)
                       in c3\<lparr>UserKeys := (UserKeys c3)(nick \<mapsto> signingPub)\<rparr>))
              else c1)
      | _ \<Rightarrow> c)"

definition on_user_list :: "'a client_env_scheme \<Rightarrow> ChatMessage \<Rightarrow> Cli \<Rightarrow> Cli" where
  "on_user_list E msg c =
     fold (on_listed_user E) (Split (Content msg) (CHR '','')) (publishSenderKey E c)"

text \<open>\<open>None\<close>: the loop waits for room in \<^verbatim>\<open>SendChan\<close> to answer a ping.\<close>

definition on_message :: "'a client_env_scheme \<Rightarrow> ChatMessage \<Rightarrow> Cli \<Rightarrow> Cli option" where
  "on_message E msg c0 =
     (if Type msg = MsgTypeRoomKey then Some c0
      else
        (let c = check_version msg c0
         in if Type msg = MsgTypeFileData then Some (on_file_data msg c)
            else if Type msg = MsgTypeEpoch then Some (on_epoch E msg c)
            else if Type msg = MsgTypeSenderKey \<and> Sender msg \<noteq> c_Nickname c then
              Some (on_sender_key E msg c)
            else
              (let (msg1, c1) = open_group E msg c; msg2 = open_private E msg1 c1
               in if Type msg = MsgTypeFileOffer then Some (on_file_offer msg2 c1)
                  else
                    (let c2 = (if Type msg = MsgTypeUserList then on_user_list E msg2 c1 else c1)
                     in if Type msg = MsgTypePing then
                          (let (pong, c3) = make_msg E MsgTypePong [] c2 in send_block pong c3)
                        else Some (sendUpdate msg2 c2)))))"

text \<open>One payload; the flag says that the loop goes on.\<close>

definition read_payload :: "'a client_env_scheme \<Rightarrow> bytes \<Rightarrow> Cli \<Rightarrow> (bool \<times> Cli) option" where
  "read_payload E raw c =
     (case open_frame E (SessionKey c) raw of
        Hangup reason \<Rightarrow> Some (False, sendUpdate (notice ''SERVER'' (u_warn @ ''  '' @ reason)) c)
      | Ignore \<Rightarrow> Some (True, c)
      | Incoming msg \<Rightarrow> map_option (Pair True) (on_message E msg c))"

definition read_done :: "Cli \<Rightarrow> Cli" where
  "read_done c =
     (sendUpdate (notice ''SERVER'' (u_cross @ '' Connection closed by server.'')) c)\<lparr>Done := True\<rparr>"

section \<open>Writing\<close>

text \<open>What is encrypted end to end before the session encryption; \<open>None\<close> is a message held
  back because a pinned key changed.\<close>

definition seal_group :: "'a wire_scheme \<Rightarrow> ChatMessage \<Rightarrow> Cli \<Rightarrow> ChatMessage \<times> Cli" where
  "seal_group E m c =
     (case Senders c of None \<Rightarrow> (m, c)
      | Some s \<Rightarrow>
          (case NextSend (hmac_sha256 E) s of
             (None, s1) \<Rightarrow> (m, c\<lparr>Senders := Some s1\<rparr>)
           | (Some (mk, step), s1) \<Rightarrow>
               (case Encrypt E (c_pos c) mk (Content m) of
                  (None, p) \<Rightarrow> (m, c\<lparr>Senders := Some s1, c_pos := p\<rparr>)
                | (Some ct, p) \<Rightarrow>
                    (m\<lparr>Content := Base64Encode ct, RatchetStep := step, IsE2Ee := True\<rparr>,
                     c\<lparr>Senders := Some s1, c_pos := p\<rparr>))))"

definition seal_private :: "'a wire_scheme \<Rightarrow> ChatMessage \<Rightarrow> Cli \<Rightarrow> ChatMessage \<times> Cli" where
  "seal_private E m c =
     (let peerPub = (case PeerE2E c (ReplyTo m) of None \<Rightarrow> [] | Some k \<Rightarrow> k)
      in if length peerPub = 32 \<and> length (E2EPriv c) > 0 then
           (case DeriveSharedKey E (E2EPriv c) peerPub of None \<Rightarrow> (m, c)
            | Some sk \<Rightarrow>
                (case Encrypt E (c_pos c) sk (Content m) of
                   (None, p) \<Rightarrow> (m, c\<lparr>c_pos := p\<rparr>)
                 | (Some ct, p) \<Rightarrow>
                     (m\<lparr>Content := Base64Encode ct, IsE2Ee := True, PubKey := Base64Encode (E2EPub c)\<rparr>,
                      c\<lparr>c_pos := p\<rparr>)))
         else (m, c))"

definition prepare :: "'a client_env_scheme \<Rightarrow> ChatMessage \<Rightarrow> Cli \<Rightarrow> ChatMessage option \<times> Cli" where
  "prepare E m0 c =
     (let m = (if OnionAddr m0 = [] then m0\<lparr>OnionAddr := CurrentRoom c\<rparr> else m0)
      in if (Type m = MsgTypeChat \<or> Type m = MsgTypePrivate) \<and> HasMismatch (IdStore c) then
           (None, sendUpdate (notice ''SECURITY''
              (''send blocked: a peer's identity key changed. /trust <nick> after out-of-band check, '' @
               ''or ignore that peer.'')) c)
         else if Type m = MsgTypeChat \<or> Type m = MsgTypeFileOffer then
           (let (m1, c1) = seal_group E m c in (Some m1, c1))
         else if Type m = MsgTypePrivate then
           (let (m1, c1) = seal_private E m c in (Some m1, c1))
         else (Some m, c))"

text \<open>The frame goes out when the connection still takes it; no error stops the loop. A message
  that does not marshal is encrypted as no bytes.\<close>

definition write_frame :: "'a wire_scheme \<Rightarrow> ChatMessage \<Rightarrow> Cli \<Rightarrow> Cli" where
  "write_frame E m c =
     (case Encrypt E (c_pos c) (SessionKey c) (case Encode E m of None \<Rightarrow> [] | Some b \<Rightarrow> b) of
        (None, p) \<Rightarrow> c\<lparr>c_pos := p\<rparr>
      | (Some enc, p) \<Rightarrow>
          (case SendFrame (Base64Encode enc) of
             Inl e \<Rightarrow> c\<lparr>c_pos := p\<rparr>
           | Inr w \<Rightarrow> if conn_up c then c\<lparr>c_pos := p, wire_out := wire_out c @ w\<rparr> else c\<lparr>c_pos := p\<rparr>))"

definition write_next :: "'a client_env_scheme \<Rightarrow> Cli \<Rightarrow> Cli" where
  "write_next E c =
     (case sendq c of [] \<Rightarrow> c
      | m # ms \<Rightarrow>
          (case prepare E m (c\<lparr>sendq := ms\<rparr>) of
             (None, c1) \<Rightarrow> c1
           | (Some m1, c1) \<Rightarrow> write_frame E m1 c1))"

definition heartbeat_msg :: "Cli \<Rightarrow> ChatMessage" where
  "heartbeat_msg c = empty_message\<lparr>Type := MsgTypePing, Sender := c_Nickname c\<rparr>"

text \<open>One tick of the heartbeat; \<open>None\<close> waits for room.\<close>

definition heartbeat_tick :: "Cli \<Rightarrow> Cli option" where
  "heartbeat_tick c = (if Done c then Some c else send_block (heartbeat_msg c) c)"

section \<open>Bounds\<close>

lemma cbound_check_version [cbound]: "cli_bounded c \<Longrightarrow> cli_bounded (check_version m c)"
  by (simp add: check_version_def cbound)

lemma cbound_file_data [cbound]: "cli_bounded c \<Longrightarrow> cli_bounded (on_file_data m c)"
  by (auto simp: on_file_data_def cli_bounded_def try_send_bound split: option.split)

lemma cbound_on_epoch [cbound]: "cli_bounded c \<Longrightarrow> cli_bounded (on_epoch E m c)"
  by (auto simp: on_epoch_def Let_def case_prod_beta cbound split: option.split)

lemma cbound_on_sender_key [cbound]: "cli_bounded c \<Longrightarrow> cli_bounded (on_sender_key E m c)"
  by (auto simp: on_sender_key_def cbound split: option.split)

lemma cbound_open_group [cbound]: "cli_bounded c \<Longrightarrow> cli_bounded (snd (open_group E m c))"
  by (auto simp: open_group_def cbound split: prod.split group_result.split dest: cbound_group_openD)

lemma cbound_file_offer [cbound]: "cli_bounded c \<Longrightarrow> cli_bounded (on_file_offer m c)"
  by (auto simp: on_file_offer_def Let_def cbound split: list.split)

lemma cbound_listed_user [cbound]: "cli_bounded c \<Longrightarrow> cli_bounded (on_listed_user E p c)"
  by (auto simp: on_listed_user_def Let_def case_prod_beta cbound split: list.split)

lemma cbound_user_list [cbound]: "cli_bounded c \<Longrightarrow> cli_bounded (on_user_list E m c)"
  by (simp add: on_user_list_def cbound)

lemma cbound_on_message: "cli_bounded c \<Longrightarrow> on_message E m c = Some c' \<Longrightarrow> cli_bounded c'"
  by (auto simp: on_message_def Let_def case_prod_beta cbound split: if_splits intro: cbound_send_block [rotated])

lemma cbound_read: "cli_bounded c \<Longrightarrow> read_payload E raw c = Some (b, c') \<Longrightarrow> cli_bounded c'"
  by (auto simp: read_payload_def cbound split: opened.splits dest: cbound_on_message)

lemma cbound_read_done [cbound]: "cli_bounded c \<Longrightarrow> cli_bounded (read_done c)"
  by (simp add: read_done_def cbound)

lemma cbound_keys_pos [cbound]: "cli_bounded c \<Longrightarrow> cli_bounded (c\<lparr>Senders := s, c_pos := p\<rparr>)"
  by (simp add: cli_bounded_def)

lemma cbound_seal_group [cbound]: "cli_bounded c \<Longrightarrow> cli_bounded (snd (seal_group E m c))"
  by (simp add: seal_group_def cbound split: option.split prod.split)

lemma cbound_seal_private [cbound]: "cli_bounded c \<Longrightarrow> cli_bounded (snd (seal_private E m c))"
  by (simp add: seal_private_def Let_def cbound split: option.split prod.split)

lemma cbound_prepare [cbound]: "cli_bounded c \<Longrightarrow> cli_bounded (snd (prepare E m c))"
  by (simp add: prepare_def Let_def case_prod_beta cbound)

lemma cbound_write_frame [cbound]: "cli_bounded c \<Longrightarrow> cli_bounded (write_frame E m c)"
  by (simp add: write_frame_def cbound cli_bounded_def split: option.split prod.split sum.split)

lemma cbound_write_next [cbound]: "cli_bounded c \<Longrightarrow> cli_bounded (write_next E c)"
proof (cases "sendq c")
  case (Cons m ms)
  assume "cli_bounded c"
  then have "cli_bounded (c\<lparr>sendq := ms\<rparr>)" by (simp add: cli_bounded_def Cons)
  from cbound_prepare [OF this, of E m] have "prepare E m (c\<lparr>sendq := ms\<rparr>) = (x, c1) \<Longrightarrow> cli_bounded c1" for x c1
    by (metis snd_conv)
  then show ?thesis
    by (auto simp: write_next_def Cons cbound split: prod.split option.split)
qed (simp add: write_next_def)

end
