(* ===== verification/ClientConnect.thy ===== *)
theory ClientConnect
  imports ClientPump
begin

text \<open>
  \<^verbatim>\<open>Connect\<close> (\<^verbatim>\<open>core.go\<close>): how the client reaches the hub and the
  handshake from its side, up to the state the goroutines start from.
\<close>

section \<open>Reaching the hub\<close>

definition TorSocksAddr :: string where
  [cfg]: "TorSocksAddr = ''127.0.0.1:9050''"

text \<open>The probes of the SOCKS port made until the deadline, the first one at once.\<close>

definition ensureTorRunningAt :: "bool list \<Rightarrow> bool" where
  "ensureTorRunningAt probes \<longleftrightarrow> List.find (\<lambda>up. up) probes \<noteq> None"

datatype transport = Direct | Socks string

text \<open>\<open>et\<close> is the SOCKS address of the embedded Tor, when there is one. \<open>None\<close>: Tor does
  not come up.\<close>

definition dial_via :: "bool \<Rightarrow> string option \<Rightarrow> bool list \<Rightarrow> transport option" where
  "dial_via useTor et probes =
     (if useTor then
        (let socks = (case et of Some a \<Rightarrow> if a \<noteq> [] then a else TorSocksAddr | None \<Rightarrow> TorSocksAddr)
         in if ensureTorRunningAt probes then Some (Socks socks) else None)
      else Some Direct)"

text \<open>\<^verbatim>\<open>httpClient\<close>; the flag says that the SOCKS dialer could be made.\<close>

definition httpClient :: "bool \<Rightarrow> Cli \<Rightarrow> transport" where
  "httpClient dialer_ok c =
     (if \<not> UseTor c then Direct else if \<not> dialer_ok then Direct else Socks (SocksAddr c))"

section \<open>The hello\<close>

datatype connect_error =
  InvalidKeyExchange | KeyFailed | HelloFailed | Banned | ServerError string | ExpectedOk

text \<open>What the client keeps between its hello and the hub's answer.\<close>

record hello_state =
  hl_key :: bytes
  hl_e2ePriv :: bytes
  hl_e2ePub :: bytes
  hl_idPub :: bytes
  hl_idPriv :: bytes
  hl_hello :: ClientHello
  hl_frame :: bytes

definition own_identity :: "'a client_env_scheme \<Rightarrow> disk \<Rightarrow> string" where
  "own_identity E d =
     (case read_disk ''hostname'' d of Some b \<Rightarrow> TrimSpace b
      | None \<Rightarrow>
          (case read_disk ''/var/lib/tor/conner_chat/hostname'' d of Some b \<Rightarrow> TrimSpace b
           | None \<Rightarrow> hd (Split (local_addr E) (CHR '':''))))"

text \<open>
  The answer to the hub's key exchange. \<open>None\<close>: the search for a proof of work panics or
  does not return (the difficulty is the hub's choice).
\<close>

definition client_hello ::
  "'a client_env_scheme \<Rightarrow> int \<Rightarrow> string \<Rightarrow> bytes \<Rightarrow> nat \<times> disk \<Rightarrow>
     ((connect_error + hello_state) \<times> nat \<times> disk) option" where
  "client_hello E now nickname payload x =
     (let (pos, d) = x in
      case pb_ke_dec E payload of
        None \<Rightarrow> Some (Inl InvalidKeyExchange, x)
      | Some ke \<Rightarrow>
          if ke_X25519Pub ke = [] \<or> ke_Nonce ke = [] then Some (Inl InvalidKeyExchange, x)
          else
            (let nonce = ke_Nonce ke;
                 difficulty = (if unat (ke_PowDifficulty ke) = 0 then PoWDifficulty
                               else unat (ke_PowDifficulty ke))
             in case ComputePoW E nonce difficulty of
                  None \<Rightarrow> None
                | Some powNonce \<Rightarrow>
                    (let ((priv, pub), p1) = GenerateKeyPair E pos
                     in case pub of
                          None \<Rightarrow> Some (Inl KeyFailed, p1, d)
                        | Some pub \<Rightarrow>
                            (case DeriveSharedKey E priv (ke_X25519Pub ke) of
                               None \<Rightarrow> Some (Inl KeyFailed, p1, d)
                             | Some sessionKey \<Rightarrow>
                                 (let ((e2ePriv, e2ePub), p2) = GenerateKeyPair E p1;
                                      e2ePub = (case e2ePub of None \<Rightarrow> [] | Some k \<Rightarrow> k);
                                      ((idPub, idPriv), p3, d1) = loadIdentityKeys E now nickname (p2, d);
                                      hello = \<lparr>h_X25519Pub = pub, h_Nickname = nickname,
                                        h_Identity = own_identity E d1, h_SigningPub = idPub,
                                        h_Signature = Sign E idPriv nonce, h_PowNonce = powNonce,
                                        h_E2EPub = e2ePub, h_Version = Version\<rparr>
                                  in case pb_hello E hello of
                                       None \<Rightarrow> Some (Inl HelloFailed, p3, d1)
                                     | Some hb \<Rightarrow>
                                         (case SendFrame hb of
                                            Inl e \<Rightarrow> Some (Inl HelloFailed, p3, d1)
                                          | Inr w \<Rightarrow>
                                              Some (Inr \<lparr>hl_key = sessionKey, hl_e2ePriv = e2ePriv,
                                                hl_e2ePub = e2ePub, hl_idPub = idPub, hl_idPriv = idPriv,
                                                hl_hello = hello, hl_frame = w\<rparr>, p3, d1)))))))"

section \<open>The answer\<close>

text \<open>\<^verbatim>\<open>strings.ToLower\<close>, of which only the search for ASCII letters is used.\<close>

definition lower :: "char \<Rightarrow> char" where
  "lower c = (if 65 \<le> code c \<and> code c \<le> 90 then byte (code c + 32) else c)"

definition ToLower :: "string \<Rightarrow> string" where
  "ToLower s = map lower s"

definition new_cli ::
  "'a client_env_scheme \<Rightarrow> int \<Rightarrow> string \<Rightarrow> string \<Rightarrow> bool \<Rightarrow> string option \<Rightarrow> hello_state \<Rightarrow> int \<Rightarrow>
     nat \<times> disk \<Rightarrow> Cli" where
  "new_cli E now nickname address useTor et hs httpPort x =
     (let (pos, d) = x;
          (seed, p1) = GenerateRandomKey E pos;
          c = \<lparr>SessionKey = hl_key hs, c_Nickname = nickname, sendq = [], updates = [], p2p = None,
               SigningPriv = hl_idPriv hs, SigningPub = hl_idPub hs, UserKeys = Map.empty,
               IdStore = NewIdentityStore E (IdentityStorePath E nickname) d,
               c_RoomKey = [], c_VaultToken = [], E2EPriv = hl_e2ePriv hs, E2EPub = hl_e2ePub hs,
               PeerE2E = Map.empty, Senders = None, CurrentRoom = DefaultRoom,
               outboxDir = [], inboxDir = [], ServerOnion = hd (Split address (CHR '':'')),
               ServerHTTPPort = httpPort, UseTor = useTor, SocksAddr = TorSocksAddr,
               syncLedger = Map.empty, activeDownloads = (\<lambda>_. False), pendingDecrypt = [],
               queueFile = QueueFile E nickname, fileGets = Map.empty, Done = False, conn_up = True,
               wire_out = [], jobs = [], c_now = now, c_pos = p1, c_disk = d\<rparr>;
          c1 = (SetRoomDirs E DefaultRoom c)\<lparr>Senders := Some (NewSenderState nickname 1 seed)\<rparr>
      in case et of None \<Rightarrow> c1 | Some a \<Rightarrow> c1\<lparr>SocksAddr := a\<rparr>)"

definition client_finish ::
  "'a client_env_scheme \<Rightarrow> int \<Rightarrow> string \<Rightarrow> string \<Rightarrow> bool \<Rightarrow> string option \<Rightarrow> hello_state \<Rightarrow> bytes \<Rightarrow>
     nat \<times> disk \<Rightarrow> connect_error + Cli" where
  "client_finish E now nickname address useTor et hs resp x =
     (case UnmarshalErr E resp of
        Some e \<Rightarrow>
          Inl (if Contains (ToLower (err_Reason e)) ''ban'' then Banned else ServerError (err_Reason e))
      | None \<Rightarrow>
          (case UnmarshalOK E resp of
             None \<Rightarrow> Inl ExpectedOk
           | Some ok \<Rightarrow>
               Inr (new_cli E now nickname address useTor et hs (sint (ok_VaultPort ok)) x)))"

lemma new_cli_fields [simp]:
  "SessionKey (new_cli E now n a u et hs p x) = hl_key hs"
  "c_Nickname (new_cli E now n a u et hs p x) = n"
  "ServerHTTPPort (new_cli E now n a u et hs p x) = p"
  "sendq (new_cli E now n a u et hs p x) = []" "updates (new_cli E now n a u et hs p x) = []"
  "conn_up (new_cli E now n a u et hs p x)" "\<not> Done (new_cli E now n a u et hs p x)"
  "pendingDecrypt (new_cli E now n a u et hs p x) = []"
  "fileGets (new_cli E now n a u et hs p x) = Map.empty"
  by (simp_all add: new_cli_def Let_def case_prod_beta SetRoomDirs_def split: option.split)

lemma new_cli_bounded: "cli_bounded (new_cli E now n a u et hs p x)"
  by (simp add: cli_bounded_def cfg)

end
