(* ===== verification/ClientFiles.thy ===== *)
theory ClientFiles
  imports ClientConnect
begin

text \<open>
  How the client moves files (\<^verbatim>\<open>core.go\<close>): chunks through the session to and from
  the hub's vault, downloads over HTTP, zip extraction, the automatic synchronisation of the
  outbox and of offered files.
\<close>

section \<open>Upload through the session\<close>

datatype upload_error = StatFailed | IsDirectory | TooLarge | OpenFailed | ChunkFailed | ReadFailed

definition file_msg ::
  "'a wire_scheme \<Rightarrow> string \<Rightarrow> string \<Rightarrow> string \<Rightarrow> Cli \<Rightarrow> ChatMessage \<times> Cli" where
  "file_msg E ty txt name c = (let (m, c1) = make_msg E ty txt c in (m\<lparr>FileId := name\<rparr>, c1))"

text \<open>The loop of \<^verbatim>\<open>UploadMux\<close> over the blocks the file is read in.\<close>

fun upload_go ::
  "'a client_env_scheme \<Rightarrow> bytes \<Rightarrow> string \<Rightarrow> nat \<Rightarrow> bytes list \<Rightarrow> Cli \<Rightarrow> bool \<times> nat \<times> Cli" where
  "upload_go E key name idx [] c = (True, idx, c)"
| "upload_go E key name idx (b # bs) c =
     (case EncryptChunk E (c_pos c) key name (of_nat idx) b of
        (None, p) \<Rightarrow> (False, idx, c\<lparr>c_pos := p\<rparr>)
      | (Some ct, p) \<Rightarrow>
          (let (m, c1) = file_msg E MsgTypeFilePut (Base64Encode ct) name (c\<lparr>c_pos := p\<rparr>)
           in upload_go E key name (Suc idx) bs (EnqueueOrSend E (m\<lparr>ChunkIdx := int idx\<rparr>) c1)))"

definition UploadMux ::
  "'a client_env_scheme \<Rightarrow> string \<Rightarrow> Cli \<Rightarrow> upload_error option \<times> Cli" where
  "UploadMux E localPath c =
     (if is_dir E localPath then (Some IsDirectory, c)
      else
        (case read_disk localPath (c_disk c) of
           None \<Rightarrow> (Some StatFailed, c)
         | Some f \<Rightarrow>
             if length f > 100 * 1024 * 1024 then (Some TooLarge, c)
             else
               (let name = Base localPath;
                    key = FileContentKey E (c_VaultToken c) name;
                    (ok, idx, c1) = upload_go E key name 0 (chunks_of f) c
                in if \<not> ok then (Some ChunkFailed, c1)
                   else if \<not> read_ok E localPath then (Some ReadFailed, c1)
                   else
                     (let (fin, c2) = file_msg E MsgTypeFilePut [] name c1
                      in (None, EnqueueOrSend E (fin\<lparr>ChunkIdx := -1, TotalChunks := int idx\<rparr>) c2)))))"

text \<open>The goroutine of an offer; the text of an error of the operating system is left out.
  \<open>None\<close>: it waits for room to announce the file.\<close>

definition upload_text :: "upload_error \<Rightarrow> string" where
  "upload_text e =
     (case e of IsDirectory \<Rightarrow> ''skip directory''
      | TooLarge \<Rightarrow> ''file too large for auto-sync (>100MB)'' | _ \<Rightarrow> [])"

definition offerFile :: "'a client_env_scheme \<Rightarrow> string \<Rightarrow> bool \<Rightarrow> Cli \<Rightarrow> Cli option" where
  "offerFile E path dir c =
     (if dir then
        Some (sendUpdate (notice ''SYNC''
          (''skip directory (share files, not folders): '' @ Base path)) c)
      else
        (case UploadMux E path c of
           (None, c1) \<Rightarrow>
             (let c2 = sendUpdate (notice ''SYNC'' (u_check @ '' Uploaded to Vault: '' @ Base path)) c1;
                  (m, c3) = make_msg E MsgTypeFileOffer
                    (Base path @ ''|'' @ ServerOnion c2 @ ''|VAULT'') c2
              in send_block m c3)
         | (Some e, c1) \<Rightarrow>
             Some (sendUpdate (notice ''SYNC''
               (u_cross @ '' Sync failed: '' @ Base path @ '' - '' @ upload_text e)) c1)))"

text \<open>A file event of the outbox (\<^verbatim>\<open>StartAutoSync\<close>).\<close>

definition sync_event :: "string \<Rightarrow> int \<Rightarrow> Cli \<Rightarrow> Cli" where
  "sync_event path modTime c =
     (let name = Base path
      in if isDownloading name c \<or> isSynced name modTime c then c
         else
           (let c1 = sendUpdate (notice ''SYNC'' (u_outbox @ '' Auto-uploading: '' @ name))
                       (markSynced name modTime c)
            in c1\<lparr>jobs := jobs c1 @ [OfferFile path]\<rparr>))"

section \<open>Download through the session\<close>

datatype mux_error = CreateFailed | BadBase64 | BadChunk | Timeout

text \<open>Register for the chunks, ask for the file, create it; the name is the base name.\<close>

definition mux_start :: "'a client_env_scheme \<Rightarrow> string \<Rightarrow> string \<Rightarrow> Cli \<Rightarrow> bool \<times> Cli" where
  "mux_start E filename destDir c =
     (let c1 = c\<lparr>fileGets := (fileGets c)(filename \<mapsto> [])\<rparr>;
          (req, c2) = file_msg E MsgTypeFileGet filename filename c1;
          c3 = EnqueueOrSend E req c2;
          path = JoinPath [destDir, filename]
      in if can_write E path \<and> \<not> is_dir E path then
           (True, c3\<lparr>c_disk := snd (write_disk E (c_now c3) path [] (c_disk c3))\<rparr>)
         else (False, c3))"

text \<open>One message taken from the channel: finished, failed, or go on.\<close>

datatype mux_next = Finished | Failed mux_error | More

definition mux_take ::
  "'a client_env_scheme \<Rightarrow> bytes \<Rightarrow> string \<Rightarrow> string \<Rightarrow> ChatMessage \<Rightarrow> Cli \<Rightarrow> mux_next \<times> Cli" where
  "mux_take E key filename destDir msg c =
     (if ChunkIdx msg < 0 then (Finished, c)
      else
        (case Base64Decode (Content msg) of None \<Rightarrow> (Failed BadBase64, c)
         | Some ct \<Rightarrow>
             (case DecryptChunk E key filename (word_of_int (ChunkIdx msg)) ct of
                None \<Rightarrow> (Failed BadChunk, c)
              | Some pt \<Rightarrow>
                  (More, c\<lparr>c_disk :=
                     snd (append_disk E (c_now c) (JoinPath [destDir, filename]) pt (c_disk c))\<rparr>))))"

fun mux_loop ::
  "'a client_env_scheme \<Rightarrow> bytes \<Rightarrow> string \<Rightarrow> string \<Rightarrow> ChatMessage list \<Rightarrow> Cli \<Rightarrow> mux_error option \<times> Cli" where
  "mux_loop E key filename destDir [] c = (Some Timeout, c)"
| "mux_loop E key filename destDir (m # ms) c =
     (case mux_take E key filename destDir m c of
        (Finished, c1) \<Rightarrow> (None, c1)
      | (Failed e, c1) \<Rightarrow> (Some e, c1)
      | (More, c1) \<Rightarrow> mux_loop E key filename destDir ms c1)"

text \<open>
  The whole download, given the messages it takes from its channel before the deadline of two
  minutes. What other goroutines do meanwhile is not shown in the state.
\<close>

definition DownloadMux ::
  "'a client_env_scheme \<Rightarrow> ChatMessage list \<Rightarrow> string \<Rightarrow> string \<Rightarrow> Cli \<Rightarrow> mux_error option \<times> Cli" where
  "DownloadMux E arrivals filename0 destDir c =
     (let filename = Base filename0;
          (ok, c1) = mux_start E filename destDir c;
          key = FileContentKey E (c_VaultToken c1) filename;
          (e, c2) = (if ok then mux_loop E key filename destDir arrivals c1 else (Some CreateFailed, c1))
      in (e, c2\<lparr>fileGets := (fileGets c2)(filename := None)\<rparr>))"

section \<open>Zip files\<close>

text \<open>Entries in order; extraction stops at the first illegal or failing one and keeps what it
  wrote.\<close>

fun extract_go ::
  "'a client_env_scheme \<Rightarrow> int \<Rightarrow> string \<Rightarrow> zip_entry list \<Rightarrow> disk \<Rightarrow> bool \<times> disk" where
  "extract_go E now dest [] d = (True, d)"
| "extract_go E now dest (f # fs) d =
     (let fpath = JoinPath [dest, ze_name f]
      in if \<not> HasPrefix fpath (Clean dest @ [slash]) then (False, d)
         else if ze_dir f then extract_go E now dest fs d
         else if \<not> can_write E fpath \<or> is_dir E fpath then (False, d)
         else
           (let d1 = snd (write_disk E now fpath (ze_data f) d)
            in if ze_ok f then extract_go E now dest fs d1 else (False, d1)))"

definition ExtractZip ::
  "'a client_env_scheme \<Rightarrow> int \<Rightarrow> string \<Rightarrow> string \<Rightarrow> disk \<Rightarrow> bool \<times> disk" where
  "ExtractZip E now src dest d =
     (case read_disk src d of None \<Rightarrow> (False, d)
      | Some data \<Rightarrow>
          (case unzip E data of None \<Rightarrow> (False, d) | Some es \<Rightarrow> extract_go E now dest es d))"

section \<open>Downloads over HTTP\<close>

text \<open>A few attempts: the first with status 200, else the last one.\<close>

fun retry :: "(nat \<Rightarrow> http_resp option) \<Rightarrow> nat \<Rightarrow> nat \<Rightarrow> http_resp option" where
  "retry f i 0 = None"
| "retry f i (Suc n) =
     (case f i of
        None \<Rightarrow> if n = 0 then None else retry f (Suc i) n
      | Some r \<Rightarrow> if status r = 200 \<or> n = 0 then Some r else retry f (Suc i) n)"

text \<open>The body, decrypted as a stream when the header says so, and whether reading or
  decrypting it failed.\<close>

definition save_body :: "'a prims_scheme \<Rightarrow> http_resp \<Rightarrow> string \<Rightarrow> string \<Rightarrow> bytes \<times> bool" where
  "save_body E r token fileID =
     (if aead r then
        (case DecryptReaderTo E (body r) (FileContentKey E token fileID) fileID of
           (e, out) \<Rightarrow> (out, e \<noteq> None))
      else (body r, body_fails r))"

datatype dl_error = HttpFailed | HttpStatus nat | LocalFile | BodyFailed | ZipFailed | ChecksumFailed

definition shared_url :: "string \<Rightarrow> string \<Rightarrow> string \<Rightarrow> int \<Rightarrow> string" where
  "shared_url serverAddr filename token httpPort =
     (let tail = ''/download?f='' @ filename @ ''&t='' @ token
      in if HasSuffix serverAddr ''.onion'' \<and> \<not> Contains serverAddr '':'' then
           ''http://'' @ serverAddr @ '':80'' @ tail
         else if \<not> Contains serverAddr '':'' then
           (if httpPort > 0 then ''http://'' @ serverAddr @ '':'' @ int_dec httpPort @ tail
            else ''http://'' @ serverAddr @ '':6666'' @ tail)
         else ''http://'' @ serverAddr @ tail)"

definition DownloadSharedFile ::
  "'a client_env_scheme \<Rightarrow> (string \<Rightarrow> nat \<Rightarrow> http_resp option) \<Rightarrow> string \<Rightarrow> string \<Rightarrow> string \<Rightarrow> Cli \<Rightarrow>
     dl_error option \<times> Cli" where
  "DownloadSharedFile E http filename0 serverAddr destDir c0 =
     (let filename = Base filename0;
          c = setDownloading filename True c0;
          token = c_VaultToken c;
          url = shared_url serverAddr filename token (ServerHTTPPort c);
          destPath = JoinPath [destDir, filename];
          (e, c1) =
            (case retry (http url) 0 3 of
               None \<Rightarrow> (Some HttpFailed, c)
             | Some r \<Rightarrow>
                 if status r \<noteq> 200 then (Some (HttpStatus (status r)), c)
                 else if \<not> can_write E destPath \<or> is_dir E destPath then (Some LocalFile, c)
                 else
                   (let (out, failed) = save_body E r token filename;
                        c2 = c\<lparr>c_disk := snd (write_disk E (c_now c) destPath out (c_disk c))\<rparr>
                    in if failed then (Some BodyFailed, c2)
                       else
                         (let c3 = markSynced filename (c_now c2) c2;
                              extractPath = JoinPath [destDir, TrimSuffix filename ''.zip''];
                              (ok, c4) =
                                (if HasSuffix filename ''.zip'' then
                                   (case ExtractZip E (c_now c3) destPath extractPath (c_disk c3) of
                                      (True, d) \<Rightarrow> (True, c3\<lparr>c_disk := remove_disk destPath d\<rparr>)
                                    | (False, d) \<Rightarrow> (False, c3\<lparr>c_disk := d\<rparr>))
                                 else (True, c3))
                          in if \<not> ok then (Some ZipFailed, c4)
                             else (None, sendUpdate (notice ''SYNC''
                               (u_check @ '' Auto-download complete: '' @ filename)) c4))))
      in (e, setDownloading filename False c1))"

text \<open>A failed peer-to-peer request that did answer is written from a closed body.\<close>

definition p2p_url :: "string \<Rightarrow> string \<Rightarrow> string" where
  "p2p_url senderOnion fileID =
     (if Contains senderOnion '':'' then ''http://'' @ senderOnion @ ''/p2p_download?id='' @ fileID
      else ''http://'' @ senderOnion @ '':80/p2p_download?id='' @ fileID)"

definition DownloadP2PFile ::
  "'a client_env_scheme \<Rightarrow> (string \<Rightarrow> nat \<Rightarrow> http_resp option) \<Rightarrow> string \<Rightarrow> string \<Rightarrow> string \<Rightarrow> string \<Rightarrow> Cli \<Rightarrow>
     dl_error option \<times> Cli" where
  "DownloadP2PFile E http filename0 senderOnion fileID destDir c0 =
     (let filename = Base filename0;
          c = setDownloading filename True c0;
          myHash = HexEncode (sha256 E (c_RoomKey c));
          destPath = JoinPath [destDir, filename];
          (e, c1) =
            (case retry (http (p2p_url senderOnion fileID)) 0 12 of
               None \<Rightarrow> (Some HttpFailed, c)
             | Some r \<Rightarrow>
                 if \<not> can_write E destPath \<or> is_dir E destPath then (Some LocalFile, c)
                 else
                   (let (out, failed) = (if status r = 200 then save_body E r myHash fileID else ([], True));
                        c2 = c\<lparr>c_disk := snd (write_disk E (c_now c) destPath out (c_disk c))\<rparr>
                    in if failed then (Some BodyFailed, c2)
                       else
                         (let c3 = markSynced filename (c_now c2) c2;
                              extractPath = JoinPath [destDir, TrimSuffix filename ''.zip''];
                              c4 =
                                (if HasSuffix filename ''.zip'' then
                                   (case ExtractZip E (c_now c3) destPath extractPath (c_disk c3) of
                                      (True, d) \<Rightarrow> c3\<lparr>c_disk := remove_disk destPath d\<rparr>
                                    | (False, d) \<Rightarrow> c3\<lparr>c_disk := d\<rparr>)
                                 else c3)
                          in (None, sendUpdate (notice ''P2P''
                               (u_check @ '' P2P Download Complete: '' @ filename)) c4))))
      in (e, setDownloading filename False c1))"

section \<open>The download of an offered file\<close>

definition calculateSHA256 :: "'a prims_scheme \<Rightarrow> string \<Rightarrow> disk \<Rightarrow> string" where
  "calculateSHA256 E path d =
     (case read_disk path d of None \<Rightarrow> [] | Some f \<Rightarrow> HexEncode (sha256 E f))"

definition dl_text :: "dl_error \<Rightarrow> string" where
  "dl_text e =
     (case e of HttpStatus n \<Rightarrow> ''server error: '' @ dec n
      | ChecksumFailed \<Rightarrow> ''checksum mismatch: security breach suspected'' | _ \<Rightarrow> [])"

text \<open>\<open>mux\<close> is the download through the session; the other one is tried when it fails.\<close>

definition auto_download ::
  "'a client_env_scheme \<Rightarrow> (string \<Rightarrow> string \<Rightarrow> Cli \<Rightarrow> mux_error option \<times> Cli) \<Rightarrow>
     (string \<Rightarrow> nat \<Rightarrow> http_resp option) \<Rightarrow> string \<Rightarrow> string \<Rightarrow> string \<Rightarrow> Cli \<Rightarrow> Cli" where
  "auto_download E mux http f addr expectedSum c =
     (let dest = InboxDir c;
          (e1, c1) = mux f dest c;
          (e2, c2) = (if e1 \<noteq> None then DownloadSharedFile E http f addr dest c1 else (None, c1));
          path = JoinPath [InboxDir c2, f];
          (e3, c3) =
            (if e2 = None \<and> expectedSum \<noteq> [] \<and> calculateSHA256 E path (c_disk c2) \<noteq> expectedSum then
               (Some ChecksumFailed, c2\<lparr>c_disk := remove_disk path (c_disk c2)\<rparr>)
             else (e2, c2));
          c4 = (case e3 of None \<Rightarrow> c3
                | Some e \<Rightarrow> sendUpdate (notice ''SYNC''
                    (u_cross @ '' Auto-download failed: '' @ f @ '' ('' @ dl_text e @ '')'')) c3)
      in setDownloading f False c4)"

end
