(* ===== verification/ClientTui.thy ===== *)
theory ClientTui
  imports ClientFiles VaultUi Terminal
begin

text \<open>
  The client's screen (\<^verbatim>\<open>internal/client/tui\<close>): its state, and what its parts do
  to it. The terminal, markdown, the text area, the clipboard, formatted times and directory
  listings belong to libraries and the system; they are the fields of \<open>ui_env\<close>.
\<close>

record ui_env = client_env +
  screen :: terminal
  markdown :: "int \<Rightarrow> string \<Rightarrow> string"
  short_time :: "string \<Rightarrow> string"
  list_stamp :: "int \<Rightarrow> string"
  edit_key :: "string \<Rightarrow> string \<Rightarrow> string"
  set_value :: "string \<Rightarrow> string"
  ui_clip :: clipboard
  list_dir :: "string \<Rightarrow> disk \<Rightarrow> Entry list"

text \<open>Reactions and typing users are Go maps: their order stands for the order of a
  \<^verbatim>\<open>range\<close>.\<close>

record chatRow =
  Rendered :: string
  MsgId :: string
  Acked :: bool
  IsOwn :: bool
  Reactions :: "(string \<times> string list) list"

text \<open>What an update asks the runtime to do later.\<close>

datatype tui_cmd = WaitForMsg | AttemptReconnect | TickBootstrap | TickVault

record tui =
  t_cli :: "Cli option"
  t_nickname :: string
  t_addr :: string
  t_useTor :: bool
  t_width :: int
  t_height :: int
  t_vpWidth :: int
  t_vpHeight :: int
  t_helpWidth :: int
  t_helpHeight :: int
  t_content :: string
  t_inputWidth :: int
  t_input :: string
  t_rows :: "chatRow list"
  t_showHelp :: bool
  t_state :: string
  t_onlineUsers :: "string list"
  t_isAdmin :: bool
  t_typingUsers :: "(string \<times> int) list"
  t_lastTyping :: int
  t_reconnectTick :: int
  t_currentRoom :: string
  t_bootstrapPct :: int
  t_highContrast :: bool
  t_contrasted :: bool
  t_filePane :: bool
  t_showVault :: bool
  t_vaultTab :: nat
  t_inbox :: "Entry list"
  t_outbox :: "Entry list"
  t_fileList :: "string list"
  t_fileCursor :: int
  t_unread :: "string \<Rightarrow> int"
  t_knownRooms :: "string list"
  t_statusHint :: string
  t_userCursor :: int
  t_followTail :: bool
  t_selectHold :: bool
  t_frozenView :: string
  t_quit :: bool
  t_burn :: bool
  t_cmds :: "tui_cmd list"
  t_now :: int

text \<open>High contrast replaces three styles of the package, for good: \<open>t_contrasted\<close>.\<close>

definition applyContrast :: "tui \<Rightarrow> tui" where
  "applyContrast m = (if t_highContrast m then m\<lparr>t_contrasted := True\<rparr> else m)"

definition InitialModel :: "Cli option \<Rightarrow> string \<Rightarrow> string \<Rightarrow> bool \<Rightarrow> bool \<Rightarrow> int \<Rightarrow> tui" where
  "InitialModel c nick addr useTor contrast now =
     applyContrast
     \<lparr>t_cli = c, t_nickname = nick, t_addr = addr, t_useTor = useTor, t_width = 0, t_height = 0,
      t_vpWidth = 0, t_vpHeight = 0, t_helpWidth = 0, t_helpHeight = 0, t_content = [],
      t_inputWidth = 80, t_input = [], t_rows = [],
      t_showHelp = False, t_state = (if c = None then ''BANNED'' else ''PENDING''),
      t_onlineUsers = [], t_isAdmin = False, t_typingUsers = [], t_lastTyping = 0,
      t_reconnectTick = 0, t_currentRoom = DefaultRoom, t_bootstrapPct = 0,
      t_highContrast = contrast, t_contrasted = False, t_filePane = False, t_showVault = False,
      t_vaultTab = 0, t_inbox = [], t_outbox = [], t_fileList = [], t_fileCursor = 0,
      t_unread = (\<lambda>_. 0), t_knownRooms = [DefaultRoom], t_statusHint = [], t_userCursor = 0,
      t_followTail = True, t_selectHold = False, t_frozenView = [], t_quit = False, t_burn = False,
      t_cmds = (if c = None then [] else [WaitForMsg, TickVault]), t_now = now\<rparr>"

section \<open>Styles\<close>

definition styleSelf :: "tui \<Rightarrow> style" where
  "styleSelf m = (if t_contrasted m then [Bold, Underline] else [Foreground ''#A259FF'', Bold])"

definition styleOther :: "tui \<Rightarrow> style" where
  "styleOther m = (if t_contrasted m then [Bold] else [Foreground ''#4B9EFF'', Bold])"

definition styleSystem :: "tui \<Rightarrow> style" where
  "styleSystem m = (if t_contrasted m then [Italic, Underline] else [Foreground ''#FF8C00'', Italic])"

definition styleDim :: style where
  "styleDim = [Foreground ''#555555'']"

definition styleAdminTS :: style where
  "styleAdminTS = [Foreground ''#00FFCC'']"

definition stylePM :: "int \<Rightarrow> style" where
  "stylePM w = [Foreground ''#00FFCC'', Width w, AlignRight]"

text \<open>A handler returns the new state, waits for room in a channel, or dereferences a missing
  client.\<close>

datatype 'a ui = Shown 'a | Waits | Crash

fun ui_bind :: "'a ui \<Rightarrow> ('a \<Rightarrow> 'b ui) \<Rightarrow> 'b ui" where
  "ui_bind (Shown x) f = f x"
| "ui_bind Waits f = Waits"
| "ui_bind Crash f = Crash"

section \<open>Rows\<close>

definition appendRow :: "chatRow \<Rightarrow> tui \<Rightarrow> tui" where
  "appendRow row m = m\<lparr>t_rows := push_cap 1000 row (t_rows m)\<rparr>"

definition plain_row :: "string \<Rightarrow> chatRow" where
  "plain_row s = \<lparr>Rendered = s, MsgId = [], Acked = False, IsOwn = False, Reactions = []\<rparr>"

definition appendLine :: "string \<Rightarrow> tui \<Rightarrow> tui" where
  "appendLine line m = appendRow (plain_row line) m"

definition appendSystem :: "'a ui_env_scheme \<Rightarrow> string \<Rightarrow> tui \<Rightarrow> tui" where
  "appendSystem E txt m = appendLine (draw (screen E) (styleSystem m) (''  '' @ u_middot @ '' '' @ txt)) m"

text \<open>A backwards search that changes the first row it finds.\<close>

fun upd_last :: "('b \<Rightarrow> bool) \<Rightarrow> ('b \<Rightarrow> 'b) \<Rightarrow> 'b list \<Rightarrow> 'b list" where
  "upd_last p f [] = []"
| "upd_last p f (x # xs) =
     (if (\<exists>y \<in> set xs. p y) then x # upd_last p f xs else if p x then f x # xs else x # xs)"

definition find_last :: "('b \<Rightarrow> bool) \<Rightarrow> 'b list \<Rightarrow> 'b option" where
  "find_last p xs = List.find p (rev xs)"

definition reactors :: "chatRow \<Rightarrow> string \<Rightarrow> string list" where
  "reactors row emoji = (case map_of (Reactions row) emoji of None \<Rightarrow> [] | Some us \<Rightarrow> us)"

definition add_reaction :: "string \<Rightarrow> string \<Rightarrow> chatRow \<Rightarrow> chatRow" where
  "add_reaction emoji who row = row\<lparr>Reactions := AList.update emoji (reactors row emoji @ [who]) (Reactions row)\<rparr>"

text \<open>The text of the chat pane: a row, whether it was acknowledged, who reacted.\<close>

definition row_text :: "'a ui_env_scheme \<Rightarrow> chatRow \<Rightarrow> string" where
  "row_text E r =
     Rendered r @
     (if IsOwn r then '' '' @ draw (screen E) styleDim (if Acked r then u_tick @ u_tick else u_tick) else []) @
     (if Reactions r \<noteq> [] then
        newline # ''    '' @
        draw (screen E) styleDim
          (''[ '' @ Join (map (\<lambda>(emoji, us). emoji @ '' '' @ dec (length us)) (Reactions r)) ''  '' @ '' ]'')
      else [])"

definition refreshViewport :: "'a ui_env_scheme \<Rightarrow> tui \<Rightarrow> tui" where
  "refreshViewport E m = m\<lparr>t_content := Join (map (row_text E) (t_rows m)) [newline]\<rparr>"

definition say :: "'a ui_env_scheme \<Rightarrow> string \<Rightarrow> tui \<Rightarrow> tui" where
  "say E txt m = refreshViewport E (appendSystem E txt m)"

interpretation chat_rows: capped_log appendRow t_rows "\<lambda>_. 1000"
  by unfold_locales (simp_all add: appendRow_def)

section \<open>The clipboard (clip.go)\<close>

fun skip_csi :: "string \<Rightarrow> string" where
  "skip_csi [] = []"
| "skip_csi (c # s) =
     (if (65 \<le> code c \<and> code c \<le> 90) \<or> (97 \<le> code c \<and> code c \<le> 122) then s else skip_csi s)"

lemma length_skip_csi: "length (skip_csi s) \<le> length s"
  by (induction s) auto

function stripANSI :: "string \<Rightarrow> string" where
  "stripANSI [] = []"
| "stripANSI (c # s) =
     (if c = byte 27 \<and> s \<noteq> [] \<and> hd s = CHR ''['' then stripANSI (skip_csi (tl s)) else c # stripANSI s)"
  by pat_completeness auto
termination
proof (relation "measure length")
  fix c :: char and s assume h: "c = byte 27 \<and> s \<noteq> [] \<and> hd s = CHR ''[''"
  have "length (skip_csi (tl s)) \<le> length (tl s)" by (rule length_skip_csi)
  also have "\<dots> < length (c # s)" using h by simp
  finally show "(skip_csi (tl s), c # s) \<in> measure length" by simp
qed auto

definition lastVisibleLine :: "string \<Rightarrow> string" where
  "lastVisibleLine rendered =
     (let plain = TrimSpace (stripANSI rendered)
      in if plain = [] then []
         else
           (case List.find (\<lambda>s. s \<noteq> []) (map TrimSpace (rev (Split plain (byte 10)))) of
              None \<Rightarrow> [] | Some s \<Rightarrow> s))"

definition copyLastMessage :: "'a ui_env_scheme \<Rightarrow> tui \<Rightarrow> tui" where
  "copyLastMessage E m =
     (case List.find (\<lambda>s. s \<noteq> []) (map (\<lambda>r. lastVisibleLine (Rendered r)) (rev (t_rows m))) of
        None \<Rightarrow> m\<lparr>t_statusHint := ''nothing to copy''\<rparr>
      | Some txt \<Rightarrow>
          if ClipWrite (ui_clip E) txt then
            say E ''copied to clipboard'' (m\<lparr>t_statusHint := ''copied last line''\<rparr>)
          else
            (let h = ''clipboard unavailable (install wl-clipboard or xclip)''
             in appendSystem E h (m\<lparr>t_statusHint := h\<rparr>)))"

text \<open>\<^verbatim>\<open>strings.ReplaceAll(s, "\r\n", "\n")\<close>\<close>

fun unix_lines :: "string \<Rightarrow> string" where
  "unix_lines (c # d # s) = (if c = byte 13 \<and> d = byte 10 then d # unix_lines s else c # unix_lines (d # s))"
| "unix_lines s = s"

definition pasteClipboard :: "'a ui_env_scheme \<Rightarrow> tui \<Rightarrow> tui" where
  "pasteClipboard E m =
     (case ClipRead (ui_clip E) of
        Some (c # s) \<Rightarrow> m\<lparr>t_input := set_value E (t_input m @ unix_lines (c # s)), t_statusHint := ''pasted''\<rparr>
      | _ \<Rightarrow> m\<lparr>t_statusHint := ''clipboard empty or unavailable''\<rparr>)"

section \<open>Rooms and users\<close>

definition nextRoom :: "string list \<Rightarrow> string \<Rightarrow> string" where
  "nextRoom rooms current =
     (if rooms = [] then current
      else
        (let i = length (takeWhile (\<lambda>r. r \<noteq> current) rooms)
         in if i < length rooms then rooms ! (Suc i mod length rooms) else hd rooms))"

definition prevRoom :: "string list \<Rightarrow> string \<Rightarrow> string" where
  "prevRoom rooms current =
     (if rooms = [] then current
      else
        (let i = length (takeWhile (\<lambda>r. r \<noteq> current) rooms)
         in if i < length rooms then (if i = 0 then last rooms else rooms ! (i - 1)) else hd rooms))"

definition rememberRoom :: "string \<Rightarrow> tui \<Rightarrow> tui" where
  "rememberRoom name m =
     (if name \<in> set (t_knownRooms m) then m else m\<lparr>t_knownRooms := t_knownRooms m @ [name]\<rparr>)"

definition tui_msg :: "'a ui_env_scheme \<Rightarrow> string \<Rightarrow> string \<Rightarrow> tui \<Rightarrow> Cli \<Rightarrow> ChatMessage \<times> Cli" where
  "tui_msg E ty txt m c =
     (let (msg, p) = CreateMessage E (c_now c) (c_pos c) ty txt (t_nickname m) in (msg, c\<lparr>c_pos := p\<rparr>))"

definition switchRoom :: "'a ui_env_scheme \<Rightarrow> string \<Rightarrow> tui \<Rightarrow> tui" where
  "switchRoom E name m0 =
     (case t_cli m0 of None \<Rightarrow> m0
      | Some c0 \<Rightarrow>
          if name = [] then m0
          else
            (let m = rememberRoom name
                   (m0\<lparr>t_currentRoom := name, t_unread := (t_unread m0)(name := 0)\<rparr>);
                 (join, c1) = tui_msg E MsgTypeRoomJoin name m0 (SetRoomDirs E name c0);
                 c2 = snd (try_post join c1)
             in say E (''switched to room #'' @ name)
                  (m\<lparr>t_cli := Some c2, t_statusHint := ''room #'' @ name\<rparr>)))"

text \<open>\<^verbatim>\<open>strings.Split(s, " (")[0]\<close>\<close>

fun before_paren :: "string \<Rightarrow> string" where
  "before_paren [] = []"
| "before_paren (c # s) = (if HasPrefix (c # s) '' ('' then [] else c # before_paren s)"

definition selectedUser :: "tui \<Rightarrow> string" where
  "selectedUser m =
     (if t_onlineUsers m = [] then []
      else
        (let i = (if t_userCursor m < 0 \<or> t_userCursor m \<ge> int (length (t_onlineUsers m)) then 0
                  else nat (t_userCursor m));
             u = t_onlineUsers m ! i
         in before_paren u))"

definition prefillPrivate :: "'a ui_env_scheme \<Rightarrow> tui \<Rightarrow> tui" where
  "prefillPrivate E m =
     (let nick = selectedUser m
      in if nick = [] then m\<lparr>t_statusHint := ''no user selected (Ctrl+N)''\<rparr>
         else m\<lparr>t_input := set_value E (''/private '' @ nick @ '' ''), t_statusHint := ''dm '' @ nick\<rparr>)"

text \<open>Go's remainder takes the sign of the dividend.\<close>

definition cycleUser :: "int \<Rightarrow> tui \<Rightarrow> tui" where
  "cycleUser delta m =
     (if t_onlineUsers m = [] then m
      else
        (let n = int (length (t_onlineUsers m)); s = t_userCursor m + delta;
             r = (if s < 0 then - ((- s) mod n) else s mod n);
             m1 = m\<lparr>t_userCursor := (if r < 0 then n - 1 else r)\<rparr>
         in m1\<lparr>t_statusHint := ''user '' @ selectedUser m1\<rparr>))"

definition formatRoomTab :: "string \<Rightarrow> bool \<Rightarrow> int \<Rightarrow> string" where
  "formatRoomTab name current unread =
     (let label = (if unread > 0 then ''#'' @ name @ '' ('' @ int_dec unread @ '')'' else ''#'' @ name)
      in if current then ''['' @ label @ '']'' else label)"

definition shortHost :: "string \<Rightarrow> string" where
  "shortHost addr =
     (let i = length addr - Suc (length (takeWhile (\<lambda>c. c \<noteq> CHR '':'') (rev addr)));
          host = (if CHR '':'' \<in> set addr \<and> i > 0 then take i addr else addr)
      in if HasSuffix host ''.onion'' \<and> length host > 16 then take 8 host @ u_ellipsis @ ''onion''
         else host)"

section \<open>The vault page\<close>

definition refreshFiles :: "'a ui_env_scheme \<Rightarrow> tui \<Rightarrow> tui" where
  "refreshFiles E m =
     (let (i, o', d) = (case t_cli m of None \<Rightarrow> (''downloads'', ''uploads'', Map.empty)
                        | Some c \<Rightarrow> (InboxDir c, OutboxDir c, c_disk c));
          ents = ListEntries (list_dir E i d)
      in m\<lparr>t_inbox := ents, t_outbox := ListEntries (list_dir E o' d), t_fileList := map en_name ents\<rparr>)"

definition vaultActive :: "tui \<Rightarrow> Entry list" where
  "vaultActive m = (if t_vaultTab m = 1 then t_outbox m else t_inbox m)"

definition vaultActivate :: "tui \<Rightarrow> tui" where
  "vaultActivate m =
     (let ents = vaultActive m
      in if ents = [] then m\<lparr>t_statusHint := ''vault empty '' @ u_dash @ '' drop files in outbox''\<rparr>
         else
           (let i = (if t_fileCursor m < 0 \<or> t_fileCursor m \<ge> int (length ents) then 0
                     else nat (t_fileCursor m));
                dir = (case t_cli m of None \<Rightarrow> ''downloads''
                       | Some c \<Rightarrow> if t_vaultTab m = 1 then OutboxDir c else InboxDir c)
            in m\<lparr>t_statusHint := ''copied path: '' @ SafeJoin dir (en_name (ents ! i))\<rparr>))"

definition toggleVault :: "'a ui_env_scheme \<Rightarrow> tui \<Rightarrow> tui" where
  "toggleVault E m =
     refreshFiles E (m\<lparr>t_showVault := \<not> t_showVault m, t_filePane := \<not> t_showVault m, t_fileCursor := 0\<rparr>)"

end
