(* ===== verification/ClientScreen.thy ===== *)
theory ClientScreen
  imports ClientTui
begin

text \<open>
  What the client shows (\<^verbatim>\<open>View\<close>, \<^verbatim>\<open>renderLive\<close>,
  \<^verbatim>\<open>renderVaultPage\<close> and \<^verbatim>\<open>layoutChat\<close> of
  \<^verbatim>\<open>internal/client/tui/app.go\<close>): boxes that hide everything else, the vault page, the
  help menu and the chat. Drawing the chat forgets who stopped typing, so it returns the state
  as well.
\<close>

section \<open>Styles\<close>

definition styleTitleBar :: style where
  "styleTitleBar =
     [Bold, Foreground ''#FFFFFF'', BorderBottom, BorderStyle ''normal'', BorderForeground ''#AAAAAA'',
      MarginBottom 1]"

definition styleUserList :: style where
  "styleUserList =
     [LeftBorder ''normal'', BorderForeground ''#555555'', Padding 0 1, Foreground ''#FFFFFF'']"

definition stylePendingBox :: style where
  "stylePendingBox =
     [Border ''double'', BorderForeground ''#FFFF00'', Padding 1 2, Foreground ''#FFFFFF'']"

definition styleKickedBox :: style where
  "styleKickedBox =
     [Border ''double'', BorderForeground ''#FF0000'', Padding 1 2, Foreground ''#FFFFFF'']"

definition styleInputBox :: style where
  "styleInputBox = [Border ''rounded'', BorderForeground ''#AAAAAA'', Padding 0 1]"

definition styleMenu :: style where
  "styleMenu =
     [Border ''double'', BorderForeground ''#FFFFFF'', Padding 1 2, Foreground ''#AAAAAA'']"

section \<open>Layout\<close>

definition sidebarWidth :: "tui \<Rightarrow> int" where
  "sidebarWidth m = (if t_width m < 56 then 0 else if t_filePane m then 24 else 18)"

definition layoutChat :: "'a ui_env_scheme \<Rightarrow> tui \<Rightarrow> tui" where
  "layoutChat E m =
     (let w = t_width m - sidebarWidth m - 2; h = t_height m - 10
      in refreshViewport E
           (m\<lparr>t_vpWidth := (if w < 16 then t_width m - 2 else w), t_vpHeight := (if h < 4 then 4 else h),
              t_helpWidth := min (t_width m - 4) 72, t_helpHeight := min (t_height m - 4) 22\<rparr>))"

definition renderRoomTabs :: "'a ui_env_scheme \<Rightarrow> tui \<Rightarrow> string" where
  "renderRoomTabs E m =
     draw (screen E) styleDim
       (''  '' @ Join (map (\<lambda>r. formatRoomTab r (r = t_currentRoom m) (t_unread m r)) (t_knownRooms m)) ''  '')"

definition roomBadge :: "tui \<Rightarrow> string" where
  "roomBadge m =
     (let badge = (\<lambda>r. if t_unread m r > 0 then r @ ''('' @ int_dec (t_unread m r) @ '' unread)''
                       else if r = t_currentRoom m then r @ ''*'' else r)
      in if t_knownRooms m = [] then t_currentRoom m else Join (map badge (t_knownRooms m)) '','')"

section \<open>Boxes\<close>

definition lines_of :: "string list \<Rightarrow> string" where
  "lines_of ls = concat (map (\<lambda>l. l @ [newline]) ls)"

definition pending_box :: "string \<Rightarrow> string" where
  "pending_box nick =
     lines_of
       [[], ''  CONNECTION ESTABLISHED'', ''  '' @ rule 45, ''  Your nickname: '' @ nick, [],
        ''  Please wait for an administrator to approve'', ''  your connection.'', [],
        ''  [ESC] Disconnect'']"

definition banned_box :: "string \<Rightarrow> string" where
  "banned_box nick =
     lines_of
       [[], ''  ACCESS DENIED'', ''  '' @ rule 45, ''  You have been permanently banned from'',
        ''  this server.'', [], ''  Identity: '' @ nick, [], ''  [Ctrl+C] or [ESC] to Exit.'']"

definition kicked_box :: "string \<Rightarrow> string" where
  "kicked_box nick =
     lines_of
       [[], ''  CONNECTION TERMINATED'', ''  '' @ rule 45, ''  You have been kicked from the server'',
        ''  by an administrator.'', [], ''  Nickname: '' @ nick, [], ''  [Ctrl+C] or [ESC] to Exit.'']"

definition lost_box :: "tui \<Rightarrow> string" where
  "lost_box m =
     (let tt = [byte 9, byte 9]
      in lines_of
           [[], tt @ ''  CONNECTION LOST'', tt @ ''  '' @ rule 45, tt @ ''  Nickname: '' @ t_nickname m,
            tt @ ''  Retry '' @ int_dec (t_reconnectTick m) @ '' '' @ u_middot @ '' circuit rebuild every 5s'',
            tt @ ''  Bootstrap ~'' @ int_dec (t_bootstrapPct m) @ ''%'', tt @ ''  [ESC] exit''] @ tt)"

definition admin_help :: string where
  "admin_help =
     lines_of
       [''  /approve <nick>    Approve pending user'', ''  /block <nick>      Ban and disconnect'',
        ''  /kick <nick>       Disconnect'', ''  /op <nick>         Grant admin'',
        ''  /ann <msg>         Announcement'']"

definition client_help :: "bool \<Rightarrow> string" where
  "client_help admin =
     lines_of
       [''CONNER '' @ u_dash @ '' Commands'', rule 37,
        ''  /list              List online users'', ''  /private <u; msg>   Pairwise DM'',
        ''  /room <name>       Switch/create room'', ''  /vault             Full-screen files page'',
        ''  /fp                Show identity prefix'', ''  /trust <nick>      Accept changed key'',
        ''  /contrast          High-contrast layout'', ''  /burn              Wipe profile & exit'',
        ''  /quit              Disconnect client'', []] @
     (if admin then admin_help else []) @
     lines_of
       [''  Ctrl+S             Freeze screen to select & copy'',
        ''  Ctrl+Y             Copy last visible chat line'', ''  Ctrl+F             Vault page'',
        ''  Ctrl+O             Toggle inbox/outbox tabs'', ''  Ctrl+U             Clear message input'',
        ''  Ctrl+P             DM selected user'', ''  Ctrl+N             Cycle online users'',
        ''  Alt+'' @ u_larrow @ '' / Alt+'' @ u_arrow @ ''      Prev / next room'',
        ''  Ctrl+K / Ctrl+L    Scroll viewport'', ''  Ctrl+G             Jump to latest'', []] @
     ''  ESC                Close help menu''"

section \<open>The vault page\<close>

definition vault_entry :: "'a ui_env_scheme \<Rightarrow> tui \<Rightarrow> nat \<times> Entry \<Rightarrow> string" where
  "vault_entry E m x =
     (case x of (i, e) \<Rightarrow>
        (let sel = (int i = t_fileCursor m); line = Line (list_stamp E (en_mod e)) e sel (t_width m - 4)
         in (if sel then draw (screen E) (styleSelf m) line else line) @ [newline]))"

definition renderVaultPage :: "'a ui_env_scheme \<Rightarrow> tui \<Rightarrow> string" where
  "renderVaultPage E m =
     (let T = screen E; nl = [newline];
          (inDir, outDir) = (case t_cli m of None \<Rightarrow> (''downloads'', ''uploads'')
                             | Some c \<Rightarrow> (InboxDir c, OutboxDir c));
          inMark = (if t_vaultTab m = 0 then ''[inbox]'' else ''inbox'');
          outMark = (if t_vaultTab m = 0 then ''outbox'' else ''[outbox]'');
          ents = vaultActive m
      in draw T (styleTitleBar @ [Width (t_width m - 2)])
           ('' VAULT  room #'' @ t_currentRoom m @ ''  '' @ u_middot @ ''  ciphertext on hub, plaintext in inbox '') @ nl @
         draw T styleDim (''  '' @ inMark @ '' ('' @ dec (length (t_inbox m)) @ '')    '' @ outMark @ '' ('' @
           dec (length (t_outbox m)) @ '')    Ctrl+O switch '' @ u_middot @ '' Enter copy path '' @ u_middot @ '' ESC back'') @
         nl @ nl @
         draw T styleDim (''  drop files in: '' @ outDir @ nl) @
         draw T styleDim (''  received in:  '' @ inDir @ nl @ nl) @
         (if ents = [] then draw T (styleSystem m) (''  (empty)'' @ nl)
          else
            concat (map (vault_entry E m) (enumerate 0 ents)) @
            nl @ draw T styleDim (''  '' @ dec (length ents) @ '' files '' @ u_middot @ '' '' @ FormatSize (TotalBytes ents))) @
         nl @ nl @ draw T styleDim ''  Hub stores AEAD chunks only. Token is ACL, not a chat key.'')"

section \<open>The chat\<close>

definition title_line :: "tui \<Rightarrow> string" where
  "title_line m =
     '' CONNER '' @ Version @ ''  '' @ t_nickname m @ ''@'' @ shortHost (t_addr m) @ ''  #'' @ t_currentRoom m @
     ''  ['' @ (if t_useTor m then ''Tor'' else ''LAN'') @ '']  '' @ (if t_isAdmin m then ''admin'' else ''member'')"

definition marked :: "string \<Rightarrow> int \<Rightarrow> nat \<times> string \<Rightarrow> string" where
  "marked bullet cursor x = (case x of (i, s) \<Rightarrow> (if int i = cursor then ''> '' else bullet) @ s @ [newline])"

definition people :: "'a ui_env_scheme \<Rightarrow> tui \<Rightarrow> string" where
  "people E m =
     draw (screen E) [Bold] ''people'' @ [newline] @
     (if t_filePane m then
        draw (screen E) [Bold] ''INBOX'' @ [newline] @
        concat (map (marked ''  '' (t_fileCursor m)) (enumerate 0 (t_fileList m)))
      else []) @
     concat (map (marked (u_bullet @ '' '') (t_userCursor m)) (enumerate 0 (map before_paren (t_onlineUsers m))))"

text \<open>Who typed within the last three seconds; the others are forgotten.\<close>

definition still_typing :: "tui \<Rightarrow> (string \<times> int) list" where
  "still_typing m = filter (\<lambda>(u, t). t_now m - t < 3 * second) (t_typingUsers m)"

definition typing_line :: "'a ui_env_scheme \<Rightarrow> tui \<Rightarrow> string" where
  "typing_line E m =
     (let us = map fst (still_typing m)
      in if us = [] then []
         else draw (screen E) styleDim
                (''  '' @ Join us '', '' @ (if length us = 1 then '' is typing...'' else '' are typing...'')) @ [newline])"

definition hint_line :: "tui \<Rightarrow> string" where
  "hint_line m =
     (let keys = ''Ctrl+S freeze to copy '' @ u_middot @ '' Ctrl+Y last line '' @ u_middot @ '' Ctrl+F vault '' @
                 u_middot @ '' F1''
      in if t_statusHint m \<noteq> [] then t_statusHint m
         else if \<not> t_followTail m then ''scrolled up '' @ u_middot @ '' Ctrl+G latest  '' @ u_middot @ ''  '' @ keys
         else keys)"

definition chat_view :: "'a ui_env_scheme \<Rightarrow> tui \<Rightarrow> string" where
  "chat_view E m =
     (let T = screen E; nl = [newline]; w = t_width m - sidebarWidth m - 2;
          chatW = (if w < 16 then t_width m - 2 else w);
          side = (if w < 16 then 0 else sidebarWidth m);
          chat = pane T chatW (t_vpHeight m) (t_content m)
      in draw T (styleTitleBar @ [Width (t_width m - 2)]) (title_line m) @ nl @
         renderRoomTabs E m @ nl @
         (if side > 0 then
            beside T [chat, draw T (styleUserList @ [Width side, Height (t_vpHeight m)]) (people E m)]
          else chat) @ nl @
         typing_line E m @
         draw T (styleInputBox @ [Width (t_width m - 4)]) (field T (t_inputWidth m) (t_input m)) @
         nl @ draw T styleDim (''  '' @ hint_line m))"

definition boxed :: "'a ui_env_scheme \<Rightarrow> tui \<Rightarrow> style \<Rightarrow> string \<Rightarrow> string" where
  "boxed E m st txt = centred (screen E) (t_width m) (t_height m) (draw (screen E) st txt)"

definition renderLive :: "'a ui_env_scheme \<Rightarrow> tui \<Rightarrow> string \<times> tui" where
  "renderLive E m =
     (if t_width m = 0 then (''Connecting'' @ u_ellipsis, m)
      else if t_state m = ''PENDING'' then (boxed E m stylePendingBox (pending_box (t_nickname m)), m)
      else if t_state m = ''BANNED'' then (boxed E m styleKickedBox (banned_box (t_nickname m)), m)
      else if t_state m = ''KICKED'' then (boxed E m styleKickedBox (kicked_box (t_nickname m)), m)
      else if t_showVault m then (renderVaultPage E m, m)
      else if t_state m = ''DISCONNECTED'' then (boxed E m styleKickedBox (lost_box m), m)
      else if t_showHelp m then
        (boxed E m (styleMenu @ [Width (t_helpWidth m)])
           (pane (screen E) (t_helpWidth m) (t_helpHeight m) (client_help (t_isAdmin m))), m)
      else (chat_view E m, m\<lparr>t_typingUsers := still_typing m\<rparr>))"

definition View :: "'a ui_env_scheme \<Rightarrow> tui \<Rightarrow> string \<times> tui" where
  "View E m = (if t_selectHold m \<and> t_frozenView m \<noteq> [] then (t_frozenView m, m) else renderLive E m)"

section \<open>What holds of them\<close>

text \<open>Who is not let in, was thrown out or banned sees a box with the own nickname: nothing that
  was received.\<close>

lemma box_hides:
  assumes "t_state m \<in> {''PENDING'', ''BANNED'', ''KICKED''}" and "t_state m' = t_state m"
    and "t_width m' = t_width m" and "t_height m' = t_height m" and "t_nickname m' = t_nickname m"
  shows "fst (renderLive E m') = fst (renderLive E m)"
  using assms by (auto simp: renderLive_def boxed_def)

text \<open>A held screen does not move, whatever arrives.\<close>

lemma View_held:
  "t_selectHold m \<Longrightarrow> t_frozenView m \<noteq> [] \<Longrightarrow> View E m = (t_frozenView m, m)"
  by (simp add: View_def)

text \<open>Drawing twice draws the same.\<close>

lemma still_typing_idem: "still_typing (m\<lparr>t_typingUsers := still_typing m\<rparr>) = still_typing m"
  by (simp add: still_typing_def)

lemma renderLive_rows [simp]: "t_rows (snd (renderLive E m)) = t_rows m"
  by (simp add: renderLive_def)

lemma chat_view_typing: "chat_view E (m\<lparr>t_typingUsers := still_typing m\<rparr>) = chat_view E m"
  by (simp add: chat_view_def Let_def sidebarWidth_def renderRoomTabs_def title_line_def people_def
      typing_line_def hint_line_def still_typing_idem)

lemma renderLive_again: "fst (renderLive E (snd (renderLive E m))) = fst (renderLive E m)"
  by (simp add: renderLive_def chat_view_typing)

end
