(* ===== verification/ClientInput.thy ===== *)
theory ClientInput
  imports ClientScreen
begin

text \<open>
  What the client's screen does with an update from the client, a line that was entered and
  a key (\<^verbatim>\<open>handleInput\<close> and \<^verbatim>\<open>Update\<close> of
  \<^verbatim>\<open>internal/client/tui/app.go\<close>).
\<close>

section \<open>Messages as rows\<close>

definition chat_width :: "tui \<Rightarrow> int" where
  "chat_width m = (let cw = t_width m - 2; cw' = (if t_width m > 40 then cw - 20 else cw) in cw' - 2)"

definition renderMarkdown :: "'a ui_env_scheme \<Rightarrow> tui \<Rightarrow> string \<Rightarrow> string" where
  "renderMarkdown E m txt = (let w = t_vpWidth m - 6 in markdown E (if w < 16 then 16 else w) txt)"

definition renderMessage :: "'a ui_env_scheme \<Rightarrow> tui \<Rightarrow> ChatMessage \<Rightarrow> string" where
  "renderMessage E m msg =
     (let T = screen E
      in if Type msg = MsgTypeSystem \<or> Type msg = MsgTypeJoin then
           draw T (styleSystem m) (''  '' @ u_middot @ '' '' @ Content msg)
         else if Type msg = MsgTypePrivate then
           draw T (stylePM (chat_width m)) (''[PM] '' @ Sender msg @ '': '' @ Content msg)
         else
           ''  '' @
           (if MsgIsAdmin msg \<and> Timestamp msg \<noteq> [] then
              draw T styleAdminTS (short_time E (Timestamp msg)) @ draw T styleDim '' '' else []) @
           draw T (if Sender msg = t_nickname m then styleSelf m else styleOther m) (Sender msg) @
           draw T styleDim ('':'' @ [newline]) @ renderMarkdown E m (Content msg))"

definition renderSelf :: "'a ui_env_scheme \<Rightarrow> tui \<Rightarrow> string \<Rightarrow> string" where
  "renderSelf E m txt =
     ''  '' @ draw (screen E) (styleSelf m) (t_nickname m) @ draw (screen E) styleDim ('':'' @ [newline]) @
     renderMarkdown E m txt"

section \<open>Updates from the client\<close>

definition on_system :: "ChatMessage \<Rightarrow> tui \<Rightarrow> tui" where
  "on_system msg m =
     (if Contains (Content msg) ''Waiting for admin approval'' then m\<lparr>t_state := ''PENDING''\<rparr>
      else if Contains (Content msg) ''You have been approved'' then
        m\<lparr>t_state := [], t_statusHint := ''approved '' @ u_dash @ '' you are in''\<rparr>
      else if Contains (Content msg) ''Approved by shadow bot'' then
        m\<lparr>t_state := [], t_statusHint := ''approved''\<rparr>
      else if Contains (Content msg) ''You have been kicked'' then m\<lparr>t_state := ''KICKED''\<rparr>
      else if Contains (Content msg) ''admin privileges'' then m\<lparr>t_isAdmin := True\<rparr>
      else if Contains (Content msg) ''Connection closed'' \<and> t_state m \<noteq> ''KICKED'' then
        m\<lparr>t_state := ''DISCONNECTED'', t_bootstrapPct := 5,
          t_cmds := t_cmds m @ [AttemptReconnect, TickBootstrap]\<rparr>
      else m)"

definition listed_names :: "string \<Rightarrow> string list" where
  "listed_names txt =
     map (\<lambda>u. hd (SplitN u (CHR ''|'') 2)) (filter (\<lambda>u. TrimSpace u \<noteq> []) (Split txt (CHR '','')))"

definition on_reaction :: "'a ui_env_scheme \<Rightarrow> ChatMessage \<Rightarrow> tui \<Rightarrow> tui" where
  "on_reaction E msg m =
     (case SplitN (Content msg) (CHR ''|'') 2 of
        [target, emoji] \<Rightarrow>
          (case find_last (\<lambda>r. MsgId r = target) (t_rows m) of
             None \<Rightarrow> m
           | Some r \<Rightarrow>
               if Sender msg \<in> set (reactors r emoji) then m
               else refreshViewport E
                 (m\<lparr>t_rows := upd_last (\<lambda>r. MsgId r = target) (add_reaction emoji (Sender msg)) (t_rows m)\<rparr>))
      | _ \<Rightarrow> m)"

definition on_ack :: "'a ui_env_scheme \<Rightarrow> ChatMessage \<Rightarrow> tui \<Rightarrow> tui" where
  "on_ack E msg m =
     (if \<exists>r \<in> set (t_rows m). MsgId r = Content msg
      then refreshViewport E
        (m\<lparr>t_rows := upd_last (\<lambda>r. MsgId r = Content msg) (\<lambda>r. r\<lparr>Acked := True\<rparr>) (t_rows m)\<rparr>)
      else m)"

definition on_typing :: "ChatMessage \<Rightarrow> tui \<Rightarrow> tui" where
  "on_typing msg m =
     (if Sender msg \<noteq> t_nickname m
      then m\<lparr>t_typingUsers := AList.update (Sender msg) (t_now m) (t_typingUsers m)\<rparr>
      else m)"

definition note_room :: "ChatMessage \<Rightarrow> tui \<Rightarrow> tui" where
  "note_room msg m =
     (if Type msg = MsgTypeChat then
        (let rm = (if OnionAddr msg = [] then DefaultRoom else OnionAddr msg); m1 = rememberRoom rm m
         in if rm \<noteq> t_currentRoom m then m1\<lparr>t_unread := (t_unread m1)(rm := t_unread m1 rm + 1)\<rparr> else m1)
      else m)"

definition on_line :: "'a ui_env_scheme \<Rightarrow> ChatMessage \<Rightarrow> tui \<Rightarrow> tui" where
  "on_line E msg m =
     (let m1 = note_room msg m; line = renderMessage E m1 msg
      in if line \<noteq> [] then refreshViewport E (appendLine line m1) else m1)"

definition incoming :: "'a ui_env_scheme \<Rightarrow> ChatMessage \<Rightarrow> tui \<Rightarrow> tui" where
  "incoming E msg m0 =
     (let m = (if Type msg = MsgTypeSystem then on_system msg m0 else m0);
          m1 = (if Type msg = MsgTypeUserList then m\<lparr>t_onlineUsers := listed_names (Content msg)\<rparr>
                else if Type msg = MsgTypeReaction then on_reaction E msg m
                else if Type msg = MsgTypeAck then on_ack E msg m
                else if Type msg = MsgTypeTyping then on_typing msg m
                else on_line E msg m)
      in if t_cli m1 = None then m1 else m1\<lparr>t_cmds := t_cmds m1 @ [WaitForMsg]\<rparr>)"

section \<open>A line of input\<close>

text \<open>A blocking send from the screen.\<close>

definition ui_send :: "'a ui_env_scheme \<Rightarrow> string \<Rightarrow> (ChatMessage \<Rightarrow> ChatMessage) \<Rightarrow> string \<Rightarrow> tui \<Rightarrow>
    (ChatMessage \<times> tui) ui" where
  "ui_send E ty g txt m =
     (case t_cli m of None \<Rightarrow> Crash
      | Some c \<Rightarrow>
          (let (msg, c1) = tui_msg E ty txt m c
           in case send_block (g msg) c1 of None \<Rightarrow> Waits
              | Some c2 \<Rightarrow> Shown (msg, m\<lparr>t_cli := Some c2\<rparr>)))"

definition show_fp :: "'a ui_env_scheme \<Rightarrow> tui \<Rightarrow> tui" where
  "show_fp E m =
     (let fp = (case t_cli m of None \<Rightarrow> ''(none)''
                | Some c \<Rightarrow> if length (SigningPub c) > 0
                           then HexEncode (take (min 8 (length (SigningPub c))) (SigningPub c)) else ''(none)'')
      in say E (''identity fp prefix: '' @ fp) m)"

definition trust_nick :: "'a ui_env_scheme \<Rightarrow> string \<Rightarrow> tui \<Rightarrow> tui" where
  "trust_nick E nick m =
     (case t_cli m of None \<Rightarrow> m
      | Some c \<Rightarrow>
          if nick = [] then m
          else
            (let (st, d) = Trust E (c_now c) nick [] (IdStore c, c_disk c)
             in say E (''trusted new identity for '' @ nick)
                  (m\<lparr>t_cli := Some (c\<lparr>IdStore := st, c_disk := d\<rparr>)\<rparr>)))"

definition send_reaction :: "'a ui_env_scheme \<Rightarrow> string \<Rightarrow> tui \<Rightarrow> tui ui" where
  "send_reaction E emoji m =
     (case find_last (\<lambda>r. MsgId r \<noteq> [] \<and> \<not> IsOwn r) (t_rows m) of
        None \<Rightarrow> Shown (say E (u_cross @ '' No recent message found to react to.'') m)
      | Some r \<Rightarrow>
          ui_bind (ui_send E MsgTypeReaction id (MsgId r @ ''|'' @ emoji) m)
            (\<lambda>(msg, m1). Shown (refreshViewport E (m1\<lparr>t_rows :=
               upd_last (\<lambda>q. MsgId q = MsgId r) (add_reaction emoji (t_nickname m)) (t_rows m1)\<rparr>))))"

definition send_private :: "'a ui_env_scheme \<Rightarrow> string \<Rightarrow> tui \<Rightarrow> tui ui" where
  "send_private E val m =
     (case SplitN val (CHR '' '') 3 of
        [w, target, txt] \<Rightarrow>
          ui_bind (ui_send E MsgTypePrivate (\<lambda>msg. msg\<lparr>ReplyTo := target\<rparr>) txt m)
            (\<lambda>(msg, m1). Shown (refreshViewport E (appendLine
               (draw (screen E) (stylePM (chat_width m1)) (''[PM to '' @ target @ ''] '' @ txt)) m1)))
      | _ \<Rightarrow> Shown (say E ''Usage: /private <nick> <msg>'' m))"

definition send_chat :: "'a ui_env_scheme \<Rightarrow> string \<Rightarrow> tui \<Rightarrow> tui ui" where
  "send_chat E val m =
     ui_bind (ui_send E MsgTypeChat id val m)
       (\<lambda>(msg, m1). Shown (refreshViewport E (appendRow \<lparr>Rendered = renderSelf E m1 val, MsgId = MessageId msg,
          Acked = False, IsOwn = True, Reactions = []\<rparr> m1)))"

definition hub_commands :: "string list" where
  "hub_commands = [''/approve '', ''/kick '', ''/block '', ''/op '', ''/ann '']"

definition handleInput :: "'a ui_env_scheme \<Rightarrow> string \<Rightarrow> tui \<Rightarrow> tui ui" where
  "handleInput E val m =
     (if val = ''/quit'' then Shown (m\<lparr>t_quit := True\<rparr>)
      else if val = ''/help'' then Shown (m\<lparr>t_showHelp := True\<rparr>)
      else if val = ''/copy'' then Shown (copyLastMessage E m)
      else if val = ''/paste'' then Shown (pasteClipboard E m)
      else if val = ''/burn'' then
        Shown ((say E ''wipe ~/.conner + cwd leftovers'' m)\<lparr>t_burn := True\<rparr>)
      else if val = ''/contrast'' then
        (let hc = \<not> t_highContrast m
         in Shown (say E (''high-contrast='' @ (if hc then ''true'' else ''false'') @
              '' (also CONNER_HIGH_CONTRAST=1)'') (applyContrast (m\<lparr>t_highContrast := hc\<rparr>))))
      else if val = ''/files'' \<or> val = ''/vault'' then Shown (toggleVault E m)
      else if val = ''/fp'' then Shown (show_fp E m)
      else if \<exists>p \<in> set hub_commands. HasPrefix val p then
        ui_bind (ui_send E MsgTypeCmd id val m) (\<lambda>(msg, m1). Shown (say E (''cmd: '' @ val) m1))
      else if HasPrefix val ''/trust '' then Shown (trust_nick E (TrimSpace (TrimPrefix val ''/trust '')) m)
      else if HasPrefix val ''/room '' then Shown (switchRoom E (TrimSpace (TrimPrefix val ''/room '')) m)
      else if HasPrefix val ''/react '' then
        (case SplitN val (CHR '' '') 2 of [w, emoji] \<Rightarrow> send_reaction E emoji m | _ \<Rightarrow> Shown m)
      else if HasPrefix val ''/private'' then send_private E val m
      else if val = ''/list'' then Shown (say E (''Online Users: '' @ Join (t_onlineUsers m) '', '') m)
      else send_chat E val m)"

section \<open>Keys\<close>

definition tui_cmds :: "string list" where
  "tui_cmds =
     [''/list'', ''/private '', ''/room '', ''/rooms'', ''/files'', ''/vault'', ''/fp'', ''/trust '', ''/approve '',
      ''/kick '', ''/block '', ''/op '', ''/burn'', ''/contrast'', ''/copy'', ''/paste'', ''/help'', ''/quit'']"

definition tui_tab :: "'a ui_env_scheme \<Rightarrow> tui \<Rightarrow> tui" where
  "tui_tab E m =
     (if HasPrefix (t_input m) ''/'' then
        (let current = hd (Split (t_input m) (CHR '' ''))
         in case next_match (\<lambda>c. c = current \<or> c = current @ '' '')
                  (filter (\<lambda>c. HasPrefix c current) tui_cmds) of
              None \<Rightarrow> m
            | Some w \<Rightarrow> m\<lparr>t_input := set_value E w\<rparr>)
      else m)"

definition consumed_keys :: "string list" where
  "consumed_keys =
     [''ctrl+y'', ''ctrl+shift+c'', ''ctrl+v'', ''ctrl+u'', ''ctrl+k'', ''ctrl+l'', ''ctrl+g'', ''ctrl+s'', ''ctrl+p'',
      ''ctrl+f'', ''ctrl+o'', ''ctrl+n'', ''ctrl+h'', ''alt+right'', ''alt+left'', ''ctrl+right'', ''ctrl+left'', ''up'',
      ''down'', ''pgup'', ''pgdown'', ''f1'']"

definition shortcutConsumed :: "string \<Rightarrow> bool" where
  "shortcutConsumed key \<longleftrightarrow> key \<in> set consumed_keys"

definition key_enter :: "'a ui_env_scheme \<Rightarrow> tui \<Rightarrow> tui ui" where
  "key_enter E m =
     (if t_showHelp m then Shown (m\<lparr>t_showHelp := False\<rparr>)
      else if t_showVault m then Shown (vaultActivate m)
      else
        (let val = TrimSpace (t_input m)
         in if val = [] then Shown m else handleInput E val (m\<lparr>t_input := []\<rparr>)))"

text \<open>\<open>bottom\<close>: the view ends at the last line after it was moved.\<close>

definition key_scroll :: "bool \<Rightarrow> string \<Rightarrow> tui \<Rightarrow> tui" where
  "key_scroll bottom key m =
     (if key = ''up'' then
        (if t_showHelp m then m
         else if t_showVault m \<or> t_filePane m then
           (if t_fileCursor m > 0 then m\<lparr>t_fileCursor := t_fileCursor m - 1\<rparr> else m)
         else m\<lparr>t_followTail := False\<rparr>)
      else if key = ''down'' then
        (if t_showHelp m then m
         else if t_showVault m \<or> t_filePane m then
           (let n = length (vaultActive m); n1 = (if n = 0 then length (t_fileList m) else n)
            in if t_fileCursor m < int n1 - 1 then m\<lparr>t_fileCursor := t_fileCursor m + 1\<rparr> else m)
         else if bottom then m\<lparr>t_followTail := True\<rparr> else m)
      else if key = ''pgup'' then m\<lparr>t_followTail := False\<rparr>
      else if key = ''pgdown'' then (if bottom then m\<lparr>t_followTail := True\<rparr> else m)
      else m)"

definition on_key :: "'a ui_env_scheme \<Rightarrow> bool \<Rightarrow> string \<Rightarrow> tui \<Rightarrow> tui ui" where
  "on_key E bottom key m =
     (if key = ''esc'' then
        Shown (if t_showHelp m then m\<lparr>t_showHelp := False\<rparr>
               else if t_showVault m then m\<lparr>t_showVault := False, t_filePane := False\<rparr>
               else m\<lparr>t_quit := True\<rparr>)
      else if key = ''f1'' \<or> key = ''ctrl+h'' then Shown (m\<lparr>t_showHelp := \<not> t_showHelp m\<rparr>)
      else if key = ''ctrl+y'' \<or> key = ''ctrl+shift+c'' then Shown (copyLastMessage E m)
      else if key = ''ctrl+v'' then Shown (pasteClipboard E m)
      else if key = ''ctrl+u'' then Shown (m\<lparr>t_input := []\<rparr>)
      else if key = ''ctrl+g'' then Shown (m\<lparr>t_followTail := True\<rparr>)
      else if key = ''ctrl+p'' then Shown (prefillPrivate E m)
      else if key = ''ctrl+f'' then Shown (toggleVault E m)
      else if key = ''ctrl+o'' then
        Shown (if t_showVault m then m\<lparr>t_vaultTab := 1 - t_vaultTab m, t_fileCursor := 0\<rparr> else m)
      else if key = ''ctrl+n'' then Shown (cycleUser 1 m)
      else if key = ''alt+right'' \<or> key = ''ctrl+right'' then
        Shown (switchRoom E (nextRoom (t_knownRooms m) (t_currentRoom m)) m)
      else if key = ''alt+left'' \<or> key = ''ctrl+left'' then
        Shown (switchRoom E (prevRoom (t_knownRooms m) (t_currentRoom m)) m)
      else if key = ''tab'' then Shown (tui_tab E m)
      else if key = ''enter'' then key_enter E m
      else Shown (key_scroll bottom key m))"

text \<open>Then the text area gets the key, and a typing notice goes out at most every two
  seconds.\<close>

definition notify_typing :: "'a ui_env_scheme \<Rightarrow> tui \<Rightarrow> tui ui" where
  "notify_typing E m =
     (if t_state m = [] \<and> length (t_input m) > 0 \<and> \<not> HasPrefix (t_input m) ''/'' \<and>
         t_now m - t_lastTyping m > 2 * 10 ^ 9 then
        (case t_cli m of None \<Rightarrow> Crash
         | Some c \<Rightarrow>
             (let (msg, c1) = tui_msg E MsgTypeTyping [] m c; (sent, c2) = try_post msg c1; m1 = m\<lparr>t_cli := Some c2\<rparr>
              in Shown (if sent then m1\<lparr>t_lastTyping := t_now m\<rparr> else m1)))
      else Shown m)"

definition after_key :: "'a ui_env_scheme \<Rightarrow> string \<Rightarrow> tui \<Rightarrow> tui ui" where
  "after_key E key m =
     (if t_quit m \<and> key = ''esc'' then Shown m
      else if t_showHelp m \<or> shortcutConsumed key then Shown m
      else notify_typing E (m\<lparr>t_input := edit_key E key (t_input m)\<rparr>))"

section \<open>Events\<close>

datatype ui_event =
  Update ChatMessage
| VaultTick
| BootstrapTick
| Key string bool
| Reconnected "Cli option"
| WindowSize int int
| DownloadDone "string + string"

definition on_reconnect :: "'a ui_env_scheme \<Rightarrow> Cli option \<Rightarrow> tui \<Rightarrow> tui" where
  "on_reconnect E r m =
     (case r of
        Some c \<Rightarrow>
          (let m1 = appendSystem E ''reconnected''
                 (m\<lparr>t_cli := Some c, t_state := [], t_reconnectTick := 0, t_bootstrapPct := 100\<rparr>)
           in m1\<lparr>t_cmds := t_cmds m1 @ [WaitForMsg]\<rparr>)
      | None \<Rightarrow>
          m\<lparr>t_reconnectTick := t_reconnectTick m + 1, t_cmds := t_cmds m @ [AttemptReconnect]\<rparr>)"

text \<open>The held screen is the one drawn after the hint was set.\<close>

definition hold_screen :: "'a ui_env_scheme \<Rightarrow> tui \<Rightarrow> tui" where
  "hold_screen E m =
     (if t_selectHold m then m\<lparr>t_selectHold := False, t_frozenView := [], t_statusHint := ''live view''\<rparr>
      else
        (let (v, m1) = renderLive E (m\<lparr>t_selectHold := True,
               t_statusHint := ''SELECT MODE '' @ u_dash @ '' Shift+drag copy, then Ctrl+S''\<rparr>)
         in m1\<lparr>t_frozenView := v\<rparr>))"

definition tui_update :: "'a ui_env_scheme \<Rightarrow> ui_event \<Rightarrow> tui \<Rightarrow> tui ui" where
  "tui_update E ev m =
     (case ev of
        Update msg \<Rightarrow> Shown (incoming E msg m)
      | VaultTick \<Rightarrow>
          (let m1 = (if t_showVault m \<and> \<not> t_selectHold m then refreshFiles E m else m)
           in Shown (m1\<lparr>t_cmds := t_cmds m1 @ [TickVault]\<rparr>))
      | BootstrapTick \<Rightarrow>
          Shown (if t_state m = ''DISCONNECTED'' \<and> t_bootstrapPct m < 95 then
                   m\<lparr>t_bootstrapPct := min 95 (t_bootstrapPct m + 7), t_cmds := t_cmds m @ [TickBootstrap]\<rparr>
                 else m)
      | Key key bottom \<Rightarrow>
          if key = ''ctrl+s'' then
            Shown (hold_screen E m)
          else if key = ''ctrl+c'' then Shown (m\<lparr>t_quit := True\<rparr>)
          else ui_bind (on_key E bottom key m) (after_key E key)
      | Reconnected r \<Rightarrow> Shown (on_reconnect E r m)
      | DownloadDone (Inl err) \<Rightarrow> Shown (say E (u_cross @ '' Download failed: '' @ err) m)
      | DownloadDone (Inr path) \<Rightarrow> Shown (say E (u_check @ '' Download complete: '' @ path) m)
      | WindowSize w h \<Rightarrow>
          (let m1 = layoutChat E (m\<lparr>t_width := w, t_height := h, t_inputWidth := w - 6\<rparr>) in Shown (if t_showVault m1 then refreshFiles E m1 else m1)))"

fun tui_run :: "'a ui_env_scheme \<Rightarrow> ui_event list \<Rightarrow> tui \<Rightarrow> tui ui" where
  "tui_run E [] m = Shown m"
| "tui_run E (ev # evs) m = ui_bind (tui_update E ev m) (tui_run E evs)"

section \<open>The rows\<close>

text \<open>At most a thousand rows, and only rows of one's own carry a message id.\<close>

definition rows_ok :: "tui \<Rightarrow> bool" where
  "rows_ok m \<longleftrightarrow> length (t_rows m) \<le> 1000 \<and> (\<forall>r \<in> set (t_rows m). MsgId r \<noteq> [] \<longrightarrow> IsOwn r)"

definition own_only :: "chatRow \<Rightarrow> bool" where
  "own_only r \<longleftrightarrow> (MsgId r \<noteq> [] \<longrightarrow> IsOwn r)"

lemma rows_ok_alt: "rows_ok m \<longleftrightarrow> length (t_rows m) \<le> 1000 \<and> list_all own_only (t_rows m)"
  by (simp add: rows_ok_def own_only_def list_all_iff)

named_theorems rowed \<open>introduction rules for \<open>rows_ok\<close>\<close>

lemma rowed_same: "t_rows m' = t_rows m \<Longrightarrow> rows_ok m \<Longrightarrow> rows_ok m'"
  by (simp add: rows_ok_def)

lemma rowed_appendRow [rowed]: "rows_ok m \<Longrightarrow> own_only row \<Longrightarrow> rows_ok (appendRow row m)"
  by (auto simp: rows_ok_def own_only_def appendRow_def push_cap_def Let_def dest: in_set_dropD)

lemma plain_own [simp]: "own_only (plain_row s)"
  by (simp add: own_only_def plain_row_def)

lemma own_only_update [simp]:
  "own_only (add_reaction emoji who r) \<longleftrightarrow> own_only r" "own_only (r\<lparr>Acked := b\<rparr>) \<longleftrightarrow> own_only r"
  by (simp_all add: own_only_def add_reaction_def)

lemma rowed_appendLine [rowed]: "rows_ok m \<Longrightarrow> rows_ok (appendLine s m)"
  by (simp add: appendLine_def rowed)

lemma rowed_refreshViewport [rowed]: "rows_ok m \<Longrightarrow> rows_ok (refreshViewport E m)"
  by (simp add: refreshViewport_def rows_ok_def)

lemma rowed_appendSystem [rowed]: "rows_ok m \<Longrightarrow> rows_ok (appendSystem E s m)"
  by (simp add: appendSystem_def rowed)

lemma rowed_say [rowed]: "rows_ok m \<Longrightarrow> rows_ok (say E s m)"
  by (simp add: say_def rowed)

lemma length_upd_last [simp]: "length (upd_last p f xs) = length xs"
  by (induction xs) auto

lemma list_all_upd_last: "list_all P xs \<Longrightarrow> (\<And>x. P x \<Longrightarrow> P (f x)) \<Longrightarrow> list_all P (upd_last p f xs)"
  by (induction xs) auto

lemma rowed_upd_last [rowed]:
  "rows_ok m \<Longrightarrow> (\<And>r. own_only r \<Longrightarrow> own_only (f r)) \<Longrightarrow> rows_ok (m\<lparr>t_rows := upd_last p f (t_rows m)\<rparr>)"
  by (simp add: rows_ok_alt list_all_upd_last)

lemma rowed_fields [rowed]:
  "rows_ok m \<Longrightarrow> rows_ok (m\<lparr>t_cli := x1\<rparr>)" "rows_ok m \<Longrightarrow> rows_ok (m\<lparr>t_statusHint := x2\<rparr>)"
  "rows_ok m \<Longrightarrow> rows_ok (m\<lparr>t_input := x2\<rparr>)" "rows_ok m \<Longrightarrow> rows_ok (m\<lparr>t_state := x2\<rparr>)"
  "rows_ok m \<Longrightarrow> rows_ok (m\<lparr>t_cmds := x3\<rparr>)" "rows_ok m \<Longrightarrow> rows_ok (m\<lparr>t_isAdmin := b\<rparr>)"
  "rows_ok m \<Longrightarrow> rows_ok (m\<lparr>t_quit := b\<rparr>)" "rows_ok m \<Longrightarrow> rows_ok (m\<lparr>t_burn := b\<rparr>)"
  "rows_ok m \<Longrightarrow> rows_ok (m\<lparr>t_showHelp := b\<rparr>)" "rows_ok m \<Longrightarrow> rows_ok (m\<lparr>t_showVault := b\<rparr>)"
  "rows_ok m \<Longrightarrow> rows_ok (m\<lparr>t_filePane := b\<rparr>)" "rows_ok m \<Longrightarrow> rows_ok (m\<lparr>t_highContrast := b\<rparr>)"
  "rows_ok m \<Longrightarrow> rows_ok (m\<lparr>t_followTail := b\<rparr>)" "rows_ok m \<Longrightarrow> rows_ok (m\<lparr>t_selectHold := b\<rparr>)"
  "rows_ok m \<Longrightarrow> rows_ok (m\<lparr>t_bootstrapPct := i\<rparr>)" "rows_ok m \<Longrightarrow> rows_ok (m\<lparr>t_lastTyping := i\<rparr>)"
  "rows_ok m \<Longrightarrow> rows_ok (m\<lparr>t_reconnectTick := i\<rparr>)" "rows_ok m \<Longrightarrow> rows_ok (m\<lparr>t_fileCursor := i\<rparr>)"
  "rows_ok m \<Longrightarrow> rows_ok (m\<lparr>t_userCursor := i\<rparr>)" "rows_ok m \<Longrightarrow> rows_ok (m\<lparr>t_width := i\<rparr>)"
  "rows_ok m \<Longrightarrow> rows_ok (m\<lparr>t_height := i\<rparr>)" "rows_ok m \<Longrightarrow> rows_ok (m\<lparr>t_inputWidth := i\<rparr>)"
  "rows_ok m \<Longrightarrow> rows_ok (m\<lparr>t_vpWidth := i\<rparr>)" "rows_ok m \<Longrightarrow> rows_ok (m\<lparr>t_onlineUsers := x4\<rparr>)"
  "rows_ok m \<Longrightarrow> rows_ok (m\<lparr>t_knownRooms := x4\<rparr>)" "rows_ok m \<Longrightarrow> rows_ok (m\<lparr>t_fileList := x4\<rparr>)"
  "rows_ok m \<Longrightarrow> rows_ok (m\<lparr>t_currentRoom := x2\<rparr>)" "rows_ok m \<Longrightarrow> rows_ok (m\<lparr>t_unread := x5\<rparr>)"
  "rows_ok m \<Longrightarrow> rows_ok (m\<lparr>t_typingUsers := x6\<rparr>)" "rows_ok m \<Longrightarrow> rows_ok (m\<lparr>t_inbox := x7\<rparr>)"
  "rows_ok m \<Longrightarrow> rows_ok (m\<lparr>t_outbox := x7\<rparr>)" "rows_ok m \<Longrightarrow> rows_ok (m\<lparr>t_vaultTab := x8\<rparr>)"
  by (simp_all add: rows_ok_def)

lemma rowed_hold [rowed]: "rows_ok m \<Longrightarrow> rows_ok (hold_screen E m)"
  by (auto simp: hold_screen_def Let_def case_prod_beta rows_ok_def)

lemma rowed_contrast [rowed]: "rows_ok m \<Longrightarrow> rows_ok (applyContrast m)"
  by (simp add: applyContrast_def rows_ok_def)

text \<open>The operations of the screen leave the rows alone or append to them.\<close>

lemma rowed_push: "rows_ok m \<Longrightarrow> t_rows m' = t_rows m \<Longrightarrow> rows_ok m'"
  by (simp add: rows_ok_def)

lemma rowed_copy [rowed]: "rows_ok m \<Longrightarrow> rows_ok (copyLastMessage E m)"
  by (simp add: copyLastMessage_def Let_def rowed split: option.split)

lemma rowed_paste [rowed]: "rows_ok m \<Longrightarrow> rows_ok (pasteClipboard E m)"
  by (simp add: pasteClipboard_def rowed split: option.split list.split)

lemma rowed_remember [rowed]: "rows_ok m \<Longrightarrow> rows_ok (rememberRoom rm m)"
  by (simp add: rememberRoom_def rowed)

lemma rowed_switch [rowed]: "rows_ok m \<Longrightarrow> rows_ok (switchRoom E name m)"
  by (simp add: switchRoom_def Let_def case_prod_beta rowed split: option.split)

lemma rowed_refresh [rowed]: "rows_ok m \<Longrightarrow> rows_ok (refreshFiles E m)"
  by (simp add: refreshFiles_def Let_def case_prod_beta rowed)

lemma rowed_vault [rowed]: "rows_ok m \<Longrightarrow> rows_ok (vaultActivate m)" "rows_ok m \<Longrightarrow> rows_ok (toggleVault E m)"
  by (simp_all add: vaultActivate_def toggleVault_def Let_def rowed)

lemma rowed_users [rowed]: "rows_ok m \<Longrightarrow> rows_ok (prefillPrivate E m)" "rows_ok m \<Longrightarrow> rows_ok (cycleUser n m)"
  by (simp_all add: prefillPrivate_def cycleUser_def Let_def rowed)

lemma rowed_system [rowed]: "rows_ok m \<Longrightarrow> rows_ok (on_system msg m)"
  by (simp add: on_system_def rowed)

lemma rowed_reaction [rowed]: "rows_ok m \<Longrightarrow> rows_ok (on_reaction E msg m)"
  by (auto simp: on_reaction_def split: list.split option.split
      intro!: rowed_refreshViewport rowed_upd_last)

lemma rowed_line [rowed]: "rows_ok m \<Longrightarrow> rows_ok (on_line E msg m)"
  by (simp add: on_line_def note_room_def Let_def rowed)

lemma rowed_ack [rowed]: "rows_ok m \<Longrightarrow> rows_ok (on_ack E msg m)"
  by (auto simp: on_ack_def intro!: rowed_refreshViewport rowed_upd_last)

lemma rowed_typing [rowed]: "rows_ok m \<Longrightarrow> rows_ok (on_typing msg m)"
  by (simp add: on_typing_def rowed)

lemma rowed_incoming [rowed]: "rows_ok m \<Longrightarrow> rows_ok (incoming E msg m)"
  by (simp add: incoming_def Let_def rowed)

section \<open>Handlers that end\<close>

definition keeps_rows :: "tui ui \<Rightarrow> bool" where
  "keeps_rows r \<longleftrightarrow> (case r of Shown m \<Rightarrow> rows_ok m | _ \<Rightarrow> True)"

lemma keeps_rows_simps [simp]:
  "keeps_rows (Shown m) \<longleftrightarrow> rows_ok m" "keeps_rows Waits" "keeps_rows Crash"
  by (simp_all add: keeps_rows_def)

lemma keeps_bind: "keeps_rows r \<Longrightarrow> (\<And>m. rows_ok m \<Longrightarrow> keeps_rows (f m)) \<Longrightarrow> keeps_rows (ui_bind r f)"
  by (cases r) simp_all

lemma keeps_send:
  "rows_ok m \<Longrightarrow> (\<And>msg m1. rows_ok m1 \<Longrightarrow> keeps_rows (f (msg, m1))) \<Longrightarrow> keeps_rows (ui_bind (ui_send E ty g t m) f)"
  by (auto simp: ui_send_def Let_def case_prod_beta rowed split: option.split)

lemma keeps_reaction [rowed]: "rows_ok m \<Longrightarrow> keeps_rows (send_reaction E emoji m)"
  by (auto simp: send_reaction_def rowed split: option.split
      intro!: keeps_send rowed_refreshViewport rowed_upd_last)

lemma keeps_private [rowed]: "rows_ok m \<Longrightarrow> keeps_rows (send_private E val m)"
  by (auto simp: send_private_def rowed split: list.split intro!: keeps_send)

lemma keeps_chat [rowed]: "rows_ok m \<Longrightarrow> keeps_rows (send_chat E val m)"
  by (auto simp: send_chat_def own_only_def rowed intro!: keeps_send)

lemma keeps_command [rowed]:
  "rows_ok m \<Longrightarrow> keeps_rows (ui_bind (ui_send E ty g t m) (\<lambda>(msg, m1). Shown (say E s m1)))"
  by (rule keeps_send) (simp_all add: rowed)

lemma keeps_input [rowed]: "rows_ok m \<Longrightarrow> keeps_rows (handleInput E val m)"
  by (simp add: handleInput_def show_fp_def trust_nick_def Let_def case_prod_beta rowed keeps_command [unfolded case_prod_beta]
      split: option.split list.split)

lemma keeps_enter [rowed]: "rows_ok m \<Longrightarrow> keeps_rows (key_enter E m)"
  by (simp add: key_enter_def Let_def rowed)

lemma rowed_tab [rowed]: "rows_ok m \<Longrightarrow> rows_ok (tui_tab E m)"
  by (simp add: tui_tab_def Let_def rowed split: option.split)

lemma rowed_scroll [rowed]: "rows_ok m \<Longrightarrow> rows_ok (key_scroll b key m)"
  by (simp add: key_scroll_def Let_def rowed)

lemma keeps_key [rowed]: "rows_ok m \<Longrightarrow> keeps_rows (on_key E b key m)"
  by (simp add: on_key_def rowed)

lemma keeps_after [rowed]: "rows_ok m \<Longrightarrow> keeps_rows (after_key E key m)"
  by (simp add: after_key_def notify_typing_def Let_def case_prod_beta rowed split: option.split)

lemma rowed_reconnect [rowed]: "rows_ok m \<Longrightarrow> rows_ok (on_reconnect E r m)"
  by (simp add: on_reconnect_def Let_def rowed split: option.split)

lemma rowed_layout [rowed]: "rows_ok m \<Longrightarrow> rows_ok (layoutChat E m)"
  by (simp add: layoutChat_def Let_def rows_ok_def refreshViewport_def)

lemma keeps_update: "rows_ok m \<Longrightarrow> keeps_rows (tui_update E ev m)"
  by (cases ev) (simp_all add: tui_update_def Let_def rowed keeps_bind split: sum.split)

lemma keeps_run: "rows_ok m \<Longrightarrow> keeps_rows (tui_run E evs m)"
  by (induction evs arbitrary: m) (simp_all add: keeps_bind keeps_update)

lemma rows_start: "rows_ok (InitialModel c nick addr useTor contrast now)"
  by (simp add: InitialModel_def rowed rows_ok_def applyContrast_def)

text \<open>A reaction looks for a row of someone else that has an id.\<close>

lemma no_foreign_id: "rows_ok m \<Longrightarrow> find_last (\<lambda>r. MsgId r \<noteq> [] \<and> \<not> IsOwn r) (t_rows m) = None"
  by (auto simp: find_last_def find_None_iff rows_ok_def)

lemma nothing_to_react: 
  "rows_ok m \<Longrightarrow> send_reaction E emoji m =
     Shown (say E (u_cross @ '' No recent message found to react to.'') m)"
  by (simp add: send_reaction_def no_foreign_id)

end
