(* ===== verification/ClientStep.thy ===== *)
theory ClientStep
  imports ClientInput
begin

text \<open>
  The client as a machine: every goroutine step and every action of the user is an event, a
  run is a sequence of them. \<open>None\<close> is a goroutine that waits for room in a channel. Two
  facts hold along every run: the buffers stay within their bounds, and a pinned identity
  changes only when the user trusts the new one.
\<close>

datatype cli_event =
  Frame bytes
| Closed
| WriteNext
| HeartbeatTick
| Flush
| Publish
| FileEvent string int
| OfferRun string bool
| FetchRun "ChatMessage list" "string \<Rightarrow> nat \<Rightarrow> http_resp option" string string string
| FetchP2P "string \<Rightarrow> nat \<Rightarrow> http_resp option" string string string string
| UserSend ChatMessage
| UserPost ChatMessage
| UserTrust string
| UserRoom string

definition trust_pinned :: "'a client_env_scheme \<Rightarrow> string \<Rightarrow> Cli \<Rightarrow> Cli" where
  "trust_pinned E nick c =
     (let (st, d) = Trust E (c_now c) nick [] (IdStore c, c_disk c) in c\<lparr>IdStore := st, c_disk := d\<rparr>)"

fun cli_perform :: "'a client_env_scheme \<Rightarrow> cli_event \<Rightarrow> Cli \<Rightarrow> Cli option" where
  "cli_perform E (Frame raw) c = map_option snd (read_payload E raw c)"
| "cli_perform E Closed c = Some (read_done c)"
| "cli_perform E WriteNext c = Some (write_next E c)"
| "cli_perform E HeartbeatTick c = heartbeat_tick c"
| "cli_perform E Flush c = Some (flushQueue E c)"
| "cli_perform E Publish c = Some (publishSenderKey E c)"
| "cli_perform E (FileEvent path t) c = Some (sync_event path t c)"
| "cli_perform E (OfferRun path dir) c = offerFile E path dir c"
| "cli_perform E (FetchRun arrivals http f addr sm) c =
     Some (auto_download E (DownloadMux E arrivals) http f addr sm c)"
| "cli_perform E (FetchP2P http f onion fid dest) c = Some (snd (DownloadP2PFile E http f onion fid dest c))"
| "cli_perform E (UserSend m) c = send_block m c"
| "cli_perform E (UserPost m) c = Some (snd (try_post m c))"
| "cli_perform E (UserTrust nick) c = Some (trust_pinned E nick c)"
| "cli_perform E (UserRoom name) c = Some (SetRoomDirs E name c)"

fun cli_run :: "'a client_env_scheme \<Rightarrow> cli_event list \<Rightarrow> Cli \<Rightarrow> Cli option" where
  "cli_run E [] c = Some c"
| "cli_run E (ev # evs) c = Option.bind (cli_perform E ev c) (cli_run E evs)"

lemma cli_run_induct:
  assumes "cli_run E evs c = Some c'" and "I c"
    and "\<And>ev c c'. ev \<in> set evs \<Longrightarrow> I c \<Longrightarrow> cli_perform E ev c = Some c' \<Longrightarrow> I c'"
  shows "I c'"
  using assms
proof (induction evs arbitrary: c)
  case (Cons ev evs)
  obtain c1 where c1: "cli_perform E ev c = Some c1" "cli_run E evs c1 = Some c'"
    using Cons.prems(1) by (auto simp: bind_eq_Some_conv)
  have "I c1" by (rule Cons.prems(3) [OF _ Cons.prems(2) c1(1)]) simp
  then show ?case by (rule Cons.IH [OF c1(2)]) (rule Cons.prems(3), auto)
qed simp

section \<open>Bounds\<close>

lemma cbound_file_msg [cbound]: "cli_bounded c \<Longrightarrow> cli_bounded (snd (file_msg E ty t n c))"
  by (simp add: file_msg_def case_prod_beta cbound)

lemma cbound_upload_go: "cli_bounded c \<Longrightarrow> cli_bounded (snd (snd (upload_go E key name i bs c)))"
proof (induction bs arbitrary: i c)
  case (Cons b bs)
  then show ?case
    by (auto simp: case_prod_beta cbound split: option.split prod.split)
qed simp

lemma cbound_UploadMux [cbound]: "cli_bounded c \<Longrightarrow> cli_bounded (snd (UploadMux E p c))"
  by (simp add: UploadMux_def Let_def case_prod_beta cbound cbound_upload_go split: option.split)

lemma cbound_offerFile: "cli_bounded c \<Longrightarrow> offerFile E p b c = Some c' \<Longrightarrow> cli_bounded c'"
proof -
  assume c: "cli_bounded c" and o: "offerFile E p b c = Some c'"
  obtain e c1 where u: "UploadMux E p c = (e, c1)" by (cases "UploadMux E p c")
  have "cli_bounded c1" using cbound_UploadMux [OF c, of E p] by (simp add: u)
  with c o show ?thesis
    by (auto simp: offerFile_def u Let_def case_prod_beta cbound split: if_splits option.splits
        intro: cbound_send_block [rotated])
qed

lemma cbound_sync_event [cbound]: "cli_bounded c \<Longrightarrow> cli_bounded (sync_event p t c)"
  by (simp add: sync_event_def Let_def cbound)

lemma cbound_gets [cbound]:
  "cli_bounded c \<Longrightarrow> cli_bounded (c\<lparr>fileGets := (fileGets c)(f \<mapsto> [])\<rparr>)"
  "cli_bounded c \<Longrightarrow> cli_bounded (c\<lparr>fileGets := (fileGets c)(f := None)\<rparr>)"
  by (simp_all add: cli_bounded_def)

lemma cbound_mux_start [cbound]: "cli_bounded c \<Longrightarrow> cli_bounded (snd (mux_start E f d c))"
  by (simp add: mux_start_def Let_def case_prod_beta cbound)

lemma cbound_mux_take [cbound]: "cli_bounded c \<Longrightarrow> cli_bounded (snd (mux_take E k f d m c))"
  by (simp add: mux_take_def cbound split: option.split)

lemma cbound_mux_loop [cbound]: "cli_bounded c \<Longrightarrow> cli_bounded (snd (mux_loop E k f d ms c))"
proof (induction ms arbitrary: c)
  case (Cons m ms)
  obtain r c1 where t: "mux_take E k f d m c = (r, c1)" by (cases "mux_take E k f d m c")
  have "cli_bounded c1" using cbound_mux_take [OF Cons.prems, of E k f d m] by (simp add: t)
  then show ?case using Cons.IH by (cases r) (simp_all add: t)
qed simp

lemma cbound_DownloadMux [cbound]: "cli_bounded c \<Longrightarrow> cli_bounded (snd (DownloadMux E ms f d c))"
  by (simp add: DownloadMux_def Let_def case_prod_beta cbound)

lemma cbound_shared [cbound]: "cli_bounded c \<Longrightarrow> cli_bounded (snd (DownloadSharedFile E h f a d c))"
  by (auto simp: DownloadSharedFile_def Let_def case_prod_beta cbound
      split: option.split if_splits bool.split prod.split)

lemma cbound_p2p [cbound]: "cli_bounded c \<Longrightarrow> cli_bounded (snd (DownloadP2PFile E h f o' i d c))"
  by (auto simp: DownloadP2PFile_def Let_def case_prod_beta cbound
      split: option.split if_splits bool.split prod.split)

lemma cbound_auto [cbound]: "cli_bounded c \<Longrightarrow> cli_bounded (auto_download E (DownloadMux E ms) h f a s c)"
  by (simp add: auto_download_def Let_def case_prod_beta cbound split: option.split)

lemma cbound_user [cbound]:
  "cli_bounded c \<Longrightarrow> cli_bounded (trust_pinned E nick c)" "cli_bounded c \<Longrightarrow> cli_bounded (SetRoomDirs E name c)"
  by (simp_all add: trust_pinned_def SetRoomDirs_def case_prod_beta cbound cli_bounded_def)

lemma cbound_perform: "cli_bounded c \<Longrightarrow> cli_perform E ev c = Some c' \<Longrightarrow> cli_bounded c'"
  by (cases ev) (auto simp: cbound heartbeat_tick_def split: if_splits
      dest: cbound_read cbound_send_block cbound_offerFile)

lemma cbound_run: "cli_run E evs c = Some c' \<Longrightarrow> cli_bounded c \<Longrightarrow> cli_bounded c'"
  by (rule cli_run_induct [where I = cli_bounded]) (auto intro: cbound_perform)

section \<open>Pinned identities\<close>

text \<open>Everything but the user list and the user leaves the pins alone.\<close>

named_theorems pins \<open>operations that leave the identity store alone\<close>

lemma pins_simple [pins]:
  "IdStore (sendUpdate m c) = IdStore c" "IdStore (snd (try_post m c)) = IdStore c"
  "IdStore (to_disk E' m c) = IdStore c" "IdStore (snd (make_msg W ty t c)) = IdStore c"
  "IdStore (queuePending m c) = IdStore c" "IdStore (snd (group_open W m c)) = IdStore c"
  "IdStore (setDownloading f b c) = IdStore c" "IdStore (markSynced f i c) = IdStore c"
  "IdStore (SetRoomDirs H name c) = IdStore c" "IdStore (read_done c) = IdStore c"
  by (simp_all add: sendUpdate_def try_post_def to_disk_def make_msg_def queuePending_def group_open_def
      setDownloading_def markSynced_def SetRoomDirs_def read_done_def Let_def case_prod_beta
      split: option.split sum.split)

lemma pins_try_postD: "try_post m c = (b, c') \<Longrightarrow> IdStore c' = IdStore c"
  using pins_simple(2) [of m c] by simp

lemma pins_group_openD: "group_open W m c = (g, c') \<Longrightarrow> IdStore c' = IdStore c"
  using pins_simple(6) [of W m c] by simp

lemma pins_send_block: "send_block m c = Some c' \<Longrightarrow> IdStore c' = IdStore c"
  by (auto simp: send_block_def split: if_splits)

lemma pins_queue [pins]: "IdStore (EnqueueOrSend E m c) = IdStore c"
  by (auto simp: EnqueueOrSend_def pins split: prod.split bool.split dest: pins_try_postD)

lemma pins_publish [pins]: "IdStore (publishSenderKey W c) = IdStore c"
  by (simp add: publishSenderKey_def case_prod_beta pins split: option.split)

lemma pins_flush_msgs [pins]: "IdStore (flush_msgs E ms c) = IdStore c"
proof (induction ms arbitrary: c)
  case (Cons m ms)
  then show ?case by (auto simp: pins split: prod.split bool.split dest: pins_try_postD)
qed simp

lemma pins_flush [pins]: "IdStore (flushQueue E c) = IdStore c"
  by (simp add: flushQueue_def pins split: option.split prod.split)

lemma pins_flush_one [pins]: "IdStore (flush_one W m c) = IdStore c"
  by (auto simp: flush_one_def pins split: prod.split group_result.split dest: pins_group_openD)

lemma pins_fold: "(\<And>x c. IdStore (g x c) = IdStore c) \<Longrightarrow> IdStore (fold g xs c) = IdStore c"
  by (induction xs arbitrary: c) simp_all

lemma pins_flushPending [pins]: "IdStore (flushPending W nick c) = IdStore c"
  by (simp add: flushPending_def pins_fold pins)

lemma pins_reading [pins]:
  "IdStore (check_version m c) = IdStore c" "IdStore (on_file_data m c) = IdStore c"
  "IdStore (on_epoch W m c) = IdStore c" "IdStore (on_sender_key W m c) = IdStore c"
  "IdStore (on_file_offer m c) = IdStore c"
  by (simp_all add: check_version_def on_file_data_def on_epoch_def on_sender_key_def on_file_offer_def
      Let_def case_prod_beta pins split: option.split list.split)

lemma pins_open_group [pins]: "IdStore (snd (open_group W m c)) = IdStore c"
  by (auto simp: open_group_def pins split: prod.split group_result.split dest: pins_group_openD)

lemma pins_sealing [pins]:
  "IdStore (snd (seal_group W m c)) = IdStore c" "IdStore (snd (seal_private W m c)) = IdStore c"
  "IdStore (snd (prepare E m c)) = IdStore c" "IdStore (write_frame W m c) = IdStore c"
proof -
  show sg: "IdStore (snd (seal_group W m c)) = IdStore c" for W :: "'x wire_scheme" and m c
    by (simp add: seal_group_def split: option.split prod.split)
  show sp: "IdStore (snd (seal_private W m c)) = IdStore c" for W :: "'x wire_scheme" and m c
    by (simp add: seal_private_def Let_def split: option.split prod.split)
  show "IdStore (snd (prepare E m c)) = IdStore c"
    by (simp add: prepare_def Let_def case_prod_beta pins sg sp)
  show "IdStore (write_frame W m c) = IdStore c"
    by (simp add: write_frame_def split: option.split prod.split sum.split)
qed

lemma pins_prepareD: "prepare E m c = (x, c') \<Longrightarrow> IdStore c' = IdStore c"
  using pins_sealing(3) [of E m c] by simp

lemma pins_write_next [pins]: "IdStore (write_next E c) = IdStore c"
  by (auto simp: write_next_def pins split: list.split prod.split option.split dest!: pins_prepareD)

lemma pins_file_msg [pins]: "IdStore (snd (file_msg W ty t n c)) = IdStore c"
  by (simp add: file_msg_def case_prod_beta pins)

lemma pins_upload_go [pins]: "IdStore (snd (snd (upload_go E key name i bs c))) = IdStore c"
proof (induction bs arbitrary: i c)
  case (Cons b bs)
  then show ?case by (auto simp: case_prod_beta pins split: option.split prod.split)
qed simp

lemma pins_UploadMux [pins]: "IdStore (snd (UploadMux E p c)) = IdStore c"
  by (simp add: UploadMux_def Let_def case_prod_beta pins split: option.split)

lemma pins_offerFile: "offerFile E p b c = Some c' \<Longrightarrow> IdStore c' = IdStore c"
proof -
  assume o: "offerFile E p b c = Some c'"
  obtain e c1 where u: "UploadMux E p c = (e, c1)" by (cases "UploadMux E p c")
  have "IdStore c1 = IdStore c" using pins_UploadMux [of E p c] by (simp add: u)
  with o show ?thesis
    by (auto simp: offerFile_def u Let_def case_prod_beta pins split: if_splits option.splits
        dest!: pins_send_block)
qed

lemma pins_mux [pins]:
  "IdStore (sync_event p t c) = IdStore c" "IdStore (snd (mux_start E f d c)) = IdStore c"
  "IdStore (snd (mux_take E k f d m c)) = IdStore c"
  by (simp_all add: sync_event_def mux_start_def mux_take_def Let_def case_prod_beta pins split: option.split)

lemma pins_mux_loop [pins]: "IdStore (snd (mux_loop E k f d ms c)) = IdStore c"
proof (induction ms arbitrary: c)
  case (Cons m ms)
  obtain r c1 where t: "mux_take E k f d m c = (r, c1)" by (cases "mux_take E k f d m c")
  have "IdStore c1 = IdStore c" using pins_mux(3) [of E k f d m c] by (simp add: t)
  then show ?case using Cons.IH by (cases r) (simp_all add: t)
qed simp

lemma pins_DownloadMux [pins]: "IdStore (snd (DownloadMux E ms f d c)) = IdStore c"
  by (simp add: DownloadMux_def Let_def case_prod_beta pins)

lemma pins_http [pins]:
  "IdStore (snd (DownloadSharedFile E h f a d c)) = IdStore c"
  "IdStore (snd (DownloadP2PFile E h f o' i d c)) = IdStore c"
  by (auto simp: DownloadSharedFile_def DownloadP2PFile_def Let_def case_prod_beta pins
      split: option.split if_splits bool.split prod.split)

lemma pins_auto [pins]: "IdStore (auto_download E (DownloadMux E ms) h f a s c) = IdStore c"
  by (simp add: auto_download_def Let_def case_prod_beta pins split: option.split)

definition pin_of :: "Cli \<Rightarrow> string \<Rightarrow> string option" where
  "pin_of c = map_of (Identities (IdStore c))"

text \<open>A user list pins what was not pinned.\<close>

lemma pin_listed: "pin_of c nick = Some key \<Longrightarrow> pin_of (on_listed_user E p c) nick = Some key"
proof -
  assume k: "pin_of c nick = Some key"
  have "map_of (Identities (fst (snd (Check E now n b (IdStore c, d))))) nick = Some key" for now n b d
    using Check_effect(1) [of E now n b "(IdStore c, d)"] k by (auto simp: pin_def pin_of_def)
  then show ?thesis
    using k by (auto simp: on_listed_user_def pin_of_def Let_def case_prod_beta pins split: list.split)
qed

lemma pin_fold: "pin_of c nick = Some key \<Longrightarrow> pin_of (fold (on_listed_user E) ps c) nick = Some key"
  by (induction ps arbitrary: c) (simp_all add: pin_listed)

lemma pin_user_list: "pin_of c nick = Some key \<Longrightarrow> pin_of (on_user_list E m c) nick = Some key"
  unfolding on_user_list_def by (rule pin_fold) (simp add: pin_of_def pins)

lemma pin_same: "IdStore c' = IdStore c \<Longrightarrow> pin_of c' = pin_of c"
  by (simp add: pin_of_def)

lemma pin_message:
  assumes "pin_of c nick = Some key" and "on_message E m c = Some c'"
  shows "pin_of c' nick = Some key"
proof -
  have keep: "pin_of (check_version m c) nick = Some key" "pin_of (snd (open_group E m (check_version m c))) nick = Some key"
    using assms(1) by (simp_all add: pin_of_def pins)
  note list = pin_user_list [OF keep(2)]
  show ?thesis
    using assms keep list
    by (auto simp: on_message_def Let_def case_prod_beta split: if_splits dest!: pins_send_block)
      (auto simp: pin_of_def pins)
qed

lemma pin_read: "pin_of c nick = Some key \<Longrightarrow> read_payload E raw c = Some (b, c') \<Longrightarrow> pin_of c' nick = Some key"
  by (auto simp: read_payload_def split: opened.splits dest: pin_message) (simp_all add: pin_of_def pins)

lemma pin_trust: "nick \<noteq> other \<Longrightarrow> pin_of (trust_pinned E other c) nick = pin_of c nick"
  using Trust_effect(1) [of E "c_now c" other "(IdStore c, c_disk c)"]
  by (auto simp: trust_pinned_def pin_of_def pin_def case_prod_beta split: option.splits if_splits)

lemma pins_tick: "heartbeat_tick c = Some c' \<Longrightarrow> IdStore c' = IdStore c"
  by (auto simp: heartbeat_tick_def split: if_splits dest: pins_send_block)

text \<open>Events other than a frame and a decision of the user.\<close>

lemma pins_perform:
  assumes "cli_perform E ev c = Some c'" and "\<And>raw. ev \<noteq> Frame raw" and "\<And>n. ev \<noteq> UserTrust n"
  shows "IdStore c' = IdStore c"
  using assms
proof (cases ev)
  case (FetchRun ms h f a sm)
  then have "c' = auto_download E (DownloadMux E ms) h f a sm c" using assms(1) by simp
  then show ?thesis by (simp only: pins)
next
  case (FetchP2P h f o' i d)
  then have "c' = snd (DownloadP2PFile E h f o' i d c)" using assms(1) by simp
  then show ?thesis by (simp only: pins)
qed (use assms in \<open>auto simp: pins dest: pins_send_block pins_tick pins_offerFile\<close>)

lemma pin_perform:
  assumes "pin_of c nick = Some key" and "cli_perform E ev c = Some c'" and "ev \<noteq> UserTrust nick"
  shows "pin_of c' nick = Some key"
proof -
  consider (read) raw where "ev = Frame raw" | (trust) other where "ev = UserTrust other"
    | (rest) "\<And>raw. ev \<noteq> Frame raw" "\<And>n. ev \<noteq> UserTrust n"
    by blast
  then show ?thesis
  proof cases
    case read
    then show ?thesis using assms(1,2) by (auto dest: pin_read)
  next
    case trust
    with assms(2,3) have "c' = trust_pinned E other c" and "nick \<noteq> other" by auto
    with assms(1) show ?thesis by (simp add: pin_trust)
  next
    case rest
    with pins_perform [OF assms(2)] assms(1) show ?thesis by (simp add: pin_of_def)
  qed
qed

lemma pin_run:
  assumes "cli_run E evs c = Some c'" and "pin_of c nick = Some key" and "UserTrust nick \<notin> set evs"
  shows "pin_of c' nick = Some key"
  using assms(1,2)
proof (rule cli_run_induct [where I = "\<lambda>c. pin_of c nick = Some key"])
  fix ev c1 c2
  assume "ev \<in> set evs" "pin_of c1 nick = Some key" "cli_perform E ev c1 = Some c2"
  with assms(3) show "pin_of c2 nick = Some key" by (auto intro: pin_perform)
qed

section \<open>The inbox during a download\<close>

lemma inbox_queue: "inboxDir (EnqueueOrSend E m c) = inboxDir c"
  by (simp add: EnqueueOrSend_def try_post_def try_send_def to_disk_def)

lemma inbox_mux_loop: "inboxDir (snd (mux_loop E k f d ms c)) = inboxDir c"
proof (induction ms arbitrary: c)
  case (Cons m ms)
  have "inboxDir (snd (mux_take E k f d m c)) = inboxDir c"
    by (simp add: mux_take_def split: option.split)
  then show ?case using Cons.IH by (auto split: prod.split mux_next.split)
qed simp

lemma inbox_mux: "inboxDir (snd (DownloadMux E ms f d c)) = inboxDir c"
  by (simp add: DownloadMux_def mux_start_def file_msg_def make_msg_def Let_def case_prod_beta inbox_queue
      inbox_mux_loop)

end
