(* ===== verification/Sessions.thy ===== *)
theory Sessions
  imports ClientStep HubProperties KeyProperties
begin

text \<open>
  A client and the hub together: both ends compute with the same primitives and codecs (they
  are one program), each with its own random source and disk. The lemmas carry results of one
  end to the other.
\<close>

definition same_world :: "'a wire_scheme \<Rightarrow> 'b wire_scheme \<Rightarrow> bool" where
  "same_world E C \<longleftrightarrow>
     gcm_seal C = gcm_seal E \<and> gcm_open C = gcm_open E \<and> sha256 C = sha256 E \<and> hmac_sha256 C = hmac_sha256 E \<and>
     x25519 C = x25519 E \<and> x25519_base C = x25519_base E \<and> hkdf_sha256 C = hkdf_sha256 E \<and> pbkdf2_sha256 C = pbkdf2_sha256 E \<and>
     ed25519_sign C = ed25519_sign E \<and> ed25519_verify C = ed25519_verify E \<and>
     pb_chat C = pb_chat E \<and> pb_chat_dec C = pb_chat_dec E \<and>
     pb_ke C = pb_ke E \<and> pb_ke_dec C = pb_ke_dec E \<and> pb_hello C = pb_hello E \<and> pb_hello_dec C = pb_hello_dec E \<and>
     pb_ok C = pb_ok E \<and> pb_ok_dec C = pb_ok_dec E \<and> pb_err C = pb_err E \<and> pb_err_dec C = pb_err_dec E"

named_theorems world \<open>results that do not depend on the end that computes them\<close>

lemma world_crypto [world]:
  assumes "same_world E C"
  shows "Decrypt C k b = Decrypt E k b" "DeriveSharedKey C a p = DeriveSharedKey E a p"
    "Verify C pk d sg = Verify E pk d sg" "VerifyPoW C d n w = VerifyPoW E d n w"
    "FileContentKey C t f = FileContentKey E t f" "DecryptChunk C k f i b = DecryptChunk E k f i b"
    "Encode C m = Encode E m" "Decode C b = Decode E b" "hmac_sha256 C = hmac_sha256 E"
    "UnmarshalOK C b = UnmarshalOK E b" "UnmarshalErr C b = UnmarshalErr E b"
  using assms
  by (simp_all add: same_world_def Decrypt_def DeriveSharedKey_def DeriveSessionKey_def Verify_def
      VerifyPoW_def powHash_def FileContentKey_def DecryptChunk_def decryptWithAAD_def Encode_def Decode_def
      UnmarshalOK_def UnmarshalErr_def split: option.split)

section \<open>The handshake\<close>

text \<open>Signatures made with a key pair verify; a key pair is a seed of 32 bytes followed by its
  public half, and that is what a key file holds, when there is one.\<close>

definition sign_ok :: "'a client_env_scheme \<Rightarrow> bool" where
  "sign_ok C \<longleftrightarrow>
     (\<forall>seed data. length seed = 32 \<longrightarrow>
        length (ed25519_pub C seed) = 32 \<and> length (ed25519_sign C (seed @ ed25519_pub C seed) data) = 64 \<and>
        ed25519_verify C (ed25519_pub C seed) data (ed25519_sign C (seed @ ed25519_pub C seed) data))"

definition key_pair :: "'a client_env_scheme \<Rightarrow> bytes \<Rightarrow> bool" where
  "key_pair C sk \<longleftrightarrow> (\<exists>seed. length seed = 32 \<and> sk = seed @ ed25519_pub C seed)"

definition key_files_ok :: "'a client_env_scheme \<Rightarrow> string \<Rightarrow> disk \<Rightarrow> bool" where
  "key_files_ok C nick d \<longleftrightarrow>
     (\<forall>sk. read_disk (IdentityKey C nick) d = Some sk \<longrightarrow> length sk = 64 \<longrightarrow> key_pair C sk) \<and>
     (\<forall>sk. ReadWrapped C (IdentityKeyWrap C nick) (passphrase C) d = Some sk \<longrightarrow> length sk = 64 \<longrightarrow> key_pair C sk)"

lemma loaded_keys:
  assumes "sign_ok C" and "key_files_ok C nick d" and "loadIdentityKeys C now nick (pos, d) = ((pub, sk), x)"
  shows "key_pair C sk \<and> pub = drop 32 sk"
proof -
  have new: "key_pair C (rand_bytes C p 32 @ ed25519_pub C (rand_bytes C p 32))" for p
    unfolding key_pair_def by (intro exI [of _ "rand_bytes C p 32"]) simp
  show ?thesis
    using assms(2,3) new
    by (auto simp: loadIdentityKeys_def key_files_ok_def GenerateSigningKeyPair_def Let_def case_prod_beta
        split: if_splits option.splits)
qed

lemma key_pair_signs:
  assumes "sign_ok C" and "key_pair C sk"
  shows "Verify C (drop 32 sk) data (Sign C sk data)" "length sk = 64"
  using assms by (auto simp: sign_ok_def key_pair_def Verify_def Sign_def)

text \<open>The greeting carries the public half of the hub's key and the challenge.\<close>

lemma greet_frame:
  assumes "pb_handshake_ok E" and "hs_greet E addr H0 = (Some (priv, nonce, w), H1)"
  shows "\<exists>pub payload. ReadFrame (w @ rest) = Inr (payload, rest) \<and> x25519 E priv (x25519_base E) = Some pub \<and>
    pb_ke_dec E payload = Some \<lparr>ke_X25519Pub = pub, ke_Nonce = nonce,
      ke_PowDifficulty = of_nat PoWDifficulty, ke_Version = Version\<rparr> \<and> length nonce = 32 \<and> length priv = 32"
proof -
  obtain pub p1 where k: "GenerateKeyPair E (rpos (Log E (''Incoming connection: '' @ addr) H0)) = ((priv, Some pub), p1)"
    "nonce = fst (GenerateRandomKey E p1)"
    and ke: "\<exists>kb. pb_ke E \<lparr>ke_X25519Pub = pub, ke_Nonce = nonce, ke_PowDifficulty = of_nat PoWDifficulty,
      ke_Version = Version\<rparr> = Some kb \<and> SendFrame kb = Inr w"
    using assms(2)
    by (auto simp: hs_greet_def Let_def case_prod_beta GenerateKeyPair_def split: option.splits sum.splits)
  then show ?thesis
    using assms(1) ReadFrame_SendFrame
    by (fastforce simp: GenerateKeyPair_def Let_def pb_handshake_ok_def GenerateRandomKey_def)
qed

text \<open>What the client answers, for a greeting of the hub.\<close>

lemma hello_made:
  assumes "pb_ke_dec C payload = Some ke" and "ke_X25519Pub ke \<noteq> []" and "ke_Nonce ke \<noteq> []"
    and "unat (ke_PowDifficulty ke) = PoWDifficulty" and "ComputePoW C (ke_Nonce ke) PoWDifficulty = Some n"
    and "x25519 C (rand_bytes C pos 32) (x25519_base C) = Some pub"
    and "DeriveSharedKey C (rand_bytes C pos 32) (ke_X25519Pub ke) = Some key"
    and "\<nexists>x'. client_hello C now nick payload (pos, d) = Some (Inl HelloFailed, x')"
  shows "\<exists>hs x'. client_hello C now nick payload (pos, d) = Some (Inr hs, x') \<and> hl_key hs = key \<and>
    h_X25519Pub (hl_hello hs) = pub \<and> h_Nickname (hl_hello hs) = nick \<and> h_PowNonce (hl_hello hs) = n \<and>
    h_Version (hl_hello hs) = Version \<and> h_SigningPub (hl_hello hs) = hl_idPub hs \<and>
    h_Signature (hl_hello hs) = Sign C (hl_idPriv hs) (ke_Nonce ke) \<and>
    (\<exists>x2. loadIdentityKeys C now nick (pos + 64, d) = ((hl_idPub hs, hl_idPriv hs), x2) \<and>
       h_Identity (hl_hello hs) = own_identity C (snd x2)) \<and>
    (\<exists>hb. pb_hello C (hl_hello hs) = Some hb \<and> SendFrame hb = Inr (hl_frame hs))"
proof -
  have pow: "PoWDifficulty \<noteq> 0" by (simp add: PoWDifficulty_def)
  obtain e2 where e2: "GenerateKeyPair C (pos + 32) = (e2, pos + 64)"
    by (simp add: GenerateKeyPair_def Let_def)
  obtain idPub idPriv p3 d1 where l: "loadIdentityKeys C now nick (pos + 64, d) = ((idPub, idPriv), p3, d1)"
    by (metis prod.collapse)
  show ?thesis
    using assms(8)
    unfolding client_hello_def
    by (auto simp: assms(1-3,5-7) assms(4) pow GenerateKeyPair_def [of C pos] Let_def e2 l case_prod_beta
        split: option.splits sum.splits)
qed

text \<open>The hub lets such a hello through, with the same key.\<close>

lemma hello_accepted:
  assumes "same_world E C" and "dh_commutes E" and "pb_handshake_ok E" and "sign_ok C"
    and "x25519 E priv (x25519_base E) = Some hubPub" and "x25519 E cpriv (x25519_base E) = Some pub"
    and "pub \<noteq> []" and "DeriveSharedKey C cpriv hubPub = Some key"
    and "pb_hello C hello = Some hb" and "h_X25519Pub hello = pub" and "h_Version hello = Version"
    and "h_Nickname hello \<noteq> []" and "length (h_Nickname hello) \<le> 32"
    and "VerifyPoW E nonce (h_PowNonce hello) PoWDifficulty = Some True"
    and "key_pair C sk" and "h_SigningPub hello = drop 32 sk" and "h_Signature hello = Sign C sk nonce"
    and "\<forall>x \<in> set (WhitelistMap H). snd x = h_Nickname hello \<longrightarrow> fst x = Base64Encode (drop 32 sk)"
    and "map_of (BlacklistMap H) (h_Identity hello) = None" and "GetClientByNickname (h_Nickname hello) H = None"
  shows "hs_verify E priv nonce hb H = Pass hello key"
proof -
  have "x25519 E priv pub = x25519 E cpriv hubPub"
    using assms(2,5,6) unfolding dh_commutes_def by metis
  then have "DeriveSharedKey E priv pub = Some key"
    using assms(8) by (simp add: world_crypto [OF assms(1)]) (simp add: DeriveSharedKey_def)
  moreover have "pb_hello_dec E hb = Some hello"
    using assms(1,3,9) by (simp add: same_world_def pb_handshake_ok_def)
  moreover have "Verify E (h_SigningPub hello) nonce (h_Signature hello)"
    using key_pair_signs(1) [OF assms(4,15)] by (simp add: assms(16,17) world_crypto [OF assms(1)])
  moreover have "CompatibleVersion Version Version" by (simp add: CompatibleVersion_def cfg)
  ultimately show ?thesis
    unfolding hs_verify_pass using assms(7,10-14,16,18-20) by (auto simp: split_def)
qed

section \<open>The answer\<close>

lemma ok_answer:
  assumes "pb_handshake_ok W" and "pb_ok W ok = Some b" and "b \<noteq> []" and "length b < MaxFrame"
    and "ok = \<lparr>ok_VaultPort = word_of_int port, ok_Version = Version, ok_Approved = ap\<rparr>"
  shows "\<exists>w. SendHandshakeOK W port ap = Some w \<and> ReadFrame (w @ rest) = Inr (hsOK # b, rest) \<and>
    UnmarshalOK W (hsOK # b) = Some ok \<and> UnmarshalErr W (hsOK # b) = None"
proof -
  obtain w where w: "SendFrame (hsOK # b) = Inr w" using assms(4) by (simp add: SendFrame_def)
  have "pb_ok_dec W b = Some ok" using assms(1,2) by (simp add: pb_handshake_ok_def)
  then show ?thesis
    using assms(2,3,5) ReadFrame_SendFrame [OF w] w
    by (intro exI [of _ w], cases b) (auto simp: SendHandshakeOK_def UnmarshalOK_def UnmarshalErr_def)
qed

text \<open>From a hello that passes to a session on both ends.\<close>

lemma session_opened:
  assumes "same_world E C" and "pb_handshake_ok E" and "hs_verify E priv nonce hb H = Pass hello (hl_key hs)"
    and "\<forall>ap. \<exists>b. pb_ok E \<lparr>ok_VaultPort = word_of_int (HTTPPort H), ok_Version = Version, ok_Approved = ap\<rparr> =
        Some b \<and> b \<noteq> [] \<and> length b < MaxFrame"
  shows "\<exists>r out H' ob c. hs_answer E addr priv nonce (Some hb) True H = ((Some r, Some out), H') \<and>
    ReadFrame (out @ rest) = Inr (ob, rest) \<and> client_finish C now nick address useTor et hs ob x = Inr c \<and>
    map_of (clients H') addr = Some r \<and> EncryptionKey (objs H' r) = SessionKey c"
proof -
  obtain r known H1 where reg: "hs_register E addr hello (hl_key hs) H = ((r, known), H1)"
    by (metis prod.collapse)
  note eff = register_effect [OF reg]
  define ok where "ok = \<lparr>ok_VaultPort = (word_of_int (HTTPPort H) :: 32 word), ok_Version = Version,
      ok_Approved = known \<or> AutoApprove H1\<rparr>"
  obtain b where b: "pb_ok E ok = Some b" "b \<noteq> []" "length b < MaxFrame"
    using assms(4) unfolding ok_def by blast
  obtain out where out: "SendHandshakeOK E (HTTPPort H) (known \<or> AutoApprove H1) = Some out"
    "ReadFrame (out @ rest) = Inr (hsOK # b, rest)" "UnmarshalOK E (hsOK # b) = Some ok"
    "UnmarshalErr E (hsOK # b) = None"
    using ok_answer [OF assms(2) b ok_def, of rest] by blast
  have "client_finish C now nick address useTor et hs (hsOK # b) x =
      Inr (new_cli C now nick address useTor et hs (sint (ok_VaultPort ok)) x)"
    by (simp add: client_finish_def world_crypto [OF assms(1)] out)
  then show ?thesis
    using out(1,2)
    by (simp add: hs_answer_def assms(3) reg eff(9))
      (auto simp: upd_obj_apply hs_welcome_objs eff(3,7) update_conv')
qed

text \<open>A base point multiplication succeeds with 32 bytes, and so does the exchange of two public
  keys made that way.\<close>

definition x25519_ok :: "'a prims_scheme \<Rightarrow> bool" where
  "x25519_ok P \<longleftrightarrow>
     (\<forall>a. length a = 32 \<longrightarrow> (\<exists>p. x25519 P a (x25519_base P) = Some p \<and> length p = 32)) \<and>
     (\<forall>a b p. length a = 32 \<longrightarrow> length b = 32 \<longrightarrow> x25519 P b (x25519_base P) = Some p \<longrightarrow> x25519 P a p \<noteq> None)"

section \<open>A chat message from end to end\<close>

lemma world_laws:
  assumes "same_world E C" and "wire_ok E"
  shows "gcm_correct C" and "pb_chat_ok C" and "ascii_msg m \<Longrightarrow> Encode C m \<noteq> None"
  using assms
  by (simp_all add: same_world_def wire_ok_def gcm_correct_def pb_chat_ok_def pb_ascii_ok_def Encode_def)

text \<open>Base64 text never looks like an error frame.\<close>

lemma not_error_frame: "Base64Decode p = Some b \<Longrightarrow> \<not> HasPrefix p ''ERROR:''"
proof
  assume d: "Base64Decode p = Some b" and e: "HasPrefix p ''ERROR:''"
  then obtain t where p: "p = ''ERROR:'' @ t"
    by (metis HasPrefix_def append_take_drop_id)
  then have "unwrap_lines p = ''ERROR:'' @ unwrap_lines t" by (simp add: unwrap_lines_def)
  moreover have "index_of (CHR '':'') std_alphabet = None" by (simp add: std_alphabet_def)
  ultimately have "\<not> snd (Base64DecodeErr p)"
    by (cases "unwrap_lines t"; cases "tl (unwrap_lines t)")
      (simp_all add: Base64DecodeErr_def alphabets case_prod_beta split: option.split list.split)
  then show False using d by (simp add: Base64Decode_def case_prod_beta split: if_splits)
qed

lemma key_at_size: "kdf_sizes P \<Longrightarrow> aes_key_ok (key_at (hmac_sha256 P) seed n)"
  by (simp add: key_at_def kdf_def kdf_sizes_def aes_key_ok_def)

text \<open>What the member's write loop puts on the wire: the message as sealed for the room, which
  the hub can open with the session key.\<close>

definition sealed_chat :: "ChatMessage \<Rightarrow> string \<Rightarrow> bytes \<Rightarrow> 32 word \<Rightarrow> ChatMessage" where
  "sealed_chat m rm ct step =
     m\<lparr>OnionAddr := (if OnionAddr m = [] then rm else OnionAddr m), Content := Base64Encode ct, RatchetStep := step,
       IsE2Ee := True\<rparr>"

lemma chat_prepared:
  assumes "Type m = MsgTypeChat" and "\<not> HasMismatch (IdStore c)" and "Senders c = Some s"
    and "own_chain s = Some ra" and "ratchet_inv (hmac_sha256 C) seed used ra" and "rstep ra \<noteq> - 1"
    and "kdf_sizes C" and "gcm_correct C"
  shows "\<exists>ct s1 p r'. prepare C m c =
      (Some (sealed_chat m (CurrentRoom c) ct (rstep ra)), c\<lparr>Senders := Some s1, c_pos := p\<rparr>) \<and>
    Decrypt C (key_at (hmac_sha256 C) seed (unat (rstep ra))) ct = Some (Content m) \<and>
    own_chain s1 = Some r' \<and> ratchet_inv (hmac_sha256 C) seed (insert (rstep ra) used) r' \<and> rstep r' = rstep ra + 1"
proof -
  let ?mk = "key_at (hmac_sha256 C) seed (unat (rstep ra))"
  obtain r' where n: "Next (hmac_sha256 C) ra = ((?mk, rstep ra), r')"
    "ratchet_inv (hmac_sha256 C) seed (insert (rstep ra) used) r'" "rstep r' = rstep ra + 1"
    using Next_inv [OF assms(5,6)] by blast
  obtain s1 where s1: "NextSend (hmac_sha256 C) s = (Some (?mk, rstep ra), s1)"
    using send_own(1) [OF assms(4) n(1)] by (metis prod.collapse)
  have own: "own_chain s1 = Some r'" using send_own(2) [OF assms(4) n(1)] by (simp add: s1)
  obtain ct where ct: "Encrypt C (c_pos c) ?mk (Content m) = (Some ct, c_pos c + nonceSize)"
    using Encrypt_total key_at_size [OF assms(7)] by blast
  let ?m = "if OnionAddr m = [] then m\<lparr>OnionAddr := CurrentRoom c\<rparr> else m"
  have "prepare C m c = (let (m1, c1) = seal_group C ?m c in (Some m1, c1))"
    using assms(1,2) by (simp add: prepare_def Let_def)
  also have "seal_group C ?m c = (?m\<lparr>Content := Base64Encode ct, RatchetStep := rstep ra, IsE2Ee := True\<rparr>,
      c\<lparr>Senders := Some s1, c_pos := c_pos c + nonceSize\<rparr>)"
    using s1 ct by (simp add: seal_group_def assms(3))
  finally have "prepare C m c = (Some (sealed_chat m (CurrentRoom c) ct (rstep ra)),
      c\<lparr>Senders := Some s1, c_pos := c_pos c + nonceSize\<rparr>)"
    by (simp add: sealed_chat_def)
  then show ?thesis
    using Decrypt_Encrypt [OF assms(8) ct] own n(2,3)
    by (intro exI [of _ ct] exI [of _ s1] exI [of _ "c_pos c + nonceSize"] exI [of _ r']) simp
qed

text \<open>Any message that leaves the write loop arrives at the hub as the write loop prepared it.\<close>

lemma frame_written:
  assumes "same_world E C" and "wire_ok E" and "sendq c = m # ms"
    and "prepare C m (c\<lparr>sendq := ms\<rparr>) = (Some m1, c1)" and "wire_out c1 = wire_out c"
    and "SessionKey c1 = SessionKey c" and "aes_key_ok (SessionKey c)" and "ascii_msg m1"
    and "wire_out (write_next C c) \<noteq> wire_out c"
  shows "\<exists>w txt bs enc. wire_out (write_next C c) = wire_out c @ w \<and> ReadFrame w = Inr (txt, []) \<and>
    Base64Decode txt = Some enc \<and> Decrypt E (SessionKey c) enc = Some bs \<and>
    Encode E m1 = Some bs \<and> Decode E bs = Some m1"
proof -
  note laws = world_laws [OF assms(1,2)] and world = world_crypto [OF assms(1)]
  obtain bs where bs: "Encode C m1 = Some bs" "Decode C bs = Some m1"
    using laws(2) laws(3) [OF assms(8)] by (auto simp: pb_chat_ok_def Encode_def Decode_def)
  obtain enc where enc: "Encrypt C (c_pos c1) (SessionKey c) bs = (Some enc, c_pos c1 + nonceSize)"
    using Encrypt_total assms(7) by blast
  obtain w where w: "SendFrame (Base64Encode enc) = Inr w" "wire_out (write_next C c) = wire_out c @ w"
    using assms(9)
    by (auto simp: write_next_def assms(3-6) write_frame_def bs(1) enc split: sum.splits if_splits)
  show ?thesis
    using ReadFrame_SendFrame [OF w(1), of "[]"] w(2) Decrypt_Encrypt [OF laws(1) enc] bs
    by (intro exI [of _ w] exI [of _ "Base64Encode enc"] exI [of _ bs] exI [of _ enc]) (simp add: world)
qed

lemma chat_written:
  assumes "same_world E C" and "wire_ok E" and "sendq c = m # ms" and "Type m = MsgTypeChat"
    and "\<not> HasMismatch (IdStore c)" and "Senders c = Some s"
    and "own_chain s = Some ra" and "ratchet_inv (hmac_sha256 C) seed used ra" and "rstep ra \<noteq> - 1"
    and "kdf_sizes C" and "aes_key_ok (SessionKey c)"
    and "ascii_msg (m\<lparr>Content := []\<rparr>)" and "ascii (CurrentRoom c)"
    and "wire_out (write_next C c) \<noteq> wire_out c"
  shows "\<exists>w txt ct bs enc. wire_out (write_next C c) = wire_out c @ w \<and> ReadFrame w = Inr (txt, []) \<and>
    Base64Decode txt = Some enc \<and> Decrypt E (SessionKey c) enc = Some bs \<and>
    Encode E (sealed_chat m (CurrentRoom c) ct (rstep ra)) = Some bs \<and>
    Decode E bs = Some (sealed_chat m (CurrentRoom c) ct (rstep ra)) \<and>
    Decrypt E (key_at (hmac_sha256 E) seed (unat (rstep ra))) ct = Some (Content m)"
proof -
  note laws = world_laws [OF assms(1,2)] and world = world_crypto [OF assms(1)]
  let ?c = "c\<lparr>sendq := ms\<rparr>"
  obtain ct s1 n where p: "prepare C m ?c =
      (Some (sealed_chat m (CurrentRoom c) ct (rstep ra)), ?c\<lparr>Senders := Some s1, c_pos := n\<rparr>)"
    "Decrypt C (key_at (hmac_sha256 C) seed (unat (rstep ra))) ct = Some (Content m)"
    using chat_prepared [OF assms(4), of ?c s ra C seed used] assms(5-10) laws(1) by auto
  let ?m = "sealed_chat m (CurrentRoom c) ct (rstep ra)"
  have "ascii_msg ?m" using assms(12,13) by (simp add: ascii_msg_def sealed_chat_def)
  from frame_written [OF assms(1-3) p(1) _ _ assms(11) this assms(14)] p(2)
  show ?thesis by (auto simp: world)
qed

text \<open>What the other member's read loop makes of it.\<close>

lemma chat_read:
  assumes "received C (SessionKey c) p = Some (sealed_chat m rm ct step)" and "Type m = MsgTypeChat"
    and "Sender m \<noteq> c_Nickname c" and "Senders c = Some s" and "peer_chain s (Sender m) = Some rb"
    and "ratchet_inv (hmac_sha256 C) seed used rb" and "step \<noteq> - 1" and "step \<notin> used"
    and "step < rstep rb \<or> step - rstep rb \<le> 100"
    and "Decrypt C (key_at (hmac_sha256 C) seed (unat step)) ct = Some pt"
    and "length (updates c) < UpdateCap"
  shows "\<exists>c'. read_payload C p c = Some (True, c') \<and>
    updates c' = updates c @ [(sealed_chat m rm ct step)\<lparr>Content := pt\<rparr>]"
proof -
  let ?m = "sealed_chat m rm ct step"
  obtain enc bs where d: "Base64Decode p = Some enc" "Decrypt C (SessionKey c) enc = Some bs" "Decode C bs = Some ?m"
    using assms(1) by (auto simp: received_def opened_def bind_eq_Some_conv)
  have frame: "open_frame C (SessionKey c) p = Incoming ?m"
    using not_error_frame [OF d(1)] by (simp add: open_frame_def d)
  obtain a r' where g: "GetMessageKey (hmac_sha256 C) step rb = (a, r')" by fastforce
  have "a = Inr (key_at (hmac_sha256 C) seed (unat step))"
    using GetMessageKey_window [OF assms(6,7)] assms(8,9) g by (cases a) auto
  then obtain s1 where r: "Recv (hmac_sha256 C) (Sender m) step s =
      (Inr (key_at (hmac_sha256 C) seed (unat step)), s1)"
    using recv_peer(1) [OF assms(5) g] by (metis id_apply map_sum.simps(2) prod.collapse)
  have "group_open C ?m c = (Opened pt, c\<lparr>Senders := Some s1\<rparr>)"
    by (simp add: group_open_def sealed_chat_def assms(4) r assms(10))
  then show ?thesis
    using assms(2,3,11)
    by (simp add: read_payload_def frame on_message_def check_version_def open_group_def open_private_def
        sealed_chat_def sendUpdate_def try_send_def cfg)
qed

end
