(* ===== verification/Transfers.thy ===== *)
theory Transfers
  imports Sessions
begin

text \<open>
  A file on its way through the vault: the messages an upload queues, what the hub stores of
  them, and what the download of another member writes.
\<close>

section \<open>The upload\<close>

definition is_put :: "string \<Rightarrow> ChatMessage \<Rightarrow> nat \<times> bytes \<Rightarrow> bool" where
  "is_put name m x \<longleftrightarrow> FileId m = name \<and> ChunkIdx m = int (fst x) \<and> Content m = Base64Encode (snd x)"

lemma put_cong:
  assumes "FileId m = FileId n" and "ChunkIdx m = ChunkIdx n" and "Content m = Content n"
  shows "handleFilePut E r m H = handleFilePut E r n H"
  unfolding handleFilePut_def assms ..

lemma put_like: "is_put name m x \<Longrightarrow> handleFilePut E r m H = handleFilePut E r (put_msg name x) H"
  by (rule put_cong) (simp_all add: is_put_def put_msg_def)

lemma puts_stored:
  "list_all2 (is_put name) ms (enumerate i cts) \<Longrightarrow> fold (handleFilePut E r) ms H = put_all E r name i cts H"
proof (induction cts arbitrary: ms i H)
  case (Cons ct cts)
  then obtain m ms' where ms: "ms = m # ms'" "is_put name m (i, ct)" "list_all2 (is_put name) ms' (enumerate (Suc i) cts)"
    by (auto simp: list_all2_Cons2)
  show ?case using Cons.IH [OF ms(3)] by (simp add: ms(1) put_all_def put_like [OF ms(2)])
qed (simp add: put_all_def)

lemma enqueue_room:
  "length (sendq c) < SendCap \<Longrightarrow> EnqueueOrSend E m c = c\<lparr>sendq := sendq c @ [m]\<rparr>"
  by (simp add: EnqueueOrSend_def try_post_def try_send_def)

lemma file_msg_fields:
  "snd (file_msg E ty t name c) = c\<lparr>c_pos := c_pos c + 8\<rparr>"
  "FileId (fst (file_msg E ty t name c)) = name" "Content (fst (file_msg E ty t name c)) = t"
  "Type (fst (file_msg E ty t name c)) = ty"
  by (simp_all add: file_msg_def make_msg_def case_prod_beta)

lemma upload_puts:
  assumes "gcm_correct C" and "gcm_overhead C" and "aes_key_ok key"
    and "length (sendq c) + length bs \<le> SendCap" and "\<forall>b \<in> set bs. length b \<le> ChunkSize"
  shows "\<exists>ms cts p. upload_go C key name i bs c = (True, i + length bs, c\<lparr>sendq := sendq c @ ms, c_pos := p\<rparr>) \<and>
    list_all2 (is_put name) ms (enumerate i cts) \<and> opens C key name (of_nat i) cts bs"
  using assms(4,5)
proof (induction bs arbitrary: i c)
  case Nil
  show ?case by (intro exI [of _ "[]"] exI [of _ "c_pos c"]) simp
next
  case (Cons b bs)
  obtain ct where ct: "EncryptChunk C (c_pos c) key name (of_nat i) b = (Some ct, c_pos c + nonceSize)"
    using encryptWithAAD_total [OF assms(3)] unfolding EncryptChunk_def by blast
  have sealed: "0 < length ct \<and> length ct \<le> 2 * ChunkSize \<and> DecryptChunk C key name (of_nat i) ct = Some b"
    by (rule sealed_chunk [OF assms(1,2) ct]) (use Cons.prems(2) in simp)
  let ?c0 = "c\<lparr>c_pos := c_pos c + nonceSize\<rparr>"
  let ?m = "(fst (file_msg C MsgTypeFilePut (Base64Encode ct) name ?c0))\<lparr>ChunkIdx := int i\<rparr>"
  let ?c1 = "c\<lparr>c_pos := c_pos c + nonceSize + 8, sendq := sendq c @ [?m]\<rparr>"
  have step: "upload_go C key name i (b # bs) c = upload_go C key name (Suc i) bs ?c1"
    using Cons.prems(1) by (simp add: ct case_prod_beta file_msg_fields(1) enqueue_room)
  have "length (sendq ?c1) + length bs \<le> SendCap" "\<forall>b \<in> set bs. length b \<le> ChunkSize"
    using Cons.prems by simp_all
  from Cons.IH [OF this, of "Suc i"] obtain ms cts p where IH:
    "upload_go C key name (Suc i) bs ?c1 = (True, Suc i + length bs, ?c1\<lparr>sendq := sendq ?c1 @ ms, c_pos := p\<rparr>)"
    "list_all2 (is_put name) ms (enumerate (Suc i) cts)" "opens C key name (of_nat (Suc i)) cts bs"
    by blast
  have "is_put name ?m (i, ct)" by (simp add: is_put_def file_msg_fields)
  moreover have "opens C key name (of_nat i) (ct # cts) (b # bs)"
    using sealed IH(3) by (simp add: add.commute)
  ultimately show ?case
    using IH(1,2) step by (intro exI [of _ "?m # ms"] exI [of _ "ct # cts"] exI [of _ p]) simp
qed

text \<open>A whole upload queues the chunks and an end message.\<close>

lemma upload_queues:
  assumes "gcm_correct C" and "gcm_overhead C" and "kdf_sizes C" and "read_disk path (c_disk c) = Some f"
    and "UploadMux C path c = (None, c1)" and "length (sendq c) + length (chunks_of f) < SendCap"
  shows "\<exists>ms cts fin. sendq c1 = sendq c @ ms @ [fin] \<and> list_all2 (is_put (Base path)) ms (enumerate 0 cts) \<and>
    opens C (FileContentKey C (c_VaultToken c) (Base path)) (Base path) 0 cts (chunks_of f) \<and>
    FileId fin = Base path \<and> ChunkIdx fin = -1 \<and> TotalChunks fin = int (length cts)"
proof -
  let ?key = "FileContentKey C (c_VaultToken c) (Base path)"
  have key: "aes_key_ok ?key" using assms(3) by (simp add: FileContentKey_def kdf_sizes_def)
  obtain ms cts p where up: "upload_go C ?key (Base path) 0 (chunks_of f) c =
      (True, 0 + length (chunks_of f), c\<lparr>sendq := sendq c @ ms, c_pos := p\<rparr>)"
    "list_all2 (is_put (Base path)) ms (enumerate 0 cts)" "opens C ?key (Base path) (of_nat 0) cts (chunks_of f)"
    using upload_puts [OF assms(1,2) key, of c "chunks_of f" "Base path" 0] assms(6) chunks_of_size by fastforce
  have len: "length ms = length (chunks_of f)" "length cts = length (chunks_of f)"
    using list_all2_lengthD [OF up(2)] opens_length [OF up(3)] by simp_all
  let ?c0 = "c\<lparr>sendq := sendq c @ ms, c_pos := p\<rparr>"
  let ?fin = "(fst (file_msg C MsgTypeFilePut [] (Base path) ?c0))\<lparr>ChunkIdx := -1, TotalChunks := int (length cts)\<rparr>"
  have "sendq c1 = sendq c @ ms @ [?fin]"
    using assms(4-6) up(1) len
    by (auto simp: UploadMux_def Let_def case_prod_beta file_msg_fields(1) enqueue_room split: if_splits)
  then show ?thesis
    using up(2,3) by (intro exI [of _ ms] exI [of _ cts] exI [of _ ?fin]) (auto simp: file_msg_fields)
qed

section \<open>The download\<close>

definition is_got :: "ChatMessage \<Rightarrow> nat \<times> bytes \<Rightarrow> bool" where
  "is_got m x \<longleftrightarrow> ChunkIdx m = int (fst x) \<and> Base64Decode (Content m) = Some (snd x)"

lemma mux_loop_chunks:
  assumes "can_write D (JoinPath [dest, name])" and "ChunkIdx fin < 0"
  shows "list_all2 is_got ms (enumerate i cts) \<Longrightarrow> opens D key name (of_nat i) cts pts \<Longrightarrow>
    read_disk (JoinPath [dest, name]) (c_disk c) = Some old \<Longrightarrow>
    \<exists>c'. mux_loop D key name dest (ms @ fin # tl0) c = (None, c') \<and>
      read_disk (JoinPath [dest, name]) (c_disk c') = Some (old @ concat pts)"
proof (induction cts arbitrary: ms i pts c old)
  case Nil
  then show ?case using assms(2) by (cases pts) (simp_all add: mux_take_def)
next
  case (Cons ct cts)
  then obtain m ms' where ms: "ms = m # ms'" "is_got m (i, ct)" "list_all2 is_got ms' (enumerate (Suc i) cts)"
    by (auto simp: list_all2_Cons2)
  obtain pt pts' where pts: "pts = pt # pts'" using Cons.prems(2) by (cases pts) auto
  let ?path = "JoinPath [dest, name]"
  let ?c1 = "c\<lparr>c_disk := snd (append_disk D (c_now c) ?path pt (c_disk c))\<rparr>"
  have take: "mux_take D key name dest m c = (More, ?c1)"
    using ms(2) Cons.prems(2) by (simp add: mux_take_def is_got_def pts)
  have "read_disk ?path (c_disk ?c1) = Some (old @ pt)"
    using assms(1) Cons.prems(3) by (simp add: read_disk_append)
  then have "\<exists>c'. mux_loop D key name dest (ms' @ fin # tl0) ?c1 = (None, c') \<and>
      read_disk ?path (c_disk c') = Some ((old @ pt) @ concat pts')"
    using Cons.prems(2) by (intro Cons.IH [OF ms(3)]) (simp_all add: pts add.commute)
  then show ?case by (simp add: ms(1) pts take)
qed

lemma download_writes:
  assumes "can_write D (JoinPath [dest, name])" and "\<not> is_dir D (JoinPath [dest, name])" and "Base name = name"
    and "ChunkIdx fin < 0" and "list_all2 is_got ms (enumerate 0 cts)"
    and "opens D (FileContentKey D (c_VaultToken d) name) name 0 cts pts"
    and "queueFile d \<noteq> JoinPath [dest, name]"
  shows "\<exists>d'. DownloadMux D (ms @ fin # tl0) name dest d = (None, d') \<and>
    read_disk (JoinPath [dest, name]) (c_disk d') = Some (concat pts)"
proof -
  obtain c1 where c1: "mux_start D name dest d = (True, c1)" "c_VaultToken c1 = c_VaultToken d"
    "read_disk (JoinPath [dest, name]) (c_disk c1) = Some []"
    using assms(1,2)
    by (auto simp: mux_start_def Let_def case_prod_beta read_disk_write file_msg_fields(1) EnqueueOrSend_def
        to_disk_def try_post_def split: prod.splits bool.splits)
  obtain c2 where "mux_loop D (FileContentKey D (c_VaultToken c1) name) name dest (ms @ fin # tl0) c1 = (None, c2)"
    "read_disk (JoinPath [dest, name]) (c_disk c2) = Some ([] @ concat pts)"
    using mux_loop_chunks [OF assms(1,4,5) _ c1(3), of "FileContentKey D (c_VaultToken d) name" pts tl0] assms(6) c1(2)
    by auto
  then show ?thesis by (simp add: DownloadMux_def assms(3) c1(1))
qed

section \<open>From one member to another\<close>

lemma world_opens: "same_world E C \<Longrightarrow> opens C key name i cts pts = opens E key name i cts pts"
  by (induction E key name i cts pts rule: opens.induct) (simp_all add: world)

lemma opens_sizes: "opens P key name i cts pts \<Longrightarrow> ct \<in> set cts \<Longrightarrow> 0 < length ct \<and> length ct \<le> 2 * ChunkSize"
  by (induction P key name i cts pts rule: opens.induct) auto

lemma chunks_got:
  "list_all2 (is_chunk E key name) ps xs \<Longrightarrow> list_all2 is_got (map (the \<circ> received E key) ps) xs"
  unfolding list_all2_map1
  by (erule list_all2_mono) (auto simp: is_chunk_def is_got_def split: option.splits)

text \<open>Of the payloads a client reads, those its read loop hands to the download of a file.\<close>

definition routed :: "'a wire_scheme \<Rightarrow> bytes \<Rightarrow> string \<Rightarrow> string list \<Rightarrow> ChatMessage list" where
  "routed W key name ps =
     filter (\<lambda>m. Type m = MsgTypeFileData \<and> FileId m = name) (List.map_filter (received W key) ps)"

lemma routed_simps [simp]:
  "routed W key name [] = []"
  "routed W key name (p # ps) =
     (case received W key p of None \<Rightarrow> []
      | Some m \<Rightarrow> if Type m = MsgTypeFileData \<and> FileId m = name then [m] else []) @ routed W key name ps"
  by (simp_all add: routed_def List.map_filter_simps split: option.split)

lemma routed_append: "routed W key name (ps @ qs) = routed W key name ps @ routed W key name qs"
  by (induction ps) simp_all

lemma routed_chunks:
  "list_all2 (is_chunk E key name) ps xs \<Longrightarrow> routed E key name ps = map (the \<circ> received E key) ps"
  by (induction rule: list_all2_induct) (auto simp: is_chunk_def split: option.splits)

text \<open>What the hub stores of an upload, and how it sends it back.\<close>

lemma hub_passes_on:
  assumes "wire_ok E" and "ascii name" and "good_comp name"
    and "can_write E (JoinPath [VaultDir H, name])" and "\<not> is_dir E (JoinPath [VaultDir H, name])"
    and "list_all2 (is_put name) ms (enumerate 0 cts)" and "cts \<noteq> []"
    and "\<forall>ct \<in> set cts. 0 < length ct \<and> length ct \<le> 8 * 1024 * 1024" and "FileId fin = name" and "ChunkIdx fin = -1"
    and "aes_key_ok (EncryptionKey (objs H g))" and "length (SendChan (objs H g)) + length cts < 100"
    and "FileId req = name"
  shows "\<exists>ps end f. SendChan (objs (handleFileGet E g req (fold (handleFilePut E r) (ms @ [fin]) H)) g) =
      SendChan (objs H g) @ ps @ [end] \<and>
    list_all2 (is_chunk E (EncryptionKey (objs H g)) name) ps (enumerate 0 cts) \<and>
    received E (EncryptionKey (objs H g)) end = Some f \<and> Type f = MsgTypeFileData \<and> FileId f = name \<and>
    ChunkIdx f = -1"
proof -
  have name: "Base name = name" "name \<noteq> []" "name \<noteq> ''.''"
    using assms(3) Base_comp by (auto simp: good_comp_def)
  let ?path = "JoinPath [VaultDir H, name]"
  obtain f where f: "put_all E r name 0 cts H = H\<lparr>disk := (disk H)(?path \<mapsto> f)\<rparr>"
    "content f = concat (map put_record cts)"
    using put_all_content [OF name assms(4,5,7)] by blast
  let ?H1 = "H\<lparr>disk := (disk H)(?path \<mapsto> f)\<rparr>"
  let ?H2 = "Log E (''[VAULT-MUX] '' @ Nickname (objs ?H1 r) @ '' put '' @ name @ '' done'') ?H1"
  have "fold (handleFilePut E r) (ms @ [fin]) H = ?H2"
    using name by (simp add: puts_stored [OF assms(6)] f(1) handleFilePut_def [of E r fin] assms(9,10))
  moreover have "SendChan (objs ?H2 g) = SendChan (objs H g)" by (simp add: Log_def push_console_def)
  moreover have all: "takeWhile (\<lambda>ct. ct \<noteq> []) cts = cts" using assms(8) by (intro takeWhile_eq_all_conv [THEN iffD2]) auto
  ultimately show ?thesis
    using get_file [OF assms(1,2) name, of ?H2 f cts g req] all assms(5,8,11-13) f(2) by auto
qed

text \<open>Of an empty file there is only the end message: the hub stores nothing, and answers a request for
  it with a notice when it has no older file of that name.\<close>

lemma system_received:
  assumes "wire_ok E" and "ascii txt" and "aes_key_ok (EncryptionKey (objs H g))" and "has_room H g"
  shows "\<exists>p m. SendChan (objs (SendSystemMessage E g txt H) g) = SendChan (objs H g) @ [p] \<and>
    received E (EncryptionKey (objs H g)) p = Some m \<and> Type m = MsgTypeSystem"
proof -
  let ?m = "fst (new_msg E MsgTypeSystem txt ''SERVER'' H)"
  have "ascii MsgTypeSystem" "ascii ''SERVER''" by (simp_all add: ascii_def cfg)
  then have "ascii_msg ?m" using assms(1,2) by (simp add: fst_new_msg ascii_CreateMessage wire_ok_def)
  then obtain b where b: "Encode E ?m = Some b" "Decode E b = Some ?m"
    using assms(1) by (metis Encode_ascii wire_ok_def)
  have "gains E (nil_or (Encode E ?m)) H (SendSystemMessage E g txt H) (g = g \<and> has_room H g) g"
    by (rule SendSystemMessage_gains) (use assms(1,3) in \<open>simp_all add: wire_ok_def\<close>)
  then obtain p where "SendChan (objs (SendSystemMessage E g txt H) g) = SendChan (objs H g) @ [p]"
    "received E (EncryptionKey (objs H g)) p = Some ?m"
    using assms(4) by (auto simp: gains_def b received_def nil_or_def)
  moreover have "Type ?m = MsgTypeSystem" by (simp add: fst_new_msg)
  ultimately show ?thesis by blast
qed

lemma hub_has_nothing:
  assumes "wire_ok E" and "ascii name" and "good_comp name"
    and "disk H (JoinPath [VaultDir H, name]) = None" and "\<not> is_dir E (JoinPath [VaultDir H, name])"
    and "FileId fin = name" and "ChunkIdx fin = -1" and "FileId req = name"
    and "aes_key_ok (EncryptionKey (objs H g))" and "length (SendChan (objs H g)) < 100"
  shows "\<exists>p. SendChan (objs (handleFileGet E g req (handleFilePut E r fin H)) g) = SendChan (objs H g) @ [p] \<and>
    routed E (EncryptionKey (objs H g)) name [p] = []"
proof -
  have name: "Base name = name" "name \<noteq> []" "name \<noteq> ''.''"
    using assms(3) Base_comp by (auto simp: good_comp_def)
  let ?H1 = "Log E (''[VAULT-MUX] '' @ Nickname (objs H r) @ '' put '' @ name @ '' done'') H"
  let ?txt = "''file not in vault: '' @ name"
  have put: "handleFilePut E r fin H = ?H1" using name assms(6,7) by (simp add: handleFilePut_def)
  have get: "handleFileGet E g req ?H1 = SendSystemMessage E g ?txt ?H1"
    using name assms(4,5,8) by (simp add: handleFileGet_def read_open_def)
  have chan: "SendChan (objs ?H1 g) = SendChan (objs H g)" by (simp add: Log_def push_console_def)
  have "ascii ?txt" using assms(2) by (simp add: ascii_def)
  from system_received [OF assms(1) this, of ?H1 g] obtain p m where
    "SendChan (objs (SendSystemMessage E g ?txt ?H1) g) = SendChan (objs H g) @ [p]"
    "received E (EncryptionKey (objs H g)) p = Some m" "Type m = MsgTypeSystem"
    using assms(9,10) by (auto simp: has_room_def chan)
  then show ?thesis unfolding put get by (auto simp: cfg)
qed

lemma download_waits:
  assumes "can_write D (JoinPath [dest, name])" and "\<not> is_dir D (JoinPath [dest, name])" and "Base name = name"
  shows "\<exists>d'. DownloadMux D [] name dest d = (Some Timeout, d')"
proof -
  have "fst (mux_start D name dest d)"
    using assms(1,2) by (simp add: mux_start_def Let_def case_prod_beta)
  then show ?thesis using assms(3) by (simp add: DownloadMux_def Let_def case_prod_beta)
qed

end
