(* ===== verification/FileSync.thy ===== *)
theory FileSync
  imports Host
begin

text \<open>
  \<^verbatim>\<open>internal/filesync/watch.go\<close>: which files of a directory are reported. A
  directory listing (files whose information could be read, in the order of
  \<^verbatim>\<open>os.ReadDir\<close>) and the notifications of the operating system are arguments.
\<close>

record file_info =
  fi_name :: string
  fi_mod :: int
  fi_dir :: bool

record watcher =
  w_dir :: string
  w_interval :: int
  w_stopped :: bool

definition NewWatcher :: "string \<Rightarrow> int \<Rightarrow> watcher" where
  "NewWatcher dir interval =
     \<lparr>w_dir = dir, w_interval = (if interval \<le> 0 then second else interval), w_stopped = False\<rparr>"

definition StopWatcher :: "watcher \<Rightarrow> watcher" where
  "StopWatcher w = w\<lparr>w_stopped := True\<rparr>"

type_synonym seen = "string \<Rightarrow> int option"

fun scan_go ::
  "string \<Rightarrow> file_info list \<Rightarrow> seen \<Rightarrow> (string \<times> file_info) list \<times> seen" where
  "scan_go dir [] s = ([], s)"
| "scan_go dir (e # es) s =
     (if (case s (fi_name e) of None \<Rightarrow> False | Some t0 \<Rightarrow> \<not> fi_mod e > t0) then scan_go dir es s
      else
        (let (out, s') = scan_go dir es (s(fi_name e \<mapsto> fi_mod e))
         in ((JoinPath [dir, fi_name e], e) # out, s')))"

definition scan ::
  "watcher \<Rightarrow> file_info list option \<Rightarrow> seen \<Rightarrow> (string \<times> file_info) list \<times> seen" where
  "scan w entries s = (case entries of None \<Rightarrow> ([], s) | Some es \<Rightarrow> scan_go (w_dir w) es s)"

datatype fs_op = Create | Write | Rename | Remove | Chmod

definition fs_event ::
  "(string \<Rightarrow> file_info option) \<Rightarrow> string \<Rightarrow> fs_op list \<Rightarrow> (string \<times> file_info) list" where
  "fs_event stat name ops =
     (if Create \<notin> set ops \<and> Write \<notin> set ops \<and> Rename \<notin> set ops then []
      else case stat name of None \<Rightarrow> [] | Some info \<Rightarrow> [(name, info)])"

text \<open>With notifications every file is reported once at the start; without, the directory is
  scanned at every tick against what was seen.\<close>

definition watch_start :: "watcher \<Rightarrow> file_info list option \<Rightarrow> (string \<times> file_info) list" where
  "watch_start w entries = fst (scan w entries Map.empty)"

fun poll :: "watcher \<Rightarrow> file_info list option list \<Rightarrow> seen \<Rightarrow> (string \<times> file_info) list" where
  "poll w [] s = []"
| "poll w (es # ticks) s = (let (out, s') = scan w es s in out @ poll w ticks s')"

text \<open>The loop over the notifications: it ends when the watcher is stopped or the channel is closed, and
  goes on after an error.\<close>

datatype fs_notice =
  StopAsked
| EventsClosed
| Notified string "fs_op list" "file_info option"
| WatchError

fun watch_loop :: "fs_notice list \<Rightarrow> (string \<times> file_info) list" where
  "watch_loop [] = []"
| "watch_loop (StopAsked # ns) = []"
| "watch_loop (EventsClosed # ns) = []"
| "watch_loop (Notified name ops info # ns) = fs_event (\<lambda>_. info) name ops @ watch_loop ns"
| "watch_loop (WatchError # ns) = watch_loop ns"

text \<open>\<open>watching\<close>: the operating system grants the watch. Without it the directory is polled: the
  listings at the ticks until the watcher is stopped.\<close>

definition WatcherEvents ::
  "watcher \<Rightarrow> bool \<Rightarrow> file_info list option \<Rightarrow> fs_notice list \<Rightarrow> file_info list option list \<Rightarrow>
     (string \<times> file_info) list" where
  "WatcherEvents w watching entries ns ticks =
     (if watching then watch_start w entries @ watch_loop ns else poll w ticks Map.empty)"

section \<open>What a scan reports\<close>

definition newer :: "seen \<Rightarrow> file_info \<Rightarrow> bool" where
  "newer s e \<longleftrightarrow> (case s (fi_name e) of None \<Rightarrow> True | Some t0 \<Rightarrow> fi_mod e > t0)"

lemma scan_go_other: "n \<notin> fi_name ` set es \<Longrightarrow> snd (scan_go dir es s) n = s n"
  by (induction es arbitrary: s) (auto simp: case_prod_beta)

lemma scan_go_reports:
  "distinct (map fi_name es) \<Longrightarrow>
   fst (scan_go dir es s) = map (\<lambda>e. (JoinPath [dir, fi_name e], e)) (filter (newer s) es) \<and>
   (\<forall>e \<in> set es. \<not> newer (snd (scan_go dir es s)) e)"
proof (induction es arbitrary: s)
  case (Cons e es)
  have rest: "filter (newer (s(fi_name e \<mapsto> m))) es = filter (newer s) es" for m
  proof (intro filter_cong refl)
    fix x assume "x \<in> set es"
    then have "fi_name x \<noteq> fi_name e" using Cons.prems by (auto simp: image_iff)
    then show "newer (s(fi_name e \<mapsto> m)) x = newer s x" by (simp add: newer_def)
  qed
  have keep: "snd (scan_go dir es s') (fi_name e) = s' (fi_name e)" for s'
    using Cons.prems by (intro scan_go_other) simp
  show ?case
  proof (cases "newer s e")
    case True
    let ?s = "s(fi_name e \<mapsto> fi_mod e)"
    have step: "scan_go dir (e # es) s =
        ((JoinPath [dir, fi_name e], e) # fst (scan_go dir es ?s), snd (scan_go dir es ?s))"
      using True by (auto simp: newer_def case_prod_beta split: option.splits)
    have "\<not> newer (snd (scan_go dir es ?s)) e" by (simp add: newer_def keep)
    then show ?thesis
      using Cons.IH [of ?s] Cons.prems True unfolding step rest by (simp del: fun_upd_apply)
  next
    case False
    have step: "scan_go dir (e # es) s = scan_go dir es s"
      using False by (auto simp: newer_def split: option.splits)
    have "\<not> newer (snd (scan_go dir es s)) e" using False by (simp add: newer_def keep)
    then show ?thesis using Cons.IH [of s] Cons.prems False unfolding step by simp
  qed
qed simp

lemma newer_start: "newer Map.empty e"
  by (simp add: newer_def)

text \<open>A file that is there at the start is reported, with notifications at once, without at the first
  tick; a file that was reported is not reported again before its time has moved on.\<close>

lemma start_reports_all:
  assumes "distinct (map fi_name es)" and "e \<in> set es"
  shows "(JoinPath [w_dir w, fi_name e], e) \<in> set (WatcherEvents w b (Some es) ns (Some es # ticks))"
  using assms scan_go_reports [OF assms(1), of "w_dir w" Map.empty]
  by (auto simp: WatcherEvents_def watch_start_def scan_def newer_start case_prod_beta)

lemma poll_unchanged:
  assumes "distinct (map fi_name es)"
  shows "poll w (Some es # Some es # ticks) s = fst (scan w (Some es) s) @ poll w ticks (snd (scan w (Some es) (snd (scan w (Some es) s))))"
  using scan_go_reports [OF assms, of "w_dir w" s] scan_go_reports [OF assms, of "w_dir w" "snd (scan_go (w_dir w) es s)"]
  by (simp add: scan_def case_prod_beta filter_empty_conv)

section \<open>What polling reports\<close>

text \<open>A reference without memory: what the listings so far showed.\<close>

definition listed :: "file_info list option \<Rightarrow> file_info list" where
  "listed t = (case t of None \<Rightarrow> [] | Some es \<Rightarrow> es)"

definition outdates :: "file_info list \<Rightarrow> file_info \<Rightarrow> bool" where
  "outdates es x \<longleftrightarrow> list_all (\<lambda>e. fi_name e = fi_name x \<longrightarrow> fi_mod e < fi_mod x) es"

definition reports :: "watcher \<Rightarrow> file_info list \<Rightarrow> file_info list option \<Rightarrow> (string \<times> file_info) list" where
  "reports w before t = map (\<lambda>x. (JoinPath [w_dir w, fi_name x], x)) (filter (outdates before) (listed t))"

lemma outdates_simps [simp]:
  "outdates [] x" "outdates (e # es) x \<longleftrightarrow> (fi_name e = fi_name x \<longrightarrow> fi_mod e < fi_mod x) \<and> outdates es x"
  "outdates (es @ fs) x \<longleftrightarrow> outdates es x \<and> outdates fs x"
  by (simp_all add: outdates_def)

lemma newer_after: "newer (snd (scan_go dir es s)) x \<longleftrightarrow> newer s x \<and> outdates es x"
proof (induction es arbitrary: s)
  case (Cons e es)
  show ?case
  proof (cases "newer s e")
    case True
    have step: "snd (scan_go dir (e # es) s) = snd (scan_go dir es (s(fi_name e \<mapsto> fi_mod e)))"
      using True by (auto simp: newer_def case_prod_beta split: option.splits)
    show ?thesis using True unfolding step Cons.IH by (auto simp: newer_def split: option.splits)
  next
    case False
    then have "snd (scan_go dir (e # es) s) = snd (scan_go dir es s)"
      by (auto simp: newer_def split: option.splits)
    then show ?thesis using False Cons.IH by (auto simp: newer_def split: option.splits)
  qed
qed simp

lemma scan_reports:
  assumes "distinct (map fi_name (listed t))" and "newer s = outdates before"
  shows "fst (scan w t s) = reports w before t" and "newer (snd (scan w t s)) = outdates (before @ listed t)"
proof -
  show "fst (scan w t s) = reports w before t"
    using assms(1) scan_go_reports [of "listed t" "w_dir w" s]
    by (cases t) (simp_all add: scan_def reports_def listed_def assms(2))
  show "newer (snd (scan w t s)) = outdates (before @ listed t)"
    by (cases t) (simp_all add: fun_eq_iff scan_def listed_def newer_after assms(2))
qed

lemma poll_reports:
  assumes "\<forall>t \<in> set ticks. distinct (map fi_name (listed t))" and "newer s = outdates before"
  shows "poll w ticks s =
    concat (map (\<lambda>k. reports w (before @ concat (map listed (take k ticks))) (ticks ! k)) [0..<length ticks])"
  using assms
proof (induction ticks arbitrary: s before)
  case (Cons t ticks)
  note scan = scan_reports [OF _ Cons.prems(2), of t w]
  have "poll w (t # ticks) s = reports w before t @ poll w ticks (snd (scan w t s))"
    using scan(1) Cons.prems(1) by (simp add: case_prod_beta)
  also have "poll w ticks (snd (scan w t s)) =
      concat (map (\<lambda>k. reports w ((before @ listed t) @ concat (map listed (take k ticks))) (ticks ! k)) [0..<length ticks])"
    using Cons.prems(1) scan(2) by (intro Cons.IH) simp_all
  finally show ?case
    by (simp only: length_Cons upt_conv_Cons [OF zero_less_Suc] list.map concat.simps nth_Cons_0 take_0
        map_Suc_upt [symmetric] map_map comp_def nth_Cons_Suc take_Suc_Cons append_Nil2 append_assoc)
qed simp

end
