(* ===== verification/History.thy ===== *)
theory History
  imports ClientEnv ChunkStream
begin

text \<open>
  \<^verbatim>\<open>internal/store/history.go\<close>: an append-only file of length-prefixed AEAD records
  with a cap on the number of appends.
\<close>

definition maxHistory :: nat where
  [cfg]: "maxHistory = 2000"

record EncryptedStore =
  st_path :: string
  st_key :: bytes
  st_n :: nat

definition OpenStore :: "'a host_scheme \<Rightarrow> string \<Rightarrow> bytes \<Rightarrow> EncryptedStore" where
  "OpenStore E roomID key = \<lparr>st_path = HistoryFile E roomID, st_key = key, st_n = 0\<rparr>"

text \<open>The file is renamed away and removed.\<close>

definition truncate_store :: "'a host_scheme \<Rightarrow> EncryptedStore \<times> disk \<Rightarrow> EncryptedStore \<times> disk" where
  "truncate_store E x =
     (let (s, d) = x; bak = st_path s @ ''.old'';
          d1 = snd (rename_disk E (st_path s) bak d)
      in (s\<lparr>st_n := 0\<rparr>, remove_disk bak d1))"

text \<open>The flag is \<^verbatim>\<open>err == nil\<close>; a store without a proper key takes nothing.\<close>

definition AppendRecord ::
  "'a host_scheme \<Rightarrow> int \<Rightarrow> bytes \<Rightarrow> EncryptedStore \<times> nat \<times> disk \<Rightarrow> bool \<times> EncryptedStore \<times> nat \<times> disk" where
  "AppendRecord E now plaintext x =
     (let (s, pos, d) = x
      in if length (st_key s) \<noteq> 32 then (True, x)
         else
           (case Encrypt E pos (st_key s) plaintext of
              (None, p) \<Rightarrow> (False, s, p, d)
            | (Some ct, p) \<Rightarrow>
                (case append_disk E now (st_path s) (put_record ct) d of
                   (False, d1) \<Rightarrow> (False, s, p, d1)
                 | (True, d1) \<Rightarrow>
                     (let s1 = s\<lparr>st_n := Suc (st_n s)\<rparr>
                      in if st_n s1 > maxHistory then
                           (case truncate_store E (s1, d1) of (s2, d2) \<Rightarrow> (True, s2, p, d2))
                         else (True, s1, p, d1)))))"

definition WipeStore :: "EncryptedStore \<times> disk \<Rightarrow> EncryptedStore \<times> disk" where
  "WipeStore x = (case x of (s, d) \<Rightarrow> (s\<lparr>st_n := 0\<rparr>, remove_disk (st_path s) d))"

section \<open>What the file holds\<close>

text \<open>The records of a history file, opened in order.\<close>

fun history_of :: "'a prims_scheme \<Rightarrow> bytes \<Rightarrow> bytes list \<Rightarrow> bytes list" where
  "history_of P key [] = []"
| "history_of P key (ct # cts) =
     (case Decrypt P key ct of None \<Rightarrow> history_of P key cts | Some pt \<Rightarrow> pt # history_of P key cts)"

definition holds :: "'a prims_scheme \<Rightarrow> EncryptedStore \<Rightarrow> disk \<Rightarrow> bytes list \<Rightarrow> bool" where
  "holds P s d pts \<longleftrightarrow>
     (\<exists>cts. (case read_disk (st_path s) d of None \<Rightarrow> [] | Some b \<Rightarrow> b) = concat (map put_record cts) \<and>
        length cts = length pts \<and> (\<forall>i < length cts. Decrypt P (st_key s) (cts ! i) = Some (pts ! i)))"

fun append_all ::
  "'a host_scheme \<Rightarrow> int \<Rightarrow> bytes list \<Rightarrow> EncryptedStore \<times> nat \<times> disk \<Rightarrow> EncryptedStore \<times> nat \<times> disk" where
  "append_all E now [] x = x"
| "append_all E now (pt # pts) x = append_all E now pts (snd (AppendRecord E now pt x))"

lemma append_one:
  assumes "gcm_correct E" and "length (st_key s) = 32" and "can_write E (st_path s)"
    and "st_n s < maxHistory" and "holds E s d pts"
  shows "\<exists>p d'. AppendRecord E now pt (s, pos, d) = (True, s\<lparr>st_n := Suc (st_n s)\<rparr>, p, d') \<and>
    holds E (s\<lparr>st_n := Suc (st_n s)\<rparr>) d' (pts @ [pt])"
proof -
  obtain ct where ct: "Encrypt E pos (st_key s) pt = (Some ct, pos + nonceSize)"
    using Encrypt_total aes_key_32 assms(2) by blast
  note dec = Decrypt_Encrypt [OF assms(1) ct]
  obtain cts where cts: "(case read_disk (st_path s) d of None \<Rightarrow> [] | Some b \<Rightarrow> b) = concat (map put_record cts)"
    "length cts = length pts" "\<forall>i < length cts. Decrypt E (st_key s) (cts ! i) = Some (pts ! i)"
    using assms(5) by (auto simp: holds_def)
  define d' where "d' = snd (append_disk E now (st_path s) (put_record ct) d)"
  have app: "append_disk E now (st_path s) (put_record ct) d = (True, d')"
    using assms(3) by (simp add: d'_def append_disk_def write_disk_def)
  have "read_disk (st_path s) d' = Some (concat (map put_record (cts @ [ct])))"
    using assms(3) cts(1) by (simp add: d'_def read_disk_append)
  then have "holds E (s\<lparr>st_n := Suc (st_n s)\<rparr>) d' (pts @ [pt])"
    unfolding holds_def using cts(2,3) dec
    by (intro exI [of _ "cts @ [ct]"]) (auto simp: nth_append less_Suc_eq)
  moreover have "AppendRecord E now pt (s, pos, d) = (True, s\<lparr>st_n := Suc (st_n s)\<rparr>, pos + nonceSize, d')"
    using assms(2,4) by (simp add: AppendRecord_def ct app)
  ultimately show ?thesis by blast
qed

lemma append_holds:
  assumes "gcm_correct E" and "length (st_key s) = 32" and "can_write E (st_path s)"
    and "st_n s + length pts \<le> maxHistory" and "holds E s d old"
  shows "\<exists>p d'. append_all E now pts (s, pos, d) = (s\<lparr>st_n := st_n s + length pts\<rparr>, p, d') \<and>
    holds E (s\<lparr>st_n := st_n s + length pts\<rparr>) d' (old @ pts)"
  using assms
proof (induction pts arbitrary: s pos d old)
  case (Cons pt pts)
  let ?s = "s\<lparr>st_n := Suc (st_n s)\<rparr>"
  obtain p d' where one: "AppendRecord E now pt (s, pos, d) = (True, ?s, p, d')"
    "holds E ?s d' (old @ [pt])"
    using append_one [OF Cons.prems(1-3) _ Cons.prems(5), of now pt pos] Cons.prems(4) by auto
  have "\<exists>p2 d2. append_all E now pts (?s, p, d') = (?s\<lparr>st_n := st_n ?s + length pts\<rparr>, p2, d2) \<and>
      holds E (?s\<lparr>st_n := st_n ?s + length pts\<rparr>) d2 ((old @ [pt]) @ pts)"
    by (rule Cons.IH) (use Cons.prems one in simp_all)
  then show ?case by (simp add: one(1))
qed (auto intro!: exI)

lemma append_past_cap:
  assumes "length (st_key s) = 32" and "can_write E (st_path s)" and "can_write E (st_path s @ ''.old'')"
    and "st_n s = maxHistory"
  shows "\<exists>p d'. AppendRecord E now pt (s, pos, d) = (True, s\<lparr>st_n := 0\<rparr>, p, d') \<and>
    read_disk (st_path s) d' = None \<and> read_disk (st_path s @ ''.old'') d' = None"
proof -
  obtain ct where ct: "Encrypt E pos (st_key s) pt = (Some ct, pos + nonceSize)"
    using Encrypt_total aes_key_32 assms(1) by blast
  show ?thesis
    using assms(2-4)
    by (simp add: AppendRecord_def ct assms(1) append_disk_def write_disk_def truncate_store_def
        rename_disk_def remove_disk_def read_disk_def)
qed

end
