(* ===== verification/ClientProperties.thy ===== *)
theory ClientProperties
  imports Transfers FileSync History
begin

text \<open>
  Properties of the client and of a client and the hub together. The examples run in
  \<open>demo_c\<close>, the client's side of the environment \<open>demo\<close>.
\<close>

section \<open>The example environment\<close>

definition demo_pj :: "ChatMessage \<Rightarrow> bytes option" where
  "demo_pj m = map_option (\<lambda>b. CHR ''j'' # Base64Encode b) (chat_enc m)"

definition demo_unpj :: "bytes \<Rightarrow> ChatMessage option" where
  "demo_unpj b = (case Base64Decode (tl b) of None \<Rightarrow> None | Some x \<Rightarrow> chat_dec x)"

text \<open>An archive of one entry, named and filled by the bytes of the archive.\<close>

definition demo_unzip :: "bytes \<Rightarrow> zip_entry list option" where
  "demo_unzip b = Some [\<lparr>ze_name = b, ze_dir = False, ze_data = b, ze_ok = True\<rparr>]"

definition demo_c :: client_env where
  "demo_c = demo_host (client_env.fields (\<lambda>m. Some (map_enc (Some m))) map_dec demo_pj demo_unpj demo_unzip
     (\<lambda>_. zeros 32) [] ''10.0.0.1:5'' (\<lambda>_. True))"

lemma demo_c_fields [simp]:
  "ids_json demo_c m = Some (map_enc (Some m))" "ids_unjson demo_c = map_dec"
  "pj_enc demo_c = demo_pj" "pj_dec demo_c = demo_unpj" "unzip demo_c = demo_unzip"
  "ed25519_pub demo_c s = zeros 32" "passphrase demo_c = []" "local_addr demo_c = ''10.0.0.1:5''"
  "read_ok demo_c p" "app_root demo_c = ''/h''" "can_write demo_c p" "rnd demo_c i = byte 7"
  "is_dir demo_c p \<longleftrightarrow> p = ''/'' \<or> p = ''/h'' \<or> p = ''/h/vault''"
  "x25519 demo_c a b = Some (zeros 32)" "x25519_base demo_c = zeros 32"
  "pb_hello demo_c = hello_enc" "sha256 demo_c b = zeros 32" "hmac_sha256 demo_c k b = zeros 32"
  "hkdf_sha256 demo_c k b = zeros 32" "pb_chat demo_c = chat_enc" "pb_chat_dec demo_c = chat_dec"
  "fmt_stamp demo_c t = ''t''" "ed25519_sign demo_c sk b = zeros 64"
  by (simp_all add: demo_c_def demo_host_def client_env.defs)

lemma demo_same_world: "same_world demo demo_c"
  by (simp add: same_world_def demo_def demo_c_def demo_host_def)

lemmas demo_c_gcm = demo_host_gcm [of "client_env.fields (\<lambda>m. Some (map_enc (Some m))) map_dec demo_pj demo_unpj demo_unzip
     (\<lambda>_. zeros 32) [] ''10.0.0.1:5'' (\<lambda>_. True)", folded demo_c_def]
lemmas demo_c_keys = demo_host_keys [of "client_env.fields (\<lambda>m. Some (map_enc (Some m))) map_dec demo_pj demo_unpj demo_unzip
     (\<lambda>_. zeros 32) [] ''10.0.0.1:5'' (\<lambda>_. True)", folded demo_c_def]

lemma demo_sign_ok: "sign_ok demo_c"
  by (simp add: sign_ok_def) (simp add: demo_c_def)

lemma demo_x25519_ok: "x25519_ok demo"
  by (simp add: x25519_ok_def)

section \<open>Handshake\<close>

text \<open>An honest client can answer any greeting whose proof of work can be solved.\<close>

lemma hello_for_greeting:
  assumes "same_world E C" and "x25519_ok E" and "pb_handshake_ok E"
    and "hs_greet E addr H0 = (Some (priv, nonce, w), H)" and "VerifyPoW E nonce m PoWDifficulty = Some True"
    and "ReadFrame w = Inr (payload, [])"
    and "\<nexists>x'. client_hello C now nick payload (pos, d) = Some (Inl HelloFailed, x')"
    and "loadIdentityKeys C now nick (pos + 64, d) = ((idPub, idPriv), p, d')"
  obtains hubPub pub hs x hb where "x25519 E priv (x25519_base E) = Some hubPub"
    and "x25519 E (rand_bytes C pos 32) (x25519_base E) = Some pub" and "length pub = 32"
    and "DeriveSharedKey C (rand_bytes C pos 32) hubPub = Some (hl_key hs)"
    and "client_hello C now nick payload (pos, d) = Some (Inr hs, x)"
    and "VerifyPoW E nonce (h_PowNonce (hl_hello hs)) PoWDifficulty = Some True"
    and "h_X25519Pub (hl_hello hs) = pub" and "h_Nickname (hl_hello hs) = nick"
    and "h_Version (hl_hello hs) = Version" and "h_SigningPub (hl_hello hs) = idPub"
    and "h_Signature (hl_hello hs) = Sign C idPriv nonce" and "h_Identity (hl_hello hs) = own_identity C d'"
    and "pb_hello C (hl_hello hs) = Some hb" and "SendFrame hb = Inr (hl_frame hs)"
proof -
  obtain hubPub where g: "x25519 E priv (x25519_base E) = Some hubPub" "length nonce = 32" "length priv = 32"
    "pb_ke_dec E payload = Some \<lparr>ke_X25519Pub = hubPub, ke_Nonce = nonce,
      ke_PowDifficulty = of_nat PoWDifficulty, ke_Version = Version\<rparr>"
    using greet_frame [OF assms(3,4), of "[]"] assms(6) by auto
  let ?priv = "rand_bytes C pos 32"
  obtain pub where pub: "x25519 E ?priv (x25519_base E) = Some pub" "length pub = 32"
    using assms(2) length_rand_bytes unfolding x25519_ok_def by blast
  have ex: "hubPub \<noteq> []" "x25519 E ?priv hubPub \<noteq> None"
    using assms(2) g(1,3) unfolding x25519_ok_def by force+
  then have "DeriveSharedKey E ?priv hubPub \<noteq> None" by (auto simp: DeriveSharedKey_def)
  then obtain key where key: "DeriveSharedKey C ?priv hubPub = Some key"
    by (auto simp: world_crypto [OF assms(1)])
  obtain n where n: "ComputePoW C nonce PoWDifficulty = Some n" "VerifyPoW E nonce n PoWDifficulty = Some True"
    using pow_finds [of C nonce m PoWDifficulty] assms(5) by (auto simp: world_crypto [OF assms(1)])
  have "\<exists>hs x'. client_hello C now nick payload (pos, d) = Some (Inr hs, x') \<and> hl_key hs = key \<and>
    h_X25519Pub (hl_hello hs) = pub \<and> h_Nickname (hl_hello hs) = nick \<and> h_PowNonce (hl_hello hs) = n \<and>
    h_Version (hl_hello hs) = Version \<and> h_SigningPub (hl_hello hs) = hl_idPub hs \<and>
    h_Signature (hl_hello hs) = Sign C (hl_idPriv hs) nonce \<and>
    (\<exists>x2. loadIdentityKeys C now nick (pos + 64, d) = ((hl_idPub hs, hl_idPriv hs), x2) \<and>
       h_Identity (hl_hello hs) = own_identity C (snd x2)) \<and>
    (\<exists>hb. pb_hello C (hl_hello hs) = Some hb \<and> SendFrame hb = Inr (hl_frame hs))"
    using hello_made [OF _ _ _ _ _ _ _ assms(7), where key = key and pub = pub and n = n] g pub key n(1) assms(1) ex(1)
    by (fastforce simp: same_world_def cfg)
  then show ?thesis using that g(1) pub key n(2) assms(8) by auto
qed

text \<open>C9: an honest client gets in. Whatever greeting the hub sends, if some nonce meets its
  difficulty, the client's search ends, and if its hello marshals into a frame, the hub's checks
  pass as soon as nobody uses the nickname, no other key owns it and the identity is not banned;
  the hub answers, the client accepts the answer, and both ends hold the same session key.\<close>

theorem handshake_completes:
  assumes "same_world E C" and "dh_commutes E" and "x25519_ok E" and "pb_handshake_ok E" and "sign_ok C"
    and "key_files_ok C nick d" and "nick \<noteq> []" and "length nick \<le> 32"
    and "hs_greet E addr H0 = (Some (priv, nonce, w), H)" and "VerifyPoW E nonce m PoWDifficulty = Some True"
    and "ReadFrame w = Inr (payload, [])"
    and "\<nexists>x'. client_hello C now nick payload (pos, d) = Some (Inl HelloFailed, x')"
    and "loadIdentityKeys C now nick (pos + 64, d) = ((idPub, idPriv), p, d')"
    and "\<forall>x \<in> set (WhitelistMap H). snd x = nick \<longrightarrow> fst x = Base64Encode idPub"
    and "map_of (BlacklistMap H) (own_identity C d') = None" and "GetClientByNickname nick H = None"
    and "\<forall>ap. \<exists>b. pb_ok E \<lparr>ok_VaultPort = word_of_int (HTTPPort H), ok_Version = Version, ok_Approved = ap\<rparr> =
        Some b \<and> b \<noteq> [] \<and> length b < MaxFrame"
  shows "\<exists>hs x hb r out H' ob c. client_hello C now nick payload (pos, d) = Some (Inr hs, x) \<and>
    ReadFrame (hl_frame hs) = Inr (hb, []) \<and>
    hs_answer E addr priv nonce (Some hb) True H = ((Some r, Some out), H') \<and>
    ReadFrame out = Inr (ob, []) \<and> client_finish C now nick address useTor et hs ob x = Inr c \<and>
    map_of (clients H') addr = Some r \<and> EncryptionKey (objs H' r) = SessionKey c"
proof -
  obtain hubPub pub hs x hb where hub: "x25519 E priv (x25519_base E) = Some hubPub"
    and pub: "x25519 E (rand_bytes C pos 32) (x25519_base E) = Some pub" "length pub = 32"
    and key: "DeriveSharedKey C (rand_bytes C pos 32) hubPub = Some (hl_key hs)"
    and hs: "client_hello C now nick payload (pos, d) = Some (Inr hs, x)"
      "VerifyPoW E nonce (h_PowNonce (hl_hello hs)) PoWDifficulty = Some True"
      "h_X25519Pub (hl_hello hs) = pub" "h_Nickname (hl_hello hs) = nick" "h_Version (hl_hello hs) = Version"
      "h_SigningPub (hl_hello hs) = idPub" "h_Signature (hl_hello hs) = Sign C idPriv nonce"
      "h_Identity (hl_hello hs) = own_identity C d'" "pb_hello C (hl_hello hs) = Some hb"
      "SendFrame hb = Inr (hl_frame hs)"
    by (rule hello_for_greeting [OF assms(1,3,4,9-13)])
  note keys = loaded_keys [OF assms(5,6,13)]
  have pass: "hs_verify E priv nonce hb H = Pass (hl_hello hs) (hl_key hs)"
    by (rule hello_accepted [OF assms(1,2,4,5) hub pub(1) _ key hs(9,3,5)])
      (use hs keys pub(2) assms(7,8,14-16) in auto)
  have "ReadFrame (hl_frame hs) = Inr (hb, [])" using ReadFrame_SendFrame [OF hs(10), of "[]"] by simp
  moreover obtain r out H' ob c where "hs_answer E addr priv nonce (Some hb) True H = ((Some r, Some out), H')"
    "ReadFrame out = Inr (ob, [])" "client_finish C now nick address useTor et hs ob x = Inr c"
    "map_of (clients H') addr = Some r" "EncryptionKey (objs H' r) = SessionKey c"
    using session_opened [OF assms(1,4) pass assms(17), of addr "[]"] unfolding append_Nil2 by blast
  ultimately show ?thesis using hs(1) by blast
qed

lemma demo_ok_fits:
  "\<exists>b. ok_enc \<lparr>ok_VaultPort = 0, ok_Version = Version, ok_Approved = ap\<rparr> = Some b \<and> b \<noteq> [] \<and> length b < MaxFrame"
  by (simp add: ok_enc_def enc_strs_def enc_str_nonempty length_enc_str of_nat_str_def of_bool_str_def cfg
      MaxFrame_def)

text \<open>The hub of the example greets; a client without a key file answers.\<close>

lemma demo_greeting:
  obtains priv nonce w H payload where "hs_greet demo ''a'' demo_hub = (Some (priv, nonce, w), H)"
    and "ReadFrame w = Inr (payload, [])" and "WhitelistMap H = []" and "BlacklistMap H = []"
    and "clients H = []" and "HTTPPort H = 0"
    and "ke_dec payload = Some \<lparr>ke_X25519Pub = zeros 32, ke_Nonce = nonce,
      ke_PowDifficulty = of_nat PoWDifficulty, ke_Version = Version\<rparr>" and "nonce \<noteq> []"
proof -
  define ke where "ke = \<lparr>ke_X25519Pub = zeros 32, ke_Nonce = rand_bytes demo 32 32,
    ke_PowDifficulty = (of_nat PoWDifficulty :: 32 word), ke_Version = Version\<rparr>"
  define b where "b = enc_strs [ke_X25519Pub ke, ke_Nonce ke, of_nat_str (unat (ke_PowDifficulty ke)), ke_Version ke]"
  have b: "pb_ke demo ke = Some b" by (simp add: demo_def ke_enc_def b_def)
  have "length b \<le> MaxFrame"
    by (simp add: b_def ke_def enc_strs_def length_enc_str of_nat_str_def cfg MaxFrame_def)
  then obtain w where w: "SendFrame b = Inr w" by (simp add: SendFrame_def)
  have "HTTPPort demo_hub = 0" by (simp add: demo_hub_def NewServer_def loadACL_def Let_def)
  moreover have "rpos (Log demo t demo_hub) = 0" for t by (simp add: Log_def push_console_def)
  moreover have "ke_dec b = Some ke" using b demo_pb(3) by (simp add: pb_handshake_ok_def demo_def)
  moreover have "rand_bytes demo 32 32 \<noteq> []" by (simp flip: length_greater_0_conv)
  ultimately show ?thesis
    using ReadFrame_SendFrame [OF w, of "[]"]
    by (intro that [of "rand_bytes demo 0 32" "rand_bytes demo 32 32" w
          "(Log demo (''Incoming connection: '' @ ''a'') demo_hub)\<lparr>rpos := 64\<rparr>" b])
      (simp_all add: hs_greet_def GenerateKeyPair_def GenerateRandomKey_def Let_def b [unfolded ke_def] w ke_def)
qed

lemma demo_pow: "ComputePoW demo_c data PoWDifficulty = Some 0"
proof -
  have "VerifyPoW demo_c data 0 PoWDifficulty = Some True"
    by (simp add: VerifyPoW_def powTarget_def powHash_def cfg)
  from pow_finds [OF this] show ?thesis by auto
qed

lemma demo_hello_fits:
  assumes "pb_ke_dec demo_c payload = Some ke" and "ke_X25519Pub ke = zeros 32" and "ke_Nonce ke \<noteq> []"
    and "unat (ke_PowDifficulty ke) = PoWDifficulty"
  shows "\<nexists>x'. client_hello demo_c 0 ''ann'' payload (0, Map.empty) = Some (Inl HelloFailed, x')"
proof -
  have z: "zeros 32 \<noteq> []" by (simp add: zeros_def)
  have pow: "PoWDifficulty \<noteq> 0" by (simp add: cfg)
  have keyf: "IdentityKey demo_c ''ann'' = ''/h/identity/identity_ann.key''"
    by (simp add: IdentityKey_def app_path_def JoinPath_def) (simp add: Clean_def is_rooted_def clean_comps_def clean_step_def slash_def)
  have "own_identity demo_c (\<lambda>q. if q = ''/h/identity/identity_ann.key'' then x else None) = ''10.0.0.1''" for x
    by (simp add: own_identity_def read_disk_def)
  then show ?thesis
    unfolding client_hello_def
    by (simp add: assms z pow demo_pow GenerateKeyPair_def DeriveSharedKey_def Let_def case_prod_beta
        loadIdentityKeys_def GenerateSigningKeyPair_def keyf read_disk_def write_disk_def fun_upd_def
        hello_enc_def SendFrame_def enc_strs_def length_enc_str MaxFrame_def Sign_def Version_def of_nat_str_def)
qed

theorem handshake_completes_witness:
  "\<exists>priv nonce w H payload hs x hb r out H' ob c. hs_greet demo ''a'' demo_hub = (Some (priv, nonce, w), H) \<and>
    client_hello demo_c 0 ''ann'' payload (0, Map.empty) = Some (Inr hs, x) \<and>
    hs_answer demo ''a'' priv nonce (Some hb) True H = ((Some r, Some out), H') \<and>
    ReadFrame out = Inr (ob, []) \<and> client_finish demo_c 0 ''ann'' ''hub:1'' False None hs ob x = Inr c \<and>
    EncryptionKey (objs H' r) = SessionKey c"
proof -
  obtain priv nonce w H payload where g: "hs_greet demo ''a'' demo_hub = (Some (priv, nonce, w), H)"
    "ReadFrame w = Inr (payload, [])" "WhitelistMap H = []" "BlacklistMap H = []" "clients H = []" "HTTPPort H = 0"
    "ke_dec payload = Some \<lparr>ke_X25519Pub = zeros 32, ke_Nonce = nonce,
      ke_PowDifficulty = of_nat PoWDifficulty, ke_Version = Version\<rparr>" "nonce \<noteq> []"
    by (rule demo_greeting)
  have fits: "\<nexists>x'. client_hello demo_c 0 ''ann'' payload (0, Map.empty) = Some (Inl HelloFailed, x')"
    by (rule demo_hello_fits [where ke = "\<lparr>ke_X25519Pub = zeros 32, ke_Nonce = nonce,
      ke_PowDifficulty = of_nat PoWDifficulty, ke_Version = Version\<rparr>"]) (use g(7,8) in \<open>simp_all add: cfg demo_c_def\<close>)
  obtain idPub idPriv p d' where l: "loadIdentityKeys demo_c 0 ''ann'' (0 + 64, Map.empty) = ((idPub, idPriv), p, d')"
    by (metis prod.collapse)
  have "VerifyPoW demo nonce 0 PoWDifficulty = Some True"
    by (simp add: VerifyPoW_def powTarget_def powHash_def cfg)
  moreover have "key_files_ok demo_c ''ann'' Map.empty"
    by (simp add: key_files_ok_def read_disk_def ReadWrapped_def)
  moreover have "GetClientByNickname ''ann'' H = None" by (simp add: GetClientByNickname_def g(5))
  ultimately have "\<exists>hs x hb r out H' ob c.
    client_hello demo_c 0 ''ann'' payload (0, Map.empty) = Some (Inr hs, x) \<and>
    ReadFrame (hl_frame hs) = Inr (hb, []) \<and>
    hs_answer demo ''a'' priv nonce (Some hb) True H = ((Some r, Some out), H') \<and>
    ReadFrame out = Inr (ob, []) \<and> client_finish demo_c 0 ''ann'' ''hub:1'' False None hs ob x = Inr c \<and>
    map_of (clients H') ''a'' = Some r \<and> EncryptionKey (objs H' r) = SessionKey c"
    by (intro handshake_completes [OF demo_same_world demo_keys(1) demo_x25519_ok demo_pb(3) demo_sign_ok _ _ _ g(1)
          _ g(2) fits l]) (simp_all add: g demo_ok_fits)
  with g(1) show ?thesis by blast
qed

section \<open>Chat\<close>

text \<open>Two clients of the example: both ends of a room where \<open>ann\<close> published her seed.\<close>

definition demo_hs :: hello_state where
  "demo_hs = \<lparr>hl_key = zeros 32, hl_e2ePriv = zeros 32, hl_e2ePub = zeros 32, hl_idPub = zeros 32,
     hl_idPriv = zeros 64, hl_hello = demo_hello ''ann'' (byte 0), hl_frame = []\<rparr>"

definition demo_cli :: "string \<Rightarrow> Cli" where
  "demo_cli nick = new_cli demo_c 0 nick ''hub:1'' False None demo_hs 0 (0, Map.empty)"

definition demo_seed :: bytes where
  "demo_seed = rand_bytes demo_c 0 32"

lemma demo_cli_fields [simp]:
  "SessionKey (demo_cli nick) = zeros 32" "c_Nickname (demo_cli nick) = nick" "conn_up (demo_cli nick)"
  "sendq (demo_cli nick) = []" "updates (demo_cli nick) = []" "CurrentRoom (demo_cli nick) = DefaultRoom"
  "Senders (demo_cli nick) = Some (NewSenderState nick 1 demo_seed)" "wire_out (demo_cli nick) = []"
  "c_disk (demo_cli nick) = Map.empty" "Identities (IdStore (demo_cli nick)) = []"
  "mismatch (IdStore (demo_cli nick)) = []" "c_VaultToken (demo_cli nick) = []"
  "queueFile (demo_cli nick) = QueueFile demo_c nick" "fileGets (demo_cli nick) = Map.empty"
  "c_now (demo_cli nick) = 0" "cli_bounded (demo_cli nick)"
  by (simp_all add: demo_cli_def new_cli_bounded) (simp_all add: demo_hs_def new_cli_def SetRoomDirs_def
      GenerateRandomKey_def demo_seed_def NewIdentityStore_def load_ids_def read_disk_def Let_def)

lemma demo_seed_nonempty: "demo_seed \<noteq> []"
  unfolding demo_seed_def by (simp flip: length_greater_0_conv)

lemma demo_chain: "own_chain (NewSenderState nick 1 demo_seed) = Some (NewRatchet demo_seed)"
  using demo_seed_nonempty by (simp add: own_chain_def sender_defs)

definition demo_line :: ChatMessage where
  "demo_line = empty_message\<lparr>Type := MsgTypeChat, Sender := ''ann'', Content := ''hi''\<rparr>"

definition demo_ann :: Cli where
  "demo_ann = (demo_cli ''ann'')\<lparr>sendq := [demo_line]\<rparr>"

definition demo_bob :: Cli where
  "demo_bob = (demo_cli ''bob'')\<lparr>Senders := Some (AdoptPeer ''ann'' demo_seed (NewSenderState ''bob'' 1 demo_seed))\<rparr>"

text \<open>A small message leaves when the connection is up.\<close>

lemma small_leaves:
  assumes "prepare E m (c\<lparr>sendq := ms\<rparr>) = (Some m1, c1)" and "sendq c = m # ms" and "Encode E m1 = Some bs"
    and "length bs \<le> 10 ^ 6" and "gcm_overhead E" and "aes_key_ok (SessionKey c1)" and "conn_up c1"
    and "wire_out c1 = wire_out c"
  shows "wire_out (write_next E c) \<noteq> wire_out c"
proof -
  obtain enc where enc: "Encrypt E (c_pos c1) (SessionKey c1) bs = (Some enc, c_pos c1 + nonceSize)"
    using Encrypt_total assms(6) by blast
  then have "length enc = length bs + 28"
    using length_encryptWithAAD [OF assms(5)] by (simp add: Encrypt_AAD)
  then have "length (Base64Encode enc) \<le> MaxFrame"
    using length_Base64Encode [of enc] assms(4) by (simp add: MaxFrame_def)
  then obtain w where w: "SendFrame (Base64Encode enc) = Inr w" "length w \<ge> 4"
    by (simp add: SendFrame_def)
  then have "w \<noteq> []" by auto
  then show ?thesis
    using assms(7,8) by (simp add: write_next_def assms(1,2) write_frame_def assms(3) enc w(1))
qed

lemma demo_chat_leaves:
  assumes "sendq c = [demo_line]" and "Senders c = Some (NewSenderState ''ann'' 1 demo_seed)"
    and "\<not> HasMismatch (IdStore c)" and "SessionKey c = zeros 32" and "CurrentRoom c = DefaultRoom" and "conn_up c"
  shows "wire_out (write_next demo_c c) \<noteq> wire_out c"
proof -
  let ?c = "c\<lparr>sendq := []\<rparr>" and ?mk = "key_at (hmac_sha256 demo_c) demo_seed 0"
  obtain r' where n: "Next (hmac_sha256 demo_c) (NewRatchet demo_seed) = ((?mk, 0), r')"
    using Next_inv [OF ratchet_inv_new [of "hmac_sha256 demo_c" demo_seed]] by (auto simp: NewRatchet_def)
  obtain s1 where s1: "NextSend (hmac_sha256 demo_c) (NewSenderState ''ann'' 1 demo_seed) = (Some (?mk, 0), s1)"
    using send_own(1) [OF demo_chain n] by (metis prod.collapse)
  obtain ct where ct: "Encrypt demo_c (c_pos ?c) ?mk ''hi'' = (Some ct, c_pos ?c + nonceSize)"
    using Encrypt_total key_at_size [OF demo_c_keys(2)] by blast
  then have "length ct = 30" using length_encryptWithAAD [OF demo_c_gcm(3)] by (simp add: Encrypt_AAD)
  then have len: "length (Base64Encode ct) \<le> 64" using length_Base64Encode [of ct] by simp
  let ?m = "sealed_chat demo_line DefaultRoom ct 0"
  have prep: "prepare demo_c demo_line ?c = (Some ?m, ?c\<lparr>Senders := Some s1, c_pos := c_pos ?c + nonceSize\<rparr>)"
    using ct assms(2-5)
    by (simp add: prepare_def Let_def seal_group_def s1 sealed_chat_def demo_line_def empty_message_def cfg)
  obtain bs where bs: "Encode demo_c ?m = Some bs" "length bs \<le> 10 ^ 6"
    using len by (simp add: Encode_def chat_enc_def sealed_chat_def demo_line_def enc_strs_def length_enc_str
        empty_message_def of_bool_str_def of_nat_str_def of_int_str_def cfg)
  show ?thesis
    by (rule small_leaves [OF prep assms(1) bs demo_c_gcm(3)]) (simp_all add: assms)
qed

lemma demo_ann_writes: "wire_out (write_next demo_c demo_ann) \<noteq> wire_out demo_ann"
  by (rule demo_chat_leaves) (simp_all add: demo_ann_def HasMismatch_def)

text \<open>C10: what a member types is what the others read. A chat message at the head of the sender's
  queue that goes out on the wire is sealed under the sender's chain; the hub, which only opens
  the session encryption, relays it, and a member whose chain of the sender starts from the same
  seed, was not used for that step and is at most 100 behind shows the same text under the
  sender's name.\<close>

theorem chat_end_to_end:
  assumes "same_world E C" and "same_world E D" and "wire_ok E" and "kdf_sizes C"
    and "sendq c = m # ms" and "Type m = MsgTypeChat" and "\<not> HasMismatch (IdStore c)"
    and "Senders c = Some s" and "own_chain s = Some ra" and "ratchet_inv (hmac_sha256 E) seed usedA ra"
    and "rstep ra \<noteq> - 1" and "ascii_msg (m\<lparr>Content := []\<rparr>)" and "ascii (CurrentRoom c)"
    and "wire_out (write_next C c) \<noteq> wire_out c"
    and "id_inv H" and "r \<in> live H" and "q \<in> live H" and "q \<noteq> r" and "State (objs H r) = ''WHITELISTED''"
    and "State (objs H q) = ''WHITELISTED''" and "EncryptionKey (objs H r) = SessionKey c"
    and "EncryptionKey (objs H q) = SessionKey d" and "aes_key_ok (SessionKey c)"
    and "fst (allowMessage (clock H) (objs H r))" and "length (SendChan (objs H q)) < 100"
    and "Sender m \<noteq> c_Nickname d" and "Senders d = Some t" and "peer_chain t (Sender m) = Some rb"
    and "ratchet_inv (hmac_sha256 E) seed usedB rb" and "rstep ra \<notin> usedB"
    and "rstep ra < rstep rb \<or> rstep ra - rstep rb \<le> 100" and "length (updates d) < UpdateCap"
  shows "\<exists>w txt p d' msg. wire_out (write_next C c) = wire_out c @ w \<and> ReadFrame w = Inr (txt, []) \<and>
    SendChan (objs (processClientMessage E r txt H) q) = SendChan (objs H q) @ [p] \<and>
    read_payload D p d = Some (True, d') \<and> updates d' = updates d @ [msg] \<and> Type msg = MsgTypeChat \<and>
    Sender msg = Sender m \<and> Content msg = Content m \<and>
    OnionAddr msg = (if OnionAddr m = [] then CurrentRoom c else OnionAddr m)"
proof -
  note worldC = world_crypto [OF assms(1)] and worldD = world_crypto [OF assms(2)]
  obtain w raw ct bs enc where w: "wire_out (write_next C c) = wire_out c @ w" "ReadFrame w = Inr (raw, [])"
    "Base64Decode raw = Some enc" "Decrypt E (SessionKey c) enc = Some bs"
    "Encode E (sealed_chat m (CurrentRoom c) ct (rstep ra)) = Some bs"
    "Decode E bs = Some (sealed_chat m (CurrentRoom c) ct (rstep ra))"
    "Decrypt E (key_at (hmac_sha256 E) seed (unat (rstep ra))) ct = Some (Content m)"
    using chat_written [OF assms(1,3,5-9) _ assms(11,4,23,12-14), of seed usedA] assms(10)
    by (auto simp: worldC)
  let ?m = "sealed_chat m (CurrentRoom c) ct (rstep ra)"
  have "open_message E (objs H r) raw = Some ?m" by (simp add: open_message_def w assms(21))
  then obtain p where p: "SendChan (objs (processClientMessage E r raw H) q) = SendChan (objs H q) @ [p]"
    "received E (SessionKey d) p = Some ?m"
    using relay_chat [OF _ assms(15,16,19) _ _ _ w(5,6) assms(24,17,18)] assms(3,6,20,22,25)
    by (auto simp: sealed_chat_def wire_ok_def)
  have "received D (SessionKey d) p = Some ?m"
    using p(2) by (simp add: received_def opened_def worldD bind_eq_Some_conv)
  then obtain d' where "read_payload D p d = Some (True, d')" "updates d' = updates d @ [?m\<lparr>Content := Content m\<rparr>]"
    using chat_read [OF _ assms(6,26-28) _ assms(11,30,31) _ assms(32), of D p "CurrentRoom c" ct seed]
      assms(29) w(7) by (auto simp: worldD)
  then show ?thesis using w(1,2) p(1) assms(6) by (auto simp: sealed_chat_def)
qed

theorem chat_end_to_end_witness:
  "\<exists>w txt p d' msg. wire_out (write_next demo_c demo_ann) = w \<and> ReadFrame w = Inr (txt, []) \<and>
    SendChan (objs (processClientMessage demo 0 txt demo_room) 1) = [p] \<and>
    read_payload demo_c p demo_bob = Some (True, d') \<and> updates d' = [msg] \<and> Content msg = ''hi''"
proof -
  have peer: "peer_chain (AdoptPeer ''ann'' demo_seed (NewSenderState ''bob'' 1 demo_seed)) (Sender demo_line) =
      Some (NewRatchet demo_seed)"
    by (simp add: peer_chain_adopt senders_ok_new demo_line_def)
  have own: "own_chain (the (Senders demo_ann)) = Some (NewRatchet demo_seed)"
    by (simp add: demo_ann_def demo_chain)
  have "\<exists>w txt p d' msg. wire_out (write_next demo_c demo_ann) = wire_out demo_ann @ w \<and> ReadFrame w = Inr (txt, []) \<and>
    SendChan (objs (processClientMessage demo 0 txt demo_room) 1) = SendChan (objs demo_room 1) @ [p] \<and>
    read_payload demo_c p demo_bob = Some (True, d') \<and> updates d' = updates demo_bob @ [msg] \<and> Type msg = MsgTypeChat \<and>
    Sender msg = Sender demo_line \<and> Content msg = Content demo_line \<and>
    OnionAddr msg = (if OnionAddr demo_line = [] then CurrentRoom demo_ann else OnionAddr demo_line)"
    by (rule chat_end_to_end [OF demo_same_world demo_same_world demo_wire_ok demo_c_keys(2) _ _ _ _ own
          ratchet_inv_new _ _ _ demo_ann_writes demo_id_inv(2) _ _ _ _ _ _ _ _ _ _ _ _ peer ratchet_inv_new])
      (simp_all add: demo_ann_def demo_bob_def demo_line_def HasMismatch_def NewRatchet_def ascii_msg_def
        empty_message_def ascii_def allowMessage_def cfg)
  then show ?thesis by (auto simp: demo_ann_def demo_bob_def demo_line_def)
qed

section \<open>Files\<close>









lemma extract_below:
  assumes "\<forall>w \<in> set ws. good_comp w" and "ws \<noteq> []" and "snd (extract_go E now (abs_path ws) es d) q \<noteq> d q"
  shows "\<exists>vs. q = abs_path (ws @ vs) \<and> vs \<noteq> [] \<and> (\<forall>v \<in> set vs. good_comp v)"
  using assms(3)
proof (induction es arbitrary: d)
  case (Cons e es)
  let ?p = "JoinPath [abs_path ws, ze_name e]"
  have rooted: "is_rooted (Join [abs_path ws, ze_name e] [slash])" by (simp add: is_rooted_def abs_path_def)
  obtain us where us: "?p = abs_path us" "\<forall>u \<in> set us. good_comp u"
    using Clean_rooted [OF rooted] by (auto simp: JoinPath_def abs_path_def)
  have prefix: "HasPrefix ?p (abs_path ws @ [slash])"
    using Cons.prems by (auto simp: Clean_abs_path [OF assms(1)] Let_def split: if_splits)
  then obtain vs where vs: "us = ws @ vs" "vs \<noteq> []"
    using below_dir [OF assms(1) us(2) assms(2)] us(1) by auto
  show ?case
  proof (cases "q = ?p")
    case True
    then show ?thesis using us vs by auto
  next
    case False
    then have same: "snd (write_disk E now ?p (ze_data e) d) q = d q" by (simp add: frame)
    have "\<exists>d'. snd (extract_go E now (abs_path ws) es d') q \<noteq> d' q"
    proof (rule ccontr)
      assume "\<not> ?thesis"
      then have keep: "snd (extract_go E now (abs_path ws) es d') q = d' q" for d' by blast
      from Cons.prems show False
        by (auto simp: keep same Let_def split: if_splits)
    qed
    then show ?thesis using Cons.IH by blast
  qed
qed simp

text \<open>C16: extracting an archive into an absolute directory touches no file outside it, whatever the
  names of the entries: every file that changes has a path of proper components below the
  directory.\<close>

theorem zip_confined:
  assumes "\<forall>w \<in> set ws. good_comp w" and "ws \<noteq> []" and "snd (ExtractZip E now src (abs_path ws) d) q \<noteq> d q"
  shows "\<exists>vs. q = abs_path (ws @ vs) \<and> vs \<noteq> [] \<and> (\<forall>v \<in> set vs. good_comp v)"
  using assms(3) extract_below [OF assms(1,2)] by (auto simp: ExtractZip_def split: option.splits)

theorem zip_confined_witness:
  "\<exists>vs. ''/i/z/a'' = abs_path ([''i'', ''z''] @ vs) \<and> vs \<noteq> []"
proof -
  have p: "abs_path [''i'', ''z''] = ''/i/z''" "JoinPath [''/i/z'', ''a''] = ''/i/z/a''" "Clean ''/i/z'' = ''/i/z''"
    by (simp_all add: abs_path_def slash_def JoinPath_def Clean_def is_rooted_def clean_comps_def clean_step_def)
  let ?d = "[''/s'' \<mapsto> \<lparr>content = ''a'', mtime = 0\<rparr>]"
  have "snd (ExtractZip demo_c 0 ''/s'' (abs_path [''i'', ''z'']) ?d) ''/i/z/a'' \<noteq> ?d ''/i/z/a''"
    by (simp add: ExtractZip_def read_disk_def demo_unzip_def p HasPrefix_def slash_def write_disk_def)
  from zip_confined [OF _ _ this] show ?thesis by (auto simp: good_comp_def slash_def)
qed

text \<open>C39: the name in an offer is not reduced to its base name when the checksum is checked: when
  the transfer ends without an error and the checksum the offer carries does not match the file
  at that path, the file at inbox-joined-with-name is deleted, wherever dot-dot components
  in the name lead.\<close>

theorem offer_deletes_outside:
  assumes "DownloadMux E arrivals f (InboxDir c) c = (None, c1)" and "expectedSum \<noteq> []"
    and "calculateSHA256 E (JoinPath [InboxDir c, f]) (c_disk c1) \<noteq> expectedSum"
  shows "c_disk (auto_download E (DownloadMux E arrivals) http f addr expectedSum c) (JoinPath [InboxDir c, f]) = None"
proof -
  have "InboxDir c1 = InboxDir c" using inbox_mux [of E arrivals f "InboxDir c" c] assms(1) by (simp add: InboxDir_def)
  with assms show ?thesis
    by (simp add: auto_download_def Let_def sendUpdate_def setDownloading_def remove_disk_def)
qed

theorem offer_deletes_outside_witness:
  "c_disk (auto_download demo_c (DownloadMux demo_c [empty_message\<lparr>ChunkIdx := -1\<rparr>]) (\<lambda>_ _. None)
     ''../../../identity/identity_bob.key'' ''x'' ''00''
     ((demo_cli ''bob'')\<lparr>c_disk := [IdentityKey demo_c ''bob'' \<mapsto> \<lparr>content = zeros 64, mtime = 0\<rparr>]\<rparr>))
     (IdentityKey demo_c ''bob'') = None"
proof -
  let ?c = "(demo_cli ''bob'')\<lparr>c_disk := [IdentityKey demo_c ''bob'' \<mapsto> \<lparr>content = zeros 64, mtime = 0\<rparr>]\<rparr>"
  let ?f = "''../../../identity/identity_bob.key''"
  have inbox: "inboxDir (demo_cli ''bob'') = ''/h/rooms/general/inbox''"
    by (simp add: demo_cli_def new_cli_def Let_def case_prod_beta SetRoomDirs_def RoomInbox_def RoomDir_def app_path_def
        JoinPath_def Clean_def is_rooted_def clean_comps_def clean_step_def slash_def cfg)
  have key: "IdentityKey demo_c ''bob'' = ''/h/identity/identity_bob.key''"
    by (simp add: IdentityKey_def app_path_def JoinPath_def Clean_def is_rooted_def clean_comps_def clean_step_def
        slash_def)
  have path: "JoinPath [InboxDir ?c, ?f] = IdentityKey demo_c ''bob''"
    by (simp add: key InboxDir_def inbox JoinPath_def Clean_def is_rooted_def clean_comps_def clean_step_def slash_def)
  obtain c1 where c1: "DownloadMux demo_c [empty_message\<lparr>ChunkIdx := -1\<rparr>] ?f (InboxDir ?c) ?c = (None, c1)"
  proof -
    have "Base ?f = ''identity_bob.key''" by (simp add: Base_def slash_def)
    moreover have "JoinPath [''/h/rooms/general/inbox'', ''identity_bob.key''] = ''/h/rooms/general/inbox/identity_bob.key''"
      by (simp add: JoinPath_def Clean_def is_rooted_def clean_comps_def clean_step_def slash_def)
    ultimately have "fst (DownloadMux demo_c [empty_message\<lparr>ChunkIdx := -1\<rparr>] ?f (InboxDir ?c) ?c) = None"
      by (simp add: DownloadMux_def mux_start_def mux_take_def InboxDir_def inbox Let_def case_prod_beta)
    then show thesis using that by (metis prod.collapse)
  qed
  have "length (calculateSHA256 demo_c p dk) \<noteq> 2" for p dk
    by (simp add: calculateSHA256_def split: option.split)
  from this [of "JoinPath [InboxDir ?c, ?f]" "c_disk c1"]
  have "calculateSHA256 demo_c (JoinPath [InboxDir ?c, ?f]) (c_disk c1) \<noteq> ''00''" by auto
  from offer_deletes_outside [OF c1 _ this] show ?thesis by (simp only: path) simp
qed

end
