(* ===== verification/ClientGuarantees.thy ===== *)
theory ClientGuarantees
  imports ClientProperties
begin

text \<open>
  Guarantees a client gives on its own: the queue on disk, the identity keys, pinned
  identities, the bounds of its buffers, the reactions of its screen and the scan of the
  outbox. The examples run in \<open>demo_c\<close>.
\<close>

section \<open>The queue on disk\<close>

text \<open>C13: the file of queued messages is a queue. Whatever is put into it and drained from it, each
  draining returns the messages a list would return, in order, starting from those the file held.\<close>

theorem queue_refines:
  assumes "pj_ok E" and "can_write E path" and "\<not> is_dir E path" and "queue_wf path d"
    and "\<forall>m. Put m \<in> set ops \<longrightarrow> ascii_msg m"
  shows "store_run (\<lambda>m d. snd (Enqueue E now path m d)) (file_drain E path) ops d =
    store_run list_put list_take ops (queued E path d)"
  by (rule disk_queue.run_refines) (use assms in \<open>auto simp: pj_ok_def\<close>)

lemma newline_char: "newline = CHR 10"
  by (simp add: newline_def char_of_eq_iff)

lemma newline_not_base64: "newline \<notin> set (Base64Encode b)"
proof -
  have "newline \<noteq> std n" if "n < 64" for n
    using std_plain [OF that] by (auto simp: newline_char)
  then show ?thesis
    by (auto simp: Base64Encode_def b64_pad_def Let_def newline_char dest!: sextet_codes)
qed

lemma demo_pj_ok: "pj_ok demo_c"
  using newline_not_base64
  by (auto simp: pj_ok_def demo_pj_def demo_unpj_def chat_codec newline_char chat_enc_def)

theorem queue_refines_witness:
  "store_run (\<lambda>m d. snd (Enqueue demo_c 0 ''/q'' m d)) (file_drain demo_c ''/q'')
     [Put demo_line, Put empty_message, TakeAll, TakeAll] Map.empty = [[demo_line, empty_message], []]"
proof -
  have "store_run (\<lambda>m d. snd (Enqueue demo_c 0 ''/q'' m d)) (file_drain demo_c ''/q'')
     [Put demo_line, Put empty_message, TakeAll, TakeAll] Map.empty =
    store_run list_put list_take [Put demo_line, Put empty_message, TakeAll, TakeAll] (queued demo_c ''/q'' Map.empty)"
    by (rule queue_refines [OF demo_pj_ok])
      (auto simp: queue_wf_def read_disk_def demo_line_def empty_message_def ascii_msg_def ascii_def cfg)
  then show ?thesis by (simp add: list_put_def list_take_def queued_def read_disk_def)
qed

lemma flush_msgs_full:
  assumes "length (sendq c) + n = SendCap" and "n < length ms"
  shows "flush_msgs E ms c = to_disk E (ms ! n) (c\<lparr>sendq := sendq c @ take n ms\<rparr>)"
  using assms
proof (induction ms arbitrary: n c)
  case (Cons m ms)
  show ?case
  proof (cases n)
    case 0
    with Cons.prems show ?thesis by (simp add: try_post_def try_send_def)
  next
    case (Suc k)
    have "flush_msgs E (m # ms) c = flush_msgs E ms (c\<lparr>sendq := sendq c @ [m]\<rparr>)"
      using Cons.prems Suc by (simp add: try_post_def try_send_def)
    also have "\<dots> = to_disk E (ms ! k) (c\<lparr>sendq := sendq c @ [m] @ take k ms\<rparr>)"
      using Cons.IH [of "c\<lparr>sendq := sendq c @ [m]\<rparr>" k] Cons.prems Suc by simp
    finally show ?thesis using Suc by simp
  qed
qed simp

text \<open>C40: a full send channel loses queued messages. When the queue on disk is flushed while the
  channel has room for fewer messages than are waiting, the first ones go into the channel, one
  goes back to the file, and the rest is gone from both.\<close>

theorem flush_loses:
  assumes "pj_ok E" and "can_write E (queueFile c)" and "\<not> is_dir E (queueFile c)"
    and "queued E (queueFile c) (c_disk c) = ms" and "length (sendq c) + free = SendCap"
    and "free < length ms" and "ascii_msg (ms ! free)"
  shows "sendq (flushQueue E c) = sendq c @ take free ms \<and>
    queued E (queueFile c) (c_disk (flushQueue E c)) = [ms ! free]"
proof -
  obtain d where d: "Drain E (queueFile c) (c_disk c) = (Some ms, d)" "queued E (queueFile c) d = []"
    "queue_wf (queueFile c) d"
    using drain_effect [OF assms(3), of "c_disk c"] assms(4) by (metis prod.collapse)
  obtain b where b: "pj_enc E (ms ! free) = Some b" using assms(1,7) by (auto simp: pj_ok_def)
  have "flushQueue E c = to_disk E (ms ! free) (c\<lparr>c_disk := d, sendq := sendq c @ take free ms\<rparr>)"
    using flush_msgs_full [of "c\<lparr>c_disk := d\<rparr>" free ms E] assms(5,6) by (simp add: flushQueue_def d(1))
  then show ?thesis
    using queued_enqueue(2) [OF assms(1) d(3) assms(2) b] by (simp add: to_disk_def d(2))
qed

theorem flush_loses_witness:
  "\<exists>d. queued demo_c ''/q'' d = [demo_line, empty_message, demo_line] \<and>
     (let c = (demo_cli ''ann'')\<lparr>queueFile := ''/q'', sendq := replicate 255 demo_line, c_disk := d\<rparr>
      in queued demo_c ''/q'' (c_disk (flushQueue demo_c c)) = [empty_message])"
proof -
  have asc: "ascii_msg demo_line" "ascii_msg empty_message"
    by (auto simp: demo_line_def empty_message_def ascii_msg_def ascii_def cfg)
  obtain d where d: "queued demo_c ''/q'' d = [demo_line, empty_message, demo_line]"
    using disk_queue.enq_all [of "''/q''" Map.empty demo_c "[demo_line, empty_message, demo_line]" 0] demo_pj_ok asc
    by (fastforce simp: queue_wf_def queued_def read_disk_def pj_ok_def)
  have "sendq (flushQueue demo_c c) = sendq c @ take 1 [demo_line, empty_message, demo_line] \<and>
    queued demo_c (queueFile c) (c_disk (flushQueue demo_c c)) = [[demo_line, empty_message, demo_line] ! 1]"
    if "c = (demo_cli ''ann'')\<lparr>queueFile := ''/q'', sendq := replicate 255 demo_line, c_disk := d\<rparr>" for c
    by (rule flush_loses [OF demo_pj_ok]) (use that d asc in \<open>simp_all add: cfg\<close>)
  with d show ?thesis by (auto simp: Let_def)
qed

section \<open>The identity keys\<close>

definition key_file_found :: "'a client_env_scheme \<Rightarrow> string \<Rightarrow> disk \<Rightarrow> bool" where
  "key_file_found E nick d \<longleftrightarrow>
     (case read_disk (IdentityKey E nick) d of Some data \<Rightarrow> length data = 64 | None \<Rightarrow> False)"

lemma load_plain:
  "key_file_found E nick d \<Longrightarrow> passphrase E = [] \<Longrightarrow>
   fst (loadIdentityKeys E now nick (pos, d)) =
     (let data = the (read_disk (IdentityKey E nick) d) in (drop 32 data, take 64 data))"
  by (simp add: loadIdentityKeys_def key_file_found_def Let_def)

lemma load_wrapped:
  "\<not> key_file_found E nick d \<Longrightarrow> passphrase E \<noteq> [] \<Longrightarrow>
   ReadWrapped E (IdentityKeyWrap E nick) (passphrase E) d = Some sk \<Longrightarrow> length sk = 64 \<Longrightarrow>
   loadIdentityKeys E now nick (pos, d) = ((drop 32 sk, take 64 sk), pos, d)"
  by (simp add: loadIdentityKeys_def key_file_found_def Let_def)

text \<open>The three ways a start can take: a key file (wrapped at once under a passphrase), a wrapped key,
  or a key that is made.\<close>

lemma wrapped_written:
  assumes "gcm_correct E" and "gcm_overhead E" and "kdf_sizes E" and "can_write E (IdentityKeyWrap E nick)"
    and "IdentityKey E nick \<noteq> IdentityKeyWrap E nick"
  obtains p d1 where "WriteWrapped E now i (IdentityKeyWrap E nick) pass sk d = (True, p, d1)"
    and "ReadWrapped E (IdentityKeyWrap E nick) pass d1 = Some sk"
    and "d1 (IdentityKey E nick) = d (IdentityKey E nick)"
  using read_wrapped_write [OF assms(1-4)] assms(5) by blast

lemma found_again:
  assumes "gcm_correct E" and "gcm_overhead E" and "kdf_sizes E" and "can_write E (IdentityKeyWrap E nick)"
    and "IdentityKey E nick \<noteq> IdentityKeyWrap E nick" and "key_file_found E nick d"
    and "loadIdentityKeys E now nick (pos, d) = (keys, pos', d')"
  shows "fst (loadIdentityKeys E now' nick (pos'', d')) = keys"
proof -
  let ?K = "IdentityKey E nick" and ?W = "IdentityKeyWrap E nick" and ?pass = "passphrase E"
  obtain data where data: "read_disk ?K d = Some data" "length data = 64"
    using assms(6) by (auto simp: key_file_found_def split: option.splits)
  show ?thesis
  proof (cases "?pass = []")
    case True
    then show ?thesis using assms(7) data by (auto simp: loadIdentityKeys_def)
  next
    case False
    obtain p d1 where w: "WriteWrapped E now pos ?W ?pass data d = (True, p, d1)" "ReadWrapped E ?W ?pass d1 = Some data"
      using wrapped_written [OF assms(1-5)] by metis
    have new: "keys = (drop 32 data, take 64 data)" "d' = remove_disk ?K d1"
      using assms(7) False data by (simp_all add: loadIdentityKeys_def w(1) Let_def)
    have "ReadWrapped E ?W ?pass d' = Some data"
      using w(2) assms(5) by (simp add: ReadWrapped_def new(2) read_disk_remove)
    then show ?thesis
      using load_wrapped [of E nick d' data] False data(2) by (simp add: key_file_found_def new read_disk_remove)
  qed
qed

lemma made_again:
  assumes "gcm_correct E" and "gcm_overhead E" and "kdf_sizes E" and "can_write E (IdentityKeyWrap E nick)"
    and "IdentityKey E nick \<noteq> IdentityKeyWrap E nick" and "can_write E (IdentityKey E nick)" and "sign_ok E"
    and "\<not> key_file_found E nick d"
    and "passphrase E = [] \<or> \<not> (\<exists>sk. ReadWrapped E (IdentityKeyWrap E nick) (passphrase E) d = Some sk \<and> length sk = 64)"
    and "loadIdentityKeys E now nick (pos, d) = (keys, pos', d')"
  shows "fst (loadIdentityKeys E now' nick (pos'', d')) = keys"
proof -
  let ?K = "IdentityKey E nick" and ?W = "IdentityKeyWrap E nick" and ?pass = "passphrase E"
  let ?seed = "rand_bytes E pos 32"
  let ?sk = "?seed @ ed25519_pub E ?seed"
  have len: "length (ed25519_pub E ?seed) = 32" using assms(7) by (simp add: sign_ok_def)
  show ?thesis
  proof (cases "?pass = []")
    case True
    then have new: "keys = (ed25519_pub E ?seed, ?sk)" "d' = snd (write_disk E now ?K ?sk d)"
      using assms(8,10) by (simp_all add: loadIdentityKeys_def key_file_found_def GenerateSigningKeyPair_def Let_def)
    then show ?thesis
      using load_plain [of E nick d'] True len assms(6) by (simp add: key_file_found_def new read_disk_write)
  next
    case pass: False
    obtain p d1 where w: "WriteWrapped E now (pos + 32) ?W ?pass ?sk d = (True, p, d1)"
      "ReadWrapped E ?W ?pass d1 = Some ?sk" "d1 ?K = d ?K"
      using wrapped_written [OF assms(1-5)] by metis
    have new: "keys = (ed25519_pub E ?seed, ?sk)" "d' = d1"
      using assms(8-10) pass
      by (auto simp: loadIdentityKeys_def key_file_found_def GenerateSigningKeyPair_def w(1) Let_def split: option.splits)
    have "read_disk ?K d1 = read_disk ?K d" by (simp add: read_disk_def w(3))
    then show ?thesis
      using load_wrapped [of E nick d' ?sk] assms(8) pass w(2) len by (simp add: key_file_found_def new)
  qed
qed

text \<open>C17: a client keeps its identity. Whatever the first start finds on disk, with a passphrase or
  without, the second start with the same passphrase has the same key pair.\<close>

theorem identity_persists:
  assumes "gcm_correct E" and "gcm_overhead E" and "kdf_sizes E" and "sign_ok E"
    and "can_write E (IdentityKey E nick)" and "can_write E (IdentityKeyWrap E nick)"
    and "IdentityKey E nick \<noteq> IdentityKeyWrap E nick"
    and "loadIdentityKeys E now nick (pos, d) = (keys, pos', d')"
  shows "fst (loadIdentityKeys E now' nick (pos'', d')) = keys"
proof (cases "key_file_found E nick d")
  case True
  then show ?thesis using found_again [OF assms(1-3,6,7)] assms(8) by blast
next
  case missing: False
  show ?thesis
  proof (cases "passphrase E \<noteq> [] \<and>
      (\<exists>sk. ReadWrapped E (IdentityKeyWrap E nick) (passphrase E) d = Some sk \<and> length sk = 64)")
    case True
    then show ?thesis using load_wrapped [OF missing] assms(8) by auto
  next
    case False
    then show ?thesis using made_again [OF assms(1-3,6,7,5,4) missing] assms(8) by blast
  qed
qed

theorem identity_persists_witness:
  "\<exists>keys pos d. loadIdentityKeys (demo_c\<lparr>passphrase := ''s''\<rparr>) 0 ''ann'' (0, Map.empty) = (keys, pos, d) \<and>
    fst (loadIdentityKeys (demo_c\<lparr>passphrase := ''s''\<rparr>) 5 ''ann'' (pos, d)) = keys"
proof -
  let ?E = "demo_c\<lparr>passphrase := ''s''\<rparr>"
  obtain keys pos d where l: "loadIdentityKeys ?E 0 ''ann'' (0, Map.empty) = (keys, pos, d)"
    by (metis prod.collapse)
  have laws: "gcm_correct ?E" "gcm_overhead ?E" "kdf_sizes ?E" "sign_ok ?E"
    using demo_c_gcm demo_c_keys demo_sign_ok
    by (simp_all add: gcm_correct_def gcm_overhead_def kdf_sizes_def sign_ok_def)
  have "fst (loadIdentityKeys ?E 5 ''ann'' (pos, d)) = keys"
    by (rule identity_persists [OF laws _ _ _ l])
      (simp_all add: IdentityKey_def IdentityKeyWrap_def app_path_def JoinPath_def Clean_def is_rooted_def
        clean_comps_def clean_step_def slash_def)
  with l show ?thesis by blast
qed

section \<open>Bounds\<close>

text \<open>C18: a client stays within its buffers. From the handshake on, in every run of its goroutines and
  its user, at most 256 messages wait to be sent, 200 to be shown, 65 for a sender key, and 64
  chunks for a download.\<close>

theorem client_stays_bounded:
  assumes "client_finish E now nick address useTor et hs resp x = Inr c" and "cli_run E evs c = Some c'"
  shows "length (sendq c') \<le> 256 \<and> length (updates c') \<le> 200 \<and> length (pendingDecrypt c') \<le> 65 \<and>
    {q \<in> ran (fileGets c'). length q > 64} = {}"
proof -
  have "cli_bounded c"
    using assms(1) by (auto simp: client_finish_def new_cli_bounded split: option.splits)
  from cbound_run [OF assms(2) this] show ?thesis
    by (auto simp: cli_bounded_def cfg ran_def not_less)
qed

lemma demo_ok:
  obtains b where "client_finish demo_c 0 nick ''hub:1'' False None demo_hs (hsOK # b) (0, Map.empty) = Inr (demo_cli nick)"
proof -
  let ?ok = "\<lparr>ok_VaultPort = 0, ok_Version = Version, ok_Approved = True\<rparr>"
  obtain b where b: "ok_enc ?ok = Some b" "b \<noteq> []" using demo_ok_fits by blast
  have "pb_ok_dec demo_c b = Some ?ok" using b(1) demo_pb(3) by (simp add: pb_handshake_ok_def demo_c_def demo_def)
  then show ?thesis
    using b(2) by (intro that [of b]) (simp add: client_finish_def UnmarshalErr_def UnmarshalOK_def hs_tags demo_cli_def)
qed

theorem client_stays_bounded_witness:
  "\<exists>resp c c'. client_finish demo_c 0 ''ann'' ''hub:1'' False None demo_hs resp (0, Map.empty) = Inr c \<and>
    cli_run demo_c [HeartbeatTick, Closed] c = Some c' \<and> length (updates c') \<le> 200"
proof -
  obtain b where b: "client_finish demo_c 0 ''ann'' ''hub:1'' False None demo_hs (hsOK # b) (0, Map.empty) =
      Inr (demo_cli ''ann'')"
    by (rule demo_ok)
  have "cli_run demo_c [HeartbeatTick, Closed] (demo_cli ''ann'') \<noteq> None"
    by (simp add: heartbeat_tick_def send_block_def cfg demo_cli_def)
  then obtain c' where c': "cli_run demo_c [HeartbeatTick, Closed] (demo_cli ''ann'') = Some c'" by blast
  from client_stays_bounded [OF b c'] b c' show ?thesis by blast
qed

section \<open>Pinned identities\<close>

text \<open>C14: a pinned identity is kept. In every run in which the user does not trust a new key of that
  nickname, whatever the hub sends and in whatever order the goroutines run, the key pinned for
  it stays.\<close>

theorem pins_hold:
  assumes "cli_run E evs c = Some c'" and "pin_of c nick = Some key" and "UserTrust nick \<notin> set evs"
  shows "pin_of c' nick = Some key"
  by (rule pin_run [OF assms])

definition demo_pinned :: Cli where
  "demo_pinned = (demo_cli ''ann'')\<lparr>IdStore := (IdStore (demo_cli ''ann''))\<lparr>Identities := [(''bob'', ''k'')]\<rparr>\<rparr>"

lemma demo_pin: "pin_of demo_pinned ''bob'' = Some ''k''"
  by (simp add: pin_of_def demo_pinned_def)

theorem pins_hold_witness:
  "\<exists>c. cli_run demo_c [Closed, UserTrust ''cat'', Publish] demo_pinned = Some c \<and> pin_of c ''bob'' = Some ''k''"
proof -
  obtain c where c: "cli_run demo_c [Closed, UserTrust ''cat'', Publish] demo_pinned = Some c" by simp
  from pins_hold [OF c demo_pin] c show ?thesis by auto
qed

definition suspect_of :: "Cli \<Rightarrow> string \<Rightarrow> string option" where
  "suspect_of c = map_of (mismatch (IdStore c))"

lemma suspect_blocks: "suspect_of c nick \<noteq> None \<Longrightarrow> HasMismatch (IdStore c)"
  by (auto simp: suspect_of_def HasMismatch_def)

lemma listed_other:
  assumes "hd (Split p (CHR ''|'')) \<noteq> nick"
  shows "suspect_of (on_listed_user E p c) nick = suspect_of c nick"
proof -
  have "map_of (mismatch (fst (snd (Check E now n b (IdStore c, d))))) nick = map_of (mismatch (IdStore c)) nick"
    if "n \<noteq> nick" for now n b d
    using Check_effect(2) [of E now n b "(IdStore c, d)"] that
    by (auto simp: suspect_def fun_eq_iff split: option.splits if_splits)
  then show ?thesis
    using assms by (auto simp: on_listed_user_def suspect_of_def Let_def case_prod_beta pins split: list.split)
qed

lemma listed_changed:
  assumes "Split p (CHR ''|'') = nick # k # rest" and "length (fst (Base64DecodeErr k)) = 32"
    and "pin_of c nick = Some key" and "k \<noteq> key"
  shows "suspect_of (on_listed_user E p c) nick = Some k"
proof -
  have "fst (fst (Check E now nick k (IdStore c, d))) = False"
    "map_of (mismatch (fst (snd (Check E now nick k (IdStore c, d))))) nick = Some k" for now d
    using Check_effect(2,3) [of E now nick k "(IdStore c, d)"] assms(3,4)
    by (auto simp: suspect_def pin_def pin_of_def)
  then show ?thesis
    using assms(1,2) by (simp add: on_listed_user_def suspect_of_def Let_def case_prod_beta pins split: list.split)
qed

lemma listed_others:
  "nick \<notin> (\<lambda>q. hd (Split q (CHR ''|''))) ` set qs \<Longrightarrow>
   suspect_of (fold (on_listed_user E) qs c) nick = suspect_of c nick"
  by (induction qs arbitrary: c) (auto simp: listed_other)

text \<open>C15: a changed key stops the client. When the user list announces a member whose identity is
  pinned with another key, and no later entry of the list names that member, the pin stays and no
  chat or private message is written on the connection: it is taken off the queue and dropped.\<close>

theorem changed_key_blocks:
  assumes "Type m = MsgTypeUserList" and "Split (Content m) (CHR '','') = ps @ p # qs"
    and "Split p (CHR ''|'') = nick # k # rest" and "length (fst (Base64DecodeErr k)) = 32"
    and "pin_of c nick = Some key" and "k \<noteq> key" and "nick \<notin> (\<lambda>q. hd (Split q (CHR ''|''))) ` set qs"
    and "on_message E m c = Some c'" and "Type m' = MsgTypeChat \<or> Type m' = MsgTypePrivate"
  shows "pin_of c' nick = Some key \<and> sendq (write_next E (c'\<lparr>sendq := m' # ms\<rparr>)) = ms \<and>
    wire_out (write_next E (c'\<lparr>sendq := m' # ms\<rparr>)) = wire_out c'"
proof -
  have c': "c' = sendUpdate m (on_user_list E m c)"
    using assms(1,8) by (simp add: on_message_def check_version_def open_group_def open_private_def Let_def cfg)
  let ?c1 = "fold (on_listed_user E) ps (publishSenderKey E c)"
  have "pin_of ?c1 nick = Some key" by (rule pin_fold) (use assms(5) in \<open>simp add: pin_of_def pins\<close>)
  then have "suspect_of (on_user_list E m c) nick = Some k"
    by (simp add: on_user_list_def assms(2) listed_others [OF assms(7)] listed_changed [OF assms(3,4) _ assms(6)])
  then have "suspect_of (c'\<lparr>sendq := ms'\<rparr>) nick \<noteq> None" for ms' by (simp add: suspect_of_def c' pins)
  from suspect_blocks [OF this] have block: "HasMismatch (IdStore c')" by simp
  have "pin_of c' nick = Some key" using pin_user_list [OF assms(5)] by (simp add: c' pin_of_def pins)
  then show ?thesis
    using assms(9) block by (auto simp: write_next_def prepare_def Let_def sendUpdate_def)
qed

definition demo_key :: string where
  "demo_key = ''AAAAAAAAAAAAAAAAAAAAAAAAAAAAAAAAAAAAAAAAAAA=''"

theorem changed_key_blocks_witness:
  "\<exists>c'. on_message demo_c (empty_message\<lparr>Type := MsgTypeUserList, Content := ''bob|'' @ demo_key\<rparr>) demo_pinned = Some c' \<and>
    sendq (write_next demo_c (c'\<lparr>sendq := [demo_line]\<rparr>)) = [] \<and>
    wire_out (write_next demo_c (c'\<lparr>sendq := [demo_line]\<rparr>)) = wire_out c'"
proof -
  let ?m = "empty_message\<lparr>Type := MsgTypeUserList, Content := ''bob|'' @ demo_key\<rparr>"
  have "on_message demo_c ?m demo_pinned \<noteq> None"
    by (simp add: on_message_def Let_def case_prod_beta cfg)
  then obtain c' where c': "on_message demo_c ?m demo_pinned = Some c'" by blast
  have one: "Split (Content ?m) (CHR '','') = [] @ (''bob|'' @ demo_key) # []" by (simp add: demo_key_def)
  have two: "Split (''bob|'' @ demo_key) (CHR ''|'') = ''bob'' # demo_key # []" by (simp add: demo_key_def)
  have len: "length (fst (Base64DecodeErr demo_key)) = 32"
    by (simp add: demo_key_def Base64DecodeErr_def unwrap_lines_def std_alphabet_def)
  have "pin_of c' ''bob'' = Some ''k'' \<and> sendq (write_next demo_c (c'\<lparr>sendq := demo_line # []\<rparr>)) = [] \<and>
    wire_out (write_next demo_c (c'\<lparr>sendq := demo_line # []\<rparr>)) = wire_out c'"
    by (rule changed_key_blocks [OF _ one two len demo_pin _ _ c']) (simp_all add: demo_key_def demo_line_def)
  with c' show ?thesis by blast
qed

section \<open>Reactions\<close>

text \<open>A user can react to nothing. In every run of the screen the command \<open>/react\<close> answers that
  there is no message to react to: a row of another member never carries a message id.\<close>

lemma reactions_never_sent:
  assumes "tui_run E evs (InitialModel c nick addr useTor contrast now) = Shown m"
  shows "handleInput E (''/react '' @ emoji) m =
    Shown (say E (u_cross @ '' No recent message found to react to.'') m)"
proof -
  have "keeps_rows (tui_run E evs (InitialModel c nick addr useTor contrast now))" by (rule keeps_run) (rule rows_start)
  then have "rows_ok m" using assms by simp
  then show ?thesis
    by (simp add: handleInput_def hub_commands_def HasPrefix_def numeral_2_eq_2 Cut_def nothing_to_react)
qed

definition demo_terminal :: terminal where
  "demo_terminal =
     \<lparr>draw = (\<lambda>_. id), centred = (\<lambda>_ _. id), beside = concat, pane = (\<lambda>_ _. id), field = (\<lambda>_. id)\<rparr>"

definition demo_ui :: ui_env where
  "demo_ui = client_env.extend demo_c (ui_env.fields demo_terminal (\<lambda>_. id) id (\<lambda>_. []) (\<lambda>_. id) id
     \<lparr>lib_write = (\<lambda>_. True), lib_read = None, on_path = (\<lambda>_. False), takes = (\<lambda>_ _. False), prints = (\<lambda>_. None)\<rparr>
     (\<lambda>_ _. []))"

lemma reactions_never_sent_example:
  "\<exists>m. tui_run demo_ui [WindowSize 80 24, Update (demo_line\<lparr>MessageId := ''7''\<rparr>)] (InitialModel None ''bob'' ''hub:6666'' False False 0) = Shown m \<and>
    handleInput demo_ui ''/react +'' m =
      Shown (say demo_ui (u_cross @ '' No recent message found to react to.'') m)"
proof -
  obtain m where m: "tui_run demo_ui [WindowSize 80 24, Update (demo_line\<lparr>MessageId := ''7''\<rparr>)]
      (InitialModel None ''bob'' ''hub:6666'' False False 0) = Shown m"
    by (simp add: tui_update_def Let_def)
  from reactions_never_sent [OF this, of "''+''"] m show ?thesis by auto
qed

section \<open>The outbox\<close>

text \<open>C33: polling the outbox agrees with a reference that keeps no table: at every tick, in the order
  of the listing, exactly those files are reported whose modification time is later than every time
  the earlier listings showed for a file of that name; a tick at which the directory cannot be read
  reports nothing and forgets nothing.\<close>

theorem outbox_polls:
  assumes "\<forall>t \<in> set ticks. distinct (map fi_name (listed t))"
  shows "WatcherEvents w False entries ns ticks =
    concat (map (\<lambda>k. reports w (concat (map listed (take k ticks))) (ticks ! k)) [0..<length ticks])"
  using poll_reports [OF assms, of Map.empty "[]" w] by (simp add: WatcherEvents_def newer_def fun_eq_iff)

theorem outbox_polls_witness:
  "map (fi_mod \<circ> snd) (WatcherEvents (NewWatcher ''/o'' 0) False None []
      [Some [\<lparr>fi_name = ''a'', fi_mod = 3, fi_dir = False\<rparr>], None,
       Some [\<lparr>fi_name = ''a'', fi_mod = 3, fi_dir = False\<rparr>, \<lparr>fi_name = ''b'', fi_mod = 1, fi_dir = False\<rparr>],
       Some [\<lparr>fi_name = ''a'', fi_mod = 4, fi_dir = False\<rparr>]]) = [3, 1, 4]"
proof -
  let ?ticks = "[Some [\<lparr>fi_name = ''a'', fi_mod = 3, fi_dir = False\<rparr>], None,
       Some [\<lparr>fi_name = ''a'', fi_mod = 3, fi_dir = False\<rparr>, \<lparr>fi_name = ''b'', fi_mod = 1, fi_dir = False\<rparr>],
       Some [\<lparr>fi_name = ''a'', fi_mod = 4, fi_dir = False\<rparr>]]"
  have "\<forall>t \<in> set ?ticks. distinct (map fi_name (listed t))" by (simp add: listed_def)
  from outbox_polls [OF this, of "NewWatcher ''/o'' 0" None "[]"] show ?thesis
    by (simp add: upt_rec numeral_nat reports_def listed_def)
qed

text \<open>A scan of a directory reports, in its order, exactly the files that are new or have become
  newer since they were reported, and a second scan of an unchanged directory reports nothing.\<close>

lemma scan_equals_filter:
  assumes "distinct (map fi_name es)"
  shows "fst (scan w (Some es) s) = map (\<lambda>e. (JoinPath [w_dir w, fi_name e], e)) (filter (newer s) es) \<and>
    fst (scan w (Some es) (snd (scan w (Some es) s))) = []"
  using scan_go_reports [OF assms, of "w_dir w" s]
    scan_go_reports [OF assms, of "w_dir w" "snd (scan_go (w_dir w) es s)"]
  by (simp add: scan_def filter_empty_conv)

lemma scan_equals_filter_example:
  "fst (scan (NewWatcher ''/o'' 0) (Some [\<lparr>fi_name = ''a'', fi_mod = 3, fi_dir = False\<rparr>,
      \<lparr>fi_name = ''b'', fi_mod = 1, fi_dir = False\<rparr>]) [''a'' \<mapsto> 2, ''b'' \<mapsto> 1]) =
    [(JoinPath [''/o'', ''a''], \<lparr>fi_name = ''a'', fi_mod = 3, fi_dir = False\<rparr>)]"
proof -
  let ?es = "[\<lparr>fi_name = ''a'', fi_mod = 3, fi_dir = False\<rparr>, \<lparr>fi_name = ''b'', fi_mod = 1, fi_dir = False\<rparr>]"
  have "distinct (map fi_name ?es)" by simp
  from scan_equals_filter [OF this, of "NewWatcher ''/o'' 0" "[''a'' \<mapsto> 2, ''b'' \<mapsto> 1]"]
  show ?thesis by (simp add: newer_def NewWatcher_def)
qed

end
