(* ===== verification/Confidentiality.thy ===== *)
theory Confidentiality
  imports ClientGuarantees
begin

text \<open>
  Who can read what passes through the hub: private messages between two members, and room
  traffic, whose keys pass through the hub as well.
\<close>

section \<open>Private messages\<close>

definition sealed_private :: "ChatMessage \<Rightarrow> string \<Rightarrow> bytes \<Rightarrow> bytes \<Rightarrow> ChatMessage" where
  "sealed_private m rm ct pub =
     m\<lparr>OnionAddr := (if OnionAddr m = [] then rm else OnionAddr m), Content := Base64Encode ct, IsE2Ee := True,
       PubKey := Base64Encode pub\<rparr>"

lemma private_prepared:
  assumes "Type m = MsgTypePrivate" and "\<not> HasMismatch (IdStore c)" and "PeerE2E c (ReplyTo m) = Some pub"
    and "length pub = 32" and "E2EPriv c \<noteq> []" and "DeriveSharedKey C (E2EPriv c) pub = Some sk"
    and "kdf_sizes C" and "gcm_correct C"
  shows "\<exists>ct c1. prepare C m c = (Some (sealed_private m (CurrentRoom c) ct (E2EPub c)), c1) \<and>
    Decrypt C sk ct = Some (Content m) \<and> wire_out c1 = wire_out c \<and> SessionKey c1 = SessionKey c"
proof -
  have "length sk = 32" using shared_key_size [OF assms(7,6)] .
  then obtain ct where ct: "Encrypt C (c_pos c) sk (Content m) = (Some ct, c_pos c + nonceSize)"
    using Encrypt_total aes_key_32 by blast
  show ?thesis
    using Decrypt_Encrypt [OF assms(8) ct] assms(1-6)
    by (intro exI [of _ ct]) (simp add: prepare_def Let_def seal_private_def ct sealed_private_def cfg)
qed

lemma relay_private_delivers:
  assumes "gcm_correct E" and "State (objs H r) \<noteq> ''PENDING''" and "open_message E (objs H r) t = Some msg"
    and "Type msg = MsgTypePrivate" and "Encode E msg = Some bs" and "Decode E bs = Some msg"
    and "fst (allowMessage (clock H) (objs H r))" and "GetClientByNickname (ReplyTo msg) H = Some q" and "q \<noteq> r"
    and "State (objs H q) = ''WHITELISTED''" and "length (SendChan (objs H q)) < 100"
    and "aes_key_ok (EncryptionKey (objs H q))"
  shows "\<exists>p. SendChan (objs (processClientMessage E r t H) q) = SendChan (objs H q) @ [p] \<and>
    received E (EncryptionKey (objs H q)) p = Some msg"
proof -
  define H1 where "H1 = upd_obj r (\<lambda>_. snd (allowMessage (clock H) (objs H r))) H"
  define H3 where "H3 = Log E (''[PRIVATE] '' @ Nickname (objs (send_ack E r msg H1) r) @ '' -> '' @ ReplyTo msg @
    '' (ciphertext)'') (send_ack E r msg H1)"
  have nick: "Nickname (objs H1 x) = Nickname (objs H x)" "clients H1 = clients H" for x
    by (simp_all add: H1_def upd_obj_apply allowMessage_def Let_def)
  have same: "State (objs H3 q) = State (objs H q)" "SendChan (objs H3 q) = SendChan (objs H q)"
    "EncryptionKey (objs H3 q) = EncryptionKey (objs H q)"
    using assms(9) by (simp_all add: H3_def H1_def upd_obj_apply send_ack_other)
  have by_nick: "GetClientByNickname (ReplyTo msg) H3 = Some q"
    using assms(8) by (simp add: H3_def) (simp add: GetClientByNickname_def nick)
  have "processClientMessage E r t H = relay_private E r msg (send_ack E r msg H1)"
    using assms(2-4,7)
    by (simp add: processClientMessage_def dispatch_def rate_limited_def Let_def case_prod_beta cfg H1_def)
  also have "\<dots> = snd (deliver E q bs H3)"
    using by_nick same(1) assms(5,10) unfolding relay_private_def Let_def H3_def [symmetric]
    by (simp add: nil_or_def)
  finally have run: "processClientMessage E r t H = snd (deliver E q bs H3)" .
  obtain ct where ct: "Encrypt E (rpos H3) (EncryptionKey (objs H3 q)) bs = (Some ct, rpos H3 + nonceSize)"
    using Encrypt_total assms(12) same(3) by metis
  note ct' = ct [unfolded same(3)]
  have "Decrypt E (EncryptionKey (objs H q)) ct = Some bs" using Decrypt_Encrypt [OF assms(1) ct'] .
  then show ?thesis
    using assms(6,11) same
    by (simp add: run snd_deliver SendChan_queue_to seal_for_def case_prod_beta ct' nil_or_def received_def opened_def)
qed

lemma private_read:
  assumes "received D (SessionKey d) p = Some (sealed_private m rm ct pub)" and "Type m = MsgTypePrivate"
    and "Sender m \<noteq> c_Nickname d" and "length pub = 32" and "E2EPriv d \<noteq> []"
    and "DeriveSharedKey D (E2EPriv d) pub = Some sk" and "Decrypt D sk ct = Some pt"
    and "length (updates d) < UpdateCap"
  shows "\<exists>d'. read_payload D p d = Some (True, d') \<and>
    updates d' = updates d @ [(sealed_private m rm ct pub)\<lparr>Content := pt\<rparr>]"
proof -
  let ?m = "sealed_private m rm ct pub"
  obtain enc bs where d: "Base64Decode p = Some enc" "Decrypt D (SessionKey d) enc = Some bs" "Decode D bs = Some ?m"
    using assms(1) by (auto simp: received_def opened_def bind_eq_Some_conv)
  have frame: "open_frame D (SessionKey d) p = Incoming ?m"
    using not_error_frame [OF d(1)] by (simp add: open_frame_def d)
  have pub: "fst (Base64DecodeErr (Base64Encode pub)) = pub" by (simp add: Base64_roundtrip_err)
  have "pub \<noteq> []" using assms(4) by auto
  then have "open_private D ?m d = ?m\<lparr>Content := pt\<rparr>"
    using assms(2-7) by (simp add: open_private_def sealed_private_def pub)
  moreover have "open_group D ?m d = (?m, d)" "check_version ?m d = d"
    using assms(2) by (simp_all add: open_group_def check_version_def sealed_private_def cfg)
  ultimately show ?thesis
    using assms(2,8)
    by (simp add: read_payload_def frame on_message_def sealed_private_def sendUpdate_def try_send_def cfg)
qed

text \<open>C29: a private message is read by its addressee. It leaves the sender's queue sealed under the
  key the two members share, the hub relays it, and the addressee, when its read loop has room
  to show it, shows the same text under the sender's name.\<close>

theorem private_end_to_end:
  assumes "same_world E C" and "same_world E D" and "wire_ok E" and "kdf_sizes C" and "dh_commutes E"
    and "sendq c = m # ms" and "Type m = MsgTypePrivate" and "\<not> HasMismatch (IdStore c)"
    and "x25519 E (E2EPriv c) (x25519_base E) = Some (E2EPub c)" and "x25519 E (E2EPriv d) (x25519_base E) = Some pub"
    and "PeerE2E c (ReplyTo m) = Some pub" and "length pub = 32" and "length (E2EPub c) = 32"
    and "E2EPriv c \<noteq> []" and "E2EPriv d \<noteq> []" and "x25519 E (E2EPriv c) pub \<noteq> None"
    and "ascii_msg (m\<lparr>Content := []\<rparr>)" and "ascii (CurrentRoom c)" and "wire_out (write_next C c) \<noteq> wire_out c"
    and "State (objs H r) \<noteq> ''PENDING''" and "EncryptionKey (objs H r) = SessionKey c"
    and "GetClientByNickname (ReplyTo m) H = Some q" and "q \<noteq> r" and "State (objs H q) = ''WHITELISTED''"
    and "EncryptionKey (objs H q) = SessionKey d" and "aes_key_ok (SessionKey c)" and "aes_key_ok (SessionKey d)"
    and "fst (allowMessage (clock H) (objs H r))" and "length (SendChan (objs H q)) < 100"
    and "Sender m \<noteq> c_Nickname d" and "length (updates d) < UpdateCap"
  shows "\<exists>w t p d' msg. wire_out (write_next C c) = wire_out c @ w \<and> ReadFrame w = Inr (t, []) \<and>
    SendChan (objs (processClientMessage E r t H) q) = SendChan (objs H q) @ [p] \<and>
    read_payload D p d = Some (True, d') \<and> updates d' = updates d @ [msg] \<and> Type msg = MsgTypePrivate \<and>
    Sender msg = Sender m \<and> Content msg = Content m"
proof -
  note worldC = world_crypto [OF assms(1)] and worldD = world_crypto [OF assms(2)]
  have both: "x25519 E (E2EPriv c) pub = x25519 E (E2EPriv d) (E2EPub c)"
    using assms(5,9,10) unfolding dh_commutes_def by blast
  obtain sk where sk: "DeriveSharedKey E (E2EPriv c) pub = Some sk"
    using assms(16) by (auto simp: DeriveSharedKey_def)
  then have skd: "DeriveSharedKey E (E2EPriv d) (E2EPub c) = Some sk" by (simp add: DeriveSharedKey_def both)
  obtain ct c1 where prep: "prepare C m (c\<lparr>sendq := ms\<rparr>) = (Some (sealed_private m (CurrentRoom c) ct (E2EPub c)), c1)"
    "Decrypt C sk ct = Some (Content m)" "wire_out c1 = wire_out c" "SessionKey c1 = SessionKey c"
    using private_prepared [OF assms(7), of "c\<lparr>sendq := ms\<rparr>" pub C sk] assms(4,8,11,12,14) world_laws(1) [OF assms(1,3)] sk
    by (auto simp: worldC)
  let ?m = "sealed_private m (CurrentRoom c) ct (E2EPub c)"
  have "ascii_msg ?m" using assms(17,18) by (simp add: ascii_msg_def sealed_private_def)
  from frame_written [OF assms(1,3,6) prep(1,3,4) assms(26) this assms(19)]
  obtain w t bs enc where w: "wire_out (write_next C c) = wire_out c @ w" "ReadFrame w = Inr (t, [])"
    "Base64Decode t = Some enc" "Decrypt E (SessionKey c) enc = Some bs" "Encode E ?m = Some bs" "Decode E bs = Some ?m"
    by blast
  have "open_message E (objs H r) t = Some ?m" by (simp add: open_message_def w assms(21))
  from relay_private_delivers [OF _ assms(20) this _ w(5,6) assms(28) _ assms(23,24,29)]
  obtain p where p: "SendChan (objs (processClientMessage E r t H) q) = SendChan (objs H q) @ [p]"
    "received E (EncryptionKey (objs H q)) p = Some ?m"
    using assms(3,7,22,25,27) by (auto simp: sealed_private_def wire_ok_def)
  have "received D (SessionKey d) p = Some ?m"
    using p(2) assms(25) by (simp add: received_def opened_def worldD bind_eq_Some_conv)
  from private_read [OF this assms(7,30,13,15) _ _ assms(31), of sk "Content m"]
  obtain d' where "read_payload D p d = Some (True, d')" "updates d' = updates d @ [?m\<lparr>Content := Content m\<rparr>]"
    using prep(2) skd by (auto simp: worldC worldD)
  then show ?thesis using w(1,2) p(1) assms(7) by (auto simp: sealed_private_def)
qed

text \<open>Two members of the example who know each other's keys.\<close>

definition demo_pm :: ChatMessage where
  "demo_pm = empty_message\<lparr>Type := MsgTypePrivate, Sender := ''ann'', ReplyTo := ''bob'', Content := ''hi''\<rparr>"

definition demo_from :: Cli where
  "demo_from = (demo_cli ''ann'')\<lparr>sendq := [demo_pm], PeerE2E := [''bob'' \<mapsto> zeros 32]\<rparr>"

lemma demo_keys_e2e [simp]: "E2EPriv (demo_cli nick) = zeros 32" "E2EPub (demo_cli nick) = zeros 32"
  by (simp_all add: demo_cli_def demo_hs_def new_cli_def SetRoomDirs_def Let_def case_prod_beta)

lemma demo_zeros: "zeros 32 \<noteq> []" "ascii (zeros 32)"
  by (simp_all add: zeros_def ascii_def)

lemma demo_from_writes: "wire_out (write_next demo_c demo_from) \<noteq> wire_out demo_from"
proof -
  let ?c = "demo_from\<lparr>sendq := []\<rparr>"
  obtain ct where ct: "Encrypt demo_c (c_pos ?c) (zeros 32) ''hi'' = (Some ct, c_pos ?c + nonceSize)"
    using Encrypt_total [of "zeros 32" demo_c "c_pos ?c" "''hi''"] by auto
  then have "length ct = 30" using length_encryptWithAAD [OF demo_c_gcm(3)] by (simp add: Encrypt_AAD)
  then have len: "length (Base64Encode ct) \<le> 64" using length_Base64Encode [of ct] by simp
  let ?m = "sealed_private demo_pm DefaultRoom ct (zeros 32)"
  have prep: "prepare demo_c demo_pm ?c = (Some ?m, ?c\<lparr>c_pos := c_pos ?c + nonceSize\<rparr>)"
    using ct demo_zeros
    by (simp add: prepare_def Let_def seal_private_def sealed_private_def demo_from_def demo_pm_def HasMismatch_def
        DeriveSharedKey_def DeriveSessionKey_def empty_message_def cfg)
  obtain bs where bs: "Encode demo_c ?m = Some bs" "length bs \<le> 10 ^ 6"
    using len length_Base64Encode [of "zeros 32"]
    by (simp add: Encode_def chat_enc_def sealed_private_def demo_pm_def enc_strs_def length_enc_str
        empty_message_def of_bool_str_def of_nat_str_def of_int_str_def cfg)
  show ?thesis
    by (rule small_leaves [OF prep _ bs demo_c_gcm(3)]) (simp_all add: demo_from_def)
qed

theorem private_end_to_end_witness:
  "\<exists>w t p d' msg. wire_out (write_next demo_c demo_from) = w \<and> ReadFrame w = Inr (t, []) \<and>
    SendChan (objs (processClientMessage demo 0 t demo_room) 1) = [p] \<and>
    read_payload demo_c p (demo_cli ''bob'') = Some (True, d') \<and> updates d' = [msg] \<and> Content msg = ''hi''"
proof -
  have "\<exists>w t p d' msg. wire_out (write_next demo_c demo_from) = wire_out demo_from @ w \<and> ReadFrame w = Inr (t, []) \<and>
    SendChan (objs (processClientMessage demo 0 t demo_room) 1) = SendChan (objs demo_room 1) @ [p] \<and>
    read_payload demo_c p (demo_cli ''bob'') = Some (True, d') \<and> updates d' = updates (demo_cli ''bob'') @ [msg] \<and>
    Type msg = MsgTypePrivate \<and> Sender msg = Sender demo_pm \<and> Content msg = Content demo_pm"
    by (rule private_end_to_end [OF demo_same_world demo_same_world demo_wire_ok demo_c_keys(2) demo_keys(1) _ _ _ _ _ _ _ _
          _ _ _ _ _ demo_from_writes, where pub = "zeros 32"])
      (use demo_zeros in \<open>simp_all add: demo_from_def demo_pm_def HasMismatch_def GetClientByNickname_def
        ascii_msg_def empty_message_def ascii_def allowMessage_def cfg\<close>)
  then show ?thesis by (auto simp: demo_from_def demo_pm_def)
qed

section \<open>Room traffic\<close>

text \<open>What an observer makes of frames of a member when it has no more than the key of the member's
  session: one carries a seed, another a message under the chain of that seed.\<close>

definition seed_in :: "'a wire_scheme \<Rightarrow> bytes \<Rightarrow> bytes \<Rightarrow> bytes option" where
  "seed_in W key t = Option.bind (received W key t) (\<lambda>k. Base64Decode (Content k))"

definition text_in :: "'a wire_scheme \<Rightarrow> bytes \<Rightarrow> bytes \<Rightarrow> bytes \<Rightarrow> bytes option" where
  "text_in W key seed t =
     Option.bind (received W key t) (\<lambda>m. Option.bind (Base64Decode (Content m))
       (Decrypt W (key_at (hmac_sha256 W) seed (unat (RatchetStep m)))))"

definition eavesdrop :: "'a wire_scheme \<Rightarrow> bytes \<Rightarrow> bytes \<Rightarrow> bytes \<Rightarrow> bytes option" where
  "eavesdrop W key t1 t2 = Option.bind (seed_in W key t1) (\<lambda>seed. text_in W key seed t2)"

text \<open>A member says one thing after the other: each message is queued and written. \<open>None\<close>: one
  of them finds no room, or its frame does not leave.\<close>

fun say_all :: "'a client_env_scheme \<Rightarrow> ChatMessage list \<Rightarrow> Cli \<Rightarrow> Cli option" where
  "say_all C [] c = Some c"
| "say_all C (m # ms) c =
     (case send_block m c of None \<Rightarrow> None
      | Some c1 \<Rightarrow>
          (let c2 = write_next C c1
           in if wire_out c2 = wire_out c1 then None else say_all C ms c2))"

lemma write_frame_fields [simp]:
  "Senders (write_frame W m c) = Senders c" "IdStore (write_frame W m c) = IdStore c"
  "sendq (write_frame W m c) = sendq c" "SessionKey (write_frame W m c) = SessionKey c"
  "CurrentRoom (write_frame W m c) = CurrentRoom c" "conn_up (write_frame W m c) = conn_up c"
  by (simp_all add: write_frame_def split: option.split prod.split sum.split)

text \<open>A seed goes out under the session encryption alone.\<close>

lemma seed_written:
  assumes "same_world E C" and "wire_ok E" and "sendq c = k # ms" and "Type k = MsgTypeSenderKey"
    and "ascii_msg k" and "ascii (CurrentRoom c)" and "aes_key_ok (SessionKey c)"
    and "wire_out (write_next C c) \<noteq> wire_out c"
  shows "\<exists>w t k'. wire_out (write_next C c) = wire_out c @ w \<and> ReadFrame w = Inr (t, []) \<and>
    received E (SessionKey c) t = Some k' \<and> Content k' = Content k"
    and "sendq (write_next C c) = ms" and "Senders (write_next C c) = Senders c"
    and "IdStore (write_next C c) = IdStore c" and "SessionKey (write_next C c) = SessionKey c"
    and "CurrentRoom (write_next C c) = CurrentRoom c"
proof -
  let ?k = "if OnionAddr k = [] then k\<lparr>OnionAddr := CurrentRoom c\<rparr> else k" and ?c = "c\<lparr>sendq := ms\<rparr>"
  have prep: "prepare C k ?c = (Some ?k, ?c)"
    using assms(4) by (simp add: prepare_def Let_def cfg)
  have step: "write_next C c = write_frame C ?k ?c" by (simp add: write_next_def assms(3) prep)
  show "sendq (write_next C c) = ms" "Senders (write_next C c) = Senders c" "IdStore (write_next C c) = IdStore c"
    "SessionKey (write_next C c) = SessionKey c" "CurrentRoom (write_next C c) = CurrentRoom c"
    unfolding step by simp_all
  have "ascii_msg ?k" using assms(5,6) by (simp add: ascii_msg_def)
  from frame_written [OF assms(1-3) prep _ _ assms(7) this assms(8)]
  obtain w t bs enc where w: "wire_out (write_next C c) = wire_out c @ w" "ReadFrame w = Inr (t, [])"
    "Base64Decode t = Some enc" "Decrypt E (SessionKey c) enc = Some bs" "Decode E bs = Some ?k"
    by auto
  have "received E (SessionKey c) t = Some ?k" by (simp add: received_def opened_def w)
  moreover have "Content ?k = Content k" by simp
  ultimately show "\<exists>w t k'. wire_out (write_next C c) = wire_out c @ w \<and> ReadFrame w = Inr (t, []) \<and>
    received E (SessionKey c) t = Some k' \<and> Content k' = Content k"
    using w(1,2) by blast
qed

lemma seed_queued:
  assumes "own_chain s = Some ra" and "initialKey ra \<noteq> []" and "Senders c = Some s" and "length (sendq c) < SendCap"
    and "pb_ascii_ok C" and "ascii (c_Nickname c)"
  shows "\<exists>k p. publishSenderKey C c = c\<lparr>c_pos := p, sendq := sendq c @ [k]\<rparr> \<and> Type k = MsgTypeSenderKey \<and>
    Content k = Base64Encode (initialKey ra) \<and> ascii_msg k"
proof -
  let ?k = "fst (CreateMessage C (c_now c) (c_pos c) MsgTypeSenderKey (Base64Encode (initialKey ra)) (c_Nickname c))"
  have "ascii MsgTypeSenderKey" by (simp add: ascii_def cfg)
  then have "ascii_msg ?k" using assms(5,6) by (intro ascii_CreateMessage) simp_all
  then show ?thesis
    using assms(2-4) export_own [OF assms(1)]
    by (intro exI [of _ ?k] exI [of _ "c_pos c + 8"])
      (simp add: publishSenderKey_def make_msg_def try_post_def try_send_def case_prod_beta)
qed

lemma chat_after:
  assumes "sendq c = m # ms" and "Type m = MsgTypeChat" and "\<not> HasMismatch (IdStore c)" and "Senders c = Some s"
    and "own_chain s = Some ra" and "ratchet_inv (hmac_sha256 C) seed used ra" and "rstep ra \<noteq> - 1"
    and "kdf_sizes C" and "gcm_correct C"
  obtains s1 r' where "Senders (write_next C c) = Some s1" and "own_chain s1 = Some r'"
    and "ratchet_inv (hmac_sha256 C) seed (insert (rstep ra) used) r'" and "rstep r' = rstep ra + 1"
    and "sendq (write_next C c) = ms" and "IdStore (write_next C c) = IdStore c"
    and "SessionKey (write_next C c) = SessionKey c" and "CurrentRoom (write_next C c) = CurrentRoom c"
proof -
  let ?c = "c\<lparr>sendq := ms\<rparr>"
  obtain ct s1 n r' where p: "prepare C m ?c =
      (Some (sealed_chat m (CurrentRoom c) ct (rstep ra)), ?c\<lparr>Senders := Some s1, c_pos := n\<rparr>)"
    "own_chain s1 = Some r'" "ratchet_inv (hmac_sha256 C) seed (insert (rstep ra) used) r'" "rstep r' = rstep ra + 1"
    using chat_prepared [OF assms(2), of ?c s ra C seed used] assms(3-9) by auto
  have "write_next C c = write_frame C (sealed_chat m (CurrentRoom c) ct (rstep ra)) (?c\<lparr>Senders := Some s1, c_pos := n\<rparr>)"
    by (simp add: write_next_def assms(1) p(1))
  then show ?thesis using p(2-4) that by simp
qed

lemma all_overheard:
  assumes "same_world E C" and "wire_ok E" and "kdf_sizes C" and "gcm_correct C"
  shows "say_all C ms c = Some c' \<Longrightarrow> Senders c = Some s \<Longrightarrow> own_chain s = Some ra \<Longrightarrow>
    ratchet_inv (hmac_sha256 C) seed used ra \<Longrightarrow> unat (rstep ra) + length ms < 2 ^ 32 \<Longrightarrow> sendq c = [] \<Longrightarrow>
    \<not> HasMismatch (IdStore c) \<Longrightarrow> aes_key_ok (SessionKey c) \<Longrightarrow> ascii (CurrentRoom c) \<Longrightarrow>
    \<forall>m \<in> set ms. Type m = MsgTypeChat \<and> ascii_msg (m\<lparr>Content := []\<rparr>) \<Longrightarrow>
    \<exists>ws ts. wire_out c' = wire_out c @ concat ws \<and> list_all2 (\<lambda>w t. ReadFrame w = Inr (t, [])) ws ts \<and>
      map (text_in E (SessionKey c) seed) ts = map (\<lambda>m. Some (Content m)) ms"
proof (induction ms arbitrary: c s ra used)
  case (Cons m ms)
  let ?c1 = "c\<lparr>sendq := [m]\<rparr>" and ?c2 = "write_next C (c\<lparr>sendq := [m]\<rparr>)"
  have out: "wire_out ?c2 \<noteq> wire_out ?c1" and rest: "say_all C ms ?c2 = Some c'"
    using Cons.prems(1,6) by (auto simp: send_block_def Let_def split: if_splits)
  have q: "sendq ?c1 = m # []" by simp
  have m: "Type m = MsgTypeChat" "ascii_msg (m\<lparr>Content := []\<rparr>)" using Cons.prems(10) by simp_all
  have top: "rstep ra \<noteq> - 1" using Cons.prems(5) by (auto simp: unat_top)
  obtain w t ct bs enc where w: "wire_out ?c2 = wire_out ?c1 @ w" "ReadFrame w = Inr (t, [])"
    "Base64Decode t = Some enc" "Decrypt E (SessionKey c) enc = Some bs"
    "Decode E bs = Some (sealed_chat m (CurrentRoom c) ct (rstep ra))"
    "Decrypt E (key_at (hmac_sha256 E) seed (unat (rstep ra))) ct = Some (Content m)"
    using chat_written [OF assms(1,2) q m(1) _ _ Cons.prems(3,4) top assms(3) _ m(2) _ out] Cons.prems(2,7-9)
    by auto
  have "text_in E (SessionKey c) seed t = Some (Content m)"
    by (simp add: text_in_def received_def opened_def w(3-6) sealed_chat_def)
  moreover obtain s1 r' where n: "Senders ?c2 = Some s1" "own_chain s1 = Some r'"
    "ratchet_inv (hmac_sha256 C) seed (insert (rstep ra) used) r'" "rstep r' = rstep ra + 1" "sendq ?c2 = []"
    "IdStore ?c2 = IdStore c" "SessionKey ?c2 = SessionKey c" "CurrentRoom ?c2 = CurrentRoom c"
    using chat_after [OF q m(1) _ _ Cons.prems(3,4) top assms(3,4)] Cons.prems(2,7) by auto
  have "unat (rstep r') + length ms < 2 ^ 32" using Cons.prems(5) by (simp add: n(4) unat_inc_ne [OF top])
  then have "\<exists>ws ts. wire_out c' = wire_out ?c2 @ concat ws \<and> list_all2 (\<lambda>w t. ReadFrame w = Inr (t, [])) ws ts \<and>
      map (text_in E (SessionKey ?c2) seed) ts = map (\<lambda>m. Some (Content m)) ms"
    using Cons.prems(7-10) by (intro Cons.IH [OF rest n(1-3)]) (simp_all add: n(5-8))
  then obtain ws ts where "wire_out c' = wire_out ?c2 @ concat ws" "list_all2 (\<lambda>w t. ReadFrame w = Inr (t, [])) ws ts"
    "map (text_in E (SessionKey c) seed) ts = map (\<lambda>m. Some (Content m)) ms" by (auto simp: n(7))
  ultimately show ?case using w(1,2) by (intro exI [of _ "w # ws"] exI [of _ "t # ts"]) simp
qed auto

text \<open>C31: the hub can read room traffic. The seed of a member's chain travels under the session
  encryption alone, so the session key of a member, which the hub has, opens the announcement of
  the seed, and with it every chat message that the member then writes to the room, one after the
  other and however many, as long as the 32-bit step of its chain does not run out.\<close>

theorem hub_reads_rooms:
  assumes "same_world E C" and "wire_ok E" and "kdf_sizes C" and "pb_ascii_ok C"
    and "Senders c = Some s" and "own_chain s = Some ra" and "ratchet_inv (hmac_sha256 C) seed used ra"
    and "seed \<noteq> []" and "unat (rstep ra) + length ms < 2 ^ 32" and "sendq c = []" and "ascii (c_Nickname c)"
    and "ascii (CurrentRoom c)" and "\<not> HasMismatch (IdStore c)" and "aes_key_ok (SessionKey c)"
    and "\<forall>m \<in> set ms. Type m = MsgTypeChat \<and> ascii_msg (m\<lparr>Content := []\<rparr>)"
    and "c0 = publishSenderKey C c" and "c1 = write_next C c0" and "wire_out c1 \<noteq> wire_out c0"
    and "say_all C ms c1 = Some c2"
  shows "\<exists>w0 t0 ws ts. wire_out c2 = wire_out c @ w0 @ concat ws \<and> ReadFrame w0 = Inr (t0, []) \<and>
    list_all2 (\<lambda>w t. ReadFrame w = Inr (t, [])) ws ts \<and>
    map (eavesdrop E (SessionKey c) t0) ts = map (\<lambda>m. Some (Content m)) ms"
proof -
  have gcm: "gcm_correct C" using world_laws [OF assms(1,2)] by simp
  have seed: "initialKey ra = seed" using assms(7) by (simp add: ratchet_inv_def)
  obtain k p where k: "publishSenderKey C c = c\<lparr>c_pos := p, sendq := [k]\<rparr>" "Type k = MsgTypeSenderKey"
    "Content k = Base64Encode seed" "ascii_msg k"
    using seed_queued [OF assms(6) _ assms(5) _ assms(4,11)] assms(8,10) by (auto simp: seed cfg)
  have q: "sendq c0 = k # []" by (simp add: assms(16) k(1))
  note out = seed_written [OF assms(1,2) q k(2,4), folded assms(17)]
  obtain w0 t0 k' where w0: "wire_out c1 = wire_out c @ w0" "ReadFrame w0 = Inr (t0, [])"
    "received E (SessionKey c) t0 = Some k'" "Content k' = Base64Encode seed"
    using out(1) assms(12,14,18) k(3) by (auto simp: assms(16) k(1))
  have c1: "sendq c1 = []" "Senders c1 = Some s" "IdStore c1 = IdStore c" "SessionKey c1 = SessionKey c"
    "CurrentRoom c1 = CurrentRoom c"
    using out(2-6) assms(5,12,14,18) by (simp_all add: assms(16) k(1))
  obtain ws ts where ws: "wire_out c2 = wire_out c1 @ concat ws" "list_all2 (\<lambda>w t. ReadFrame w = Inr (t, [])) ws ts"
    "map (text_in E (SessionKey c1) seed) ts = map (\<lambda>m. Some (Content m)) ms"
    using all_overheard [OF assms(1-3) gcm assms(19) c1(2) assms(6,7,9) c1(1)] assms(12-15) by (auto simp: c1)
  have "eavesdrop E (SessionKey c) t0 = text_in E (SessionKey c1) seed"
    by (simp add: fun_eq_iff eavesdrop_def seed_in_def w0(3,4) c1(4))
  with ws w0(1,2) show ?thesis by (intro exI [of _ w0] exI [of _ t0] exI [of _ ws] exI [of _ ts]) simp
qed

lemma demo_seed_leaves:
  fixes c0 :: Cli
  defines "c0 \<equiv> publishSenderKey demo_c (demo_cli ''ann'')"
  shows "wire_out (write_next demo_c c0) \<noteq> wire_out c0"
proof -
  let ?c = "demo_cli ''ann''"
  let ?k = "fst (CreateMessage demo_c 0 (c_pos ?c) MsgTypeSenderKey (Base64Encode demo_seed) ''ann'')"
  have "ExportMySeed (NewSenderState ''ann'' 1 demo_seed) = Some demo_seed"
    using export_own [OF demo_chain] by (simp add: NewRatchet_def)
  then have c0: "c0 = ?c\<lparr>c_pos := c_pos ?c + 8, sendq := [?k]\<rparr>"
    using demo_seed_nonempty
    by (simp add: c0_def publishSenderKey_def make_msg_def try_post_def try_send_def case_prod_beta cfg)
  let ?m = "?k\<lparr>OnionAddr := DefaultRoom\<rparr>"
  have prep: "prepare demo_c ?k (c0\<lparr>sendq := []\<rparr>) = (Some ?m, c0\<lparr>sendq := []\<rparr>)"
    by (simp add: prepare_def Let_def c0 CreateMessage_def generateID_def empty_message_def cfg)
  have "length (Base64Encode demo_seed) \<le> 68"
    using length_Base64Encode [of demo_seed] by (simp add: demo_seed_def)
  then obtain bs where bs: "Encode demo_c ?m = Some bs" "length bs \<le> 10 ^ 6"
    by (simp add: Encode_def chat_enc_def CreateMessage_def generateID_def enc_strs_def length_enc_str
        empty_message_def of_bool_str_def of_nat_str_def of_int_str_def cfg)
  show ?thesis
    by (rule small_leaves [OF prep _ bs demo_c_gcm(3)]) (simp_all add: c0)
qed

theorem hub_reads_rooms_witness:
  "\<exists>c2 t0 t. say_all demo_c [demo_line] (write_next demo_c (publishSenderKey demo_c (demo_cli ''ann''))) = Some c2 \<and>
    eavesdrop demo (zeros 32) t0 t = Some ''hi''"
proof -
  let ?c = "demo_cli ''ann''"
  define c0 where "c0 = publishSenderKey demo_c ?c"
  define c1 where "c1 = write_next demo_c c0"
  have seed: "initialKey (NewRatchet demo_seed) = demo_seed" by (simp add: NewRatchet_def)
  have asc: "ascii ''ann''" "ascii DefaultRoom" "ascii_msg (demo_line\<lparr>Content := []\<rparr>)"
    by (simp_all add: ascii_msg_def demo_line_def empty_message_def ascii_def cfg)
  have pb: "pb_ascii_ok demo_c" using demo_pb(2) by (simp add: pb_ascii_ok_def demo_def)
  obtain k p where k: "c0 = ?c\<lparr>c_pos := p, sendq := [k]\<rparr>" "Type k = MsgTypeSenderKey" "ascii_msg k"
    using seed_queued [OF demo_chain _ demo_cli_fields(7) [of "''ann''"] _ pb] demo_seed_nonempty asc(1)
    by (auto simp: seed cfg c0_def)
  have out1: "wire_out c1 \<noteq> wire_out c0" unfolding c1_def c0_def by (rule demo_seed_leaves)
  have q: "sendq c0 = k # []" by (simp add: k(1))
  note w = seed_written [OF demo_same_world demo_wire_ok q k(2,3), folded c1_def]
  have c1: "sendq c1 = []" "Senders c1 = Some (NewSenderState ''ann'' 1 demo_seed)" "IdStore c1 = IdStore ?c"
    "SessionKey c1 = zeros 32" "CurrentRoom c1 = DefaultRoom"
    using w(2-6) out1 asc(2) by (simp_all add: k(1))
  have "conn_up c1" by (simp add: c1_def write_next_def q prepare_def k(2) cfg) (simp add: k(1))
  then have "wire_out (write_next demo_c (c1\<lparr>sendq := [demo_line]\<rparr>)) \<noteq> wire_out (c1\<lparr>sendq := [demo_line]\<rparr>)"
    by (intro demo_chat_leaves) (simp_all add: c1 HasMismatch_def)
  then obtain c2 where c2: "say_all demo_c [demo_line] c1 = Some c2"
    by (simp add: send_block_def c1(1) Let_def cfg)
  have "\<exists>w0 t0 ws ts. wire_out c2 = wire_out ?c @ w0 @ concat ws \<and> ReadFrame w0 = Inr (t0, []) \<and>
    list_all2 (\<lambda>w t. ReadFrame w = Inr (t, [])) ws ts \<and>
    map (eavesdrop demo (SessionKey ?c) t0) ts = map (\<lambda>m. Some (Content m)) [demo_line]"
    by (rule hub_reads_rooms [OF demo_same_world demo_wire_ok demo_c_keys(2) pb _ demo_chain ratchet_inv_new
          demo_seed_nonempty _ _ _ _ _ _ _ c0_def c1_def out1 c2])
      (use asc in \<open>simp_all add: NewRatchet_def HasMismatch_def demo_line_def\<close>)
  with c2 show ?thesis by (auto simp: demo_line_def c1_def c0_def)
qed

end
