(* ===== verification/Startup.thy ===== *)
theory Startup
  imports Invite ClientConnect VaultUi HubState
begin

text \<open>
  How the program starts and ends: the command line (\<^verbatim>\<open>cmd/conner/main.go\<close>), the
  SOCKS address a Tor process reports (\<^verbatim>\<open>tor/socks.go\<close>), the profile's root and
  its removal (\<^verbatim>\<open>appdir.go\<close>, \<^verbatim>\<open>burn.go\<close>).
\<close>

section \<open>The command line\<close>

record flags =
  fl_server :: bool
  fl_tor :: bool
  fl_autoApprove :: bool
  fl_lan :: bool
  fl_pt :: string
  fl_pass :: string
  fl_port :: string
  fl_noTUI :: bool
  fl_args :: "string list"

text \<open>What the run amounts to. A client joins with a nickname, the address to dial, whether through
  Tor, whether with an embedded Tor, and the room it starts in; a hub listens on an address.\<close>

datatype plan =
  NicknameRequired
| TargetRequired
| BadTicket invite_error
| JoinHub string string bool bool string
| OpenRelayRefused
| RunHub string bool bool

definition join_plan :: "(bytes \<Rightarrow> Blob option) \<Rightarrow> flags \<Rightarrow> plan" where
  "join_plan jd fl =
     (let nick = (case fl_args fl of [] \<Rightarrow> [] | n # _ \<Rightarrow> n);
          target = (case fl_args fl of _ # t # _ \<Rightarrow> t | _ \<Rightarrow> [])
      in if nick = [] then NicknameRequired
         else if target = [] then TargetRequired
         else
           (case DecodeInvite jd target of
              Inl e \<Rightarrow> BadTicket e
            | Inr b \<Rightarrow>
                (let blob = (if fl_pt fl \<noteq> [] then b\<lparr>b_PT := fl_pt fl\<rparr> else b);
                     wantTor = (fl_tor fl \<or> b_Tor blob \<or> Contains (DialAddr blob) ''.onion'');
                     room = (if b_Room blob = [] then DefaultRoom else b_Room blob)
                 in JoinHub nick (DialAddr blob) wantTor (wantTor \<and> b_PT blob \<noteq> ''system-tor'') room)))"

text \<open>\<open>override\<close>: \<^verbatim>\<open>CONNER_I_UNDERSTAND_OPEN_RELAY=1\<close>.\<close>

definition hub_plan :: "bool \<Rightarrow> flags \<Rightarrow> plan" where
  "hub_plan override fl =
     (if fl_tor fl \<and> fl_autoApprove fl \<and> \<not> override then OpenRelayRefused
      else RunHub ((if fl_lan fl then ''0.0.0.0:'' else ''127.0.0.1:'') @ fl_port fl) (fl_autoApprove fl)
        (fl_tor fl \<and> fl_pt fl \<noteq> ''system-tor''))"

definition run_plan :: "(bytes \<Rightarrow> Blob option) \<Rightarrow> bool \<Rightarrow> flags \<Rightarrow> plan" where
  "run_plan jd override fl = (if fl_server fl then hub_plan override fl else join_plan jd fl)"

text \<open>The ticket a hub prints: for its onion address, or for the local address without Tor.\<close>

definition hub_blob :: "string option \<Rightarrow> string \<Rightarrow> Blob" where
  "hub_blob onion port =
     (case onion of
        Some a \<Rightarrow> empty_blob\<lparr>b_Onion := a, b_Port := port, b_Tor := True, b_Room := DefaultRoom\<rparr>
      | None \<Rightarrow> empty_blob\<lparr>b_Host := ''127.0.0.1'', b_Port := port, b_Tor := False, b_Room := DefaultRoom\<rparr>)"

definition hub_ticket :: "(Blob \<Rightarrow> bytes) \<Rightarrow> string option \<Rightarrow> string \<Rightarrow> string" where
  "hub_ticket je onion port = EncodeInvite je (hub_blob onion port)"

text \<open>A passphrase on the command line is tried on a marker file first.\<close>

definition write_marker :: "'a host_scheme \<Rightarrow> int \<Rightarrow> nat \<Rightarrow> string \<Rightarrow> disk \<Rightarrow> nat \<times> disk" where
  "write_marker E now pos pass d =
     (if pass = [] then (pos, d) else snd (WriteWrapped E now pos (WrappedKeyFile E) pass ''conner-v3'' d))"

text \<open>The port of the onion service; the number wraps as a 64-bit integer.\<close>

fun atoi_go :: "int \<Rightarrow> string \<Rightarrow> int option" where
  "atoi_go n [] = Some n"
| "atoi_go n (c # s) =
     (if code c < 48 \<or> 57 < code c then None else atoi_go (int64 (n * 10 + int (code c - 48))) s)"

definition atoi :: "string \<Rightarrow> int" where
  "atoi s = (case atoi_go 0 s of None \<Rightarrow> 6666 | Some n \<Rightarrow> if n = 0 then 6666 else n)"

section \<open>The SOCKS address\<close>

definition normalizeSocks :: "string \<Rightarrow> string" where
  "normalizeSocks v0 =
     (let v = TrimPrefix v0 ''unix:''
      in if HasPrefix v ''['' then v
         else if \<not> Contains v '':'' then ''127.0.0.1:'' @ v
         else if HasPrefix v '':'' then ''127.0.0.1'' @ v
         else v)"

text \<open>\<open>info\<close>: the values Tor reports for its SOCKS listeners.\<close>

definition embedded_socks :: "string list option \<Rightarrow> string" where
  "embedded_socks info =
     (case info of
        Some (v # _) \<Rightarrow> if TrimSpace v \<noteq> [] then normalizeSocks (TrimSpace v) else ''127.0.0.1:9050''
      | _ \<Rightarrow> ''127.0.0.1:9050'')"

text \<open>The ports an onion service forwards.\<close>

definition onion_ports :: "int \<Rightarrow> int \<Rightarrow> (string \<times> string) list" where
  "onion_ports tcpPort httpPort =
     (int_dec tcpPort, ''127.0.0.1:'' @ int_dec tcpPort) #
     (if httpPort > 0 then [(''80'', ''127.0.0.1:'' @ int_dec httpPort)] else [])"

text \<open>
  Starting the embedded Tor. Whether its process starts, whether the network comes up in time and what
  its controller answers are arguments; without cgo there is none. The address it settles on becomes
  the configuration's, too.
\<close>

datatype tor_error = TorProcess | TorBootstrap | NeedsCgo | BadKey | OnionRefused

definition StartEmbedded :: "bool \<Rightarrow> bool \<Rightarrow> bool \<Rightarrow> string list option \<Rightarrow> tor_error + string" where
  "StartEmbedded cgo starts connects info =
     (if \<not> cgo then Inl NeedsCgo
      else if \<not> starts then Inl TorProcess
      else if \<not> connects then Inl TorBootstrap
      else Inr (embedded_socks info))"

text \<open>\<open>add_onion\<close>: the controller's answer, the service id, to a request with these ports.\<close>

definition CreateServerOnion ::
  "bool \<Rightarrow> bool \<Rightarrow> ((string \<times> string) list \<Rightarrow> string option) \<Rightarrow> int \<Rightarrow> int \<Rightarrow> tor_error + string" where
  "CreateServerOnion cgo key_ok add_onion tcpPort httpPort =
     (if \<not> cgo then Inl NeedsCgo
      else if \<not> key_ok then Inl BadKey
      else case add_onion (onion_ports tcpPort httpPort) of
             None \<Rightarrow> Inl OnionRefused
           | Some sid \<Rightarrow> Inr (sid @ ''.onion''))"

text \<open>What a hub started with an embedded Tor prints: its onion address and ticket, when there is one.\<close>

definition publish ::
  "(Blob \<Rightarrow> bytes) \<Rightarrow> tor_error + string \<Rightarrow> tor_error + string \<Rightarrow> string \<Rightarrow> Hub \<Rightarrow> string option \<times> Hub" where
  "publish je started onion port H =
     (case (started, onion) of
        (Inr socks, Inr a) \<Rightarrow>
          (Some (hub_ticket je (Some a) port), H\<lparr>Stats := (Stats H)\<lparr>TorAddress := a\<rparr>\<rparr>)
      | _ \<Rightarrow> (None, H))"

text \<open>Where the configuration puts Tor's files, and the \<^verbatim>\<open>torrc\<close> it would write.\<close>

definition config_base :: "string \<Rightarrow> string option \<Rightarrow> string" where
  "config_base conner_home home =
     (if conner_home \<noteq> [] then conner_home
      else case home of Some h \<Rightarrow> JoinPath [h, ''.conner''] | None \<Rightarrow> JoinPath [''.conner_data''])"

definition TorDataDir :: "string \<Rightarrow> string" where
  "TorDataDir base = JoinPath [base, ''tor'']"

definition TorControlAddr :: string where
  "TorControlAddr = ''127.0.0.1:9051''"

definition hidden_service_dir :: "bool \<Rightarrow> string \<Rightarrow> string" where
  "hidden_service_dir isServer dataDir =
     dataDir @ ''/tor/'' @ (if isServer then ''conner_chat'' else ''conner_client'') @ ''/''"

definition GetTorrcTemplate :: "bool \<Rightarrow> string \<Rightarrow> string \<Rightarrow> string \<Rightarrow> string \<Rightarrow> string" where
  "GetTorrcTemplate isServer chatPort httpPort dataDir socks =
     concat (map (\<lambda>l. l @ [newline])
       ([''DataDirectory '' @ dataDir, ''Log err file /dev/null'', ''SocksPort '' @ socks,
         ''ControlPort '' @ TorControlAddr, ''CookieAuthentication 1'',
         ''HiddenServiceDir '' @ hidden_service_dir isServer dataDir] @
        (if isServer then
           [''HiddenServicePort '' @ chatPort @ '' 127.0.0.1:'' @ chatPort,
            ''HiddenServicePort 80 127.0.0.1:'' @ httpPort]
         else [''HiddenServicePort 80 127.0.0.1:8888''])))"

text \<open>Where the peer-to-peer service looks for the name of its onion service.\<close>

definition hostnamePath :: string where
  "hostnamePath = JoinPath [''.conner_data'', ''tor'', ''conner_client'', ''hostname'']"

section \<open>The profile\<close>

text \<open>\<open>conner_home\<close> is the environment variable, \<open>home\<close> the user's home directory, when the
  system knows it, \<open>wd\<close> the working directory.\<close>

definition Root :: "string \<Rightarrow> string option \<Rightarrow> string \<Rightarrow> string" where
  "Root conner_home home wd =
     (if conner_home \<noteq> [] then conner_home
      else case home of None \<Rightarrow> JoinPath [wd, ''.conner''] | Some h \<Rightarrow> JoinPath [h, ''.conner''])"

text \<open>The directories \<^verbatim>\<open>Ensure\<close> makes, in order, up to the first that cannot be made.\<close>

definition ensured :: "'a host_scheme \<Rightarrow> string list" where
  "ensured E =
     app_root E # map (\<lambda>x. app_path E [x])
       [''identity'', ''tor'', ''rooms'', ''history'', ''inbox'', ''outbox'', ''vault'', ''queue'']"

definition EnsureDirs :: "'a host_scheme \<Rightarrow> (string \<Rightarrow> bool) \<Rightarrow> bool \<times> string list" where
  "EnsureDirs E mkdir = (let made = takeWhile mkdir (ensured E) in (length made = length (ensured E), made))"

text \<open>\<^verbatim>\<open>os.RemoveAll\<close>: the path and what lies below it.\<close>

definition below :: "string \<Rightarrow> string \<Rightarrow> bool" where
  "below p q \<longleftrightarrow> q = p \<or> HasPrefix q (p @ [slash])"

definition remove_tree :: "string \<Rightarrow> disk \<Rightarrow> disk" where
  "remove_tree p d = (\<lambda>q. if below p q then None else d q)"

definition LeftoverDirs :: "string list" where
  "LeftoverDirs = [''vault'', ''.conner_data'', ''uploads'', ''downloads'']"

definition Burn :: "'a host_scheme \<Rightarrow> disk \<Rightarrow> disk" where
  "Burn E d =
     fold (\<lambda>x. remove_tree x \<circ> remove_tree (JoinPath [workdir E, x])) LeftoverDirs (remove_tree (app_root E) d)"

text \<open>The outbox watcher is started over the outbox; shares left over from older builds are
  removed.\<close>

definition StartAutoSync :: "Cli \<Rightarrow> string \<times> Cli" where
  "StartAutoSync c =
     (OutboxDir c, c\<lparr>c_disk := remove_tree (JoinPath [''.conner_data'', ''temp_shares'']) (c_disk c)\<rparr>)"

section \<open>What holds of them\<close>

lemma no_onion: "CHR ''.'' \<notin> set s \<Longrightarrow> \<not> Contains s ''.onion''"
  by (induction s) (auto simp: HasPrefix_def)

text \<open>A hub in an onion is never dialled directly.\<close>

lemma join_onion:
  assumes "join_plan jd fl = JoinHub nick addr wantTor emb rm" and "Contains addr ''.onion''"
  shows "wantTor" and "dial_via wantTor et probes \<noteq> Some Direct"
proof -
  show w: wantTor
    using assms by (auto simp: join_plan_def Let_def split: if_splits sum.splits)
  show "dial_via wantTor et probes \<noteq> Some Direct"
    using w by (simp add: dial_via_def Let_def)
qed

text \<open>C32: whoever starts a client with the ticket a hub printed dials that hub, at its onion
  address through Tor or locally without (unless asked for Tor), and starts in the default room.\<close>

theorem ticket_joins:
  assumes "jd (je ((hub_blob onion port)\<lparr>b_V := 1\<rparr>)) = Some ((hub_blob onion port)\<lparr>b_V := 1\<rparr>)"
    and "fl_args fl = [nick, hub_ticket je onion port]" and "nick \<noteq> []" and "\<not> fl_server fl"
    and "onion \<noteq> Some []" and "port \<noteq> []" and "CHR ''.'' \<notin> set port" and "fl_pt fl \<noteq> ''system-tor''"
  shows "run_plan jd override fl =
    JoinHub nick ((case onion of None \<Rightarrow> ''127.0.0.1'' | Some a \<Rightarrow> a) @ '':'' @ port) (fl_tor fl \<or> onion \<noteq> None)
      (fl_tor fl \<or> onion \<noteq> None) DefaultRoom"
proof -
  have "DecodeInvite jd (hub_ticket je onion port) = Inr ((hub_blob onion port)\<lparr>b_V := 1\<rparr>)"
    unfolding hub_ticket_def by (rule DecodeInvite_EncodeInvite) (rule assms(1))
  moreover have "hub_ticket je onion port \<noteq> []" by (simp add: hub_ticket_def EncodeInvite_def scheme_def)
  ultimately show ?thesis
    using assms(2-)
    by (cases onion)
       (simp_all add: run_plan_def join_plan_def hub_blob_def DialAddr_def empty_blob_def cfg
         no_onion HasPrefix_def Let_def)
qed

theorem ticket_joins_witness:
  "run_plan (\<lambda>_. Some ((hub_blob (Some ''ab.onion'') ''6666'')\<lparr>b_V := 1\<rparr>)) False
     \<lparr>fl_server = False, fl_tor = False, fl_autoApprove = False, fl_lan = False, fl_pt = [], fl_pass = [],
      fl_port = ServerPort, fl_noTUI = False,
      fl_args = [''bob'', hub_ticket (\<lambda>_. ''{}'') (Some ''ab.onion'') ''6666'']\<rparr> =
     JoinHub ''bob'' (''ab.onion'' @ '':'' @ ''6666'') True True DefaultRoom"
  by (subst ticket_joins [where je = "\<lambda>_. ''{}''" and onion = "Some ''ab.onion''" and port = "''6666''"
        and nick = "''bob''"]) simp_all

text \<open>The ticket a hub prints names the address its panel shows.\<close>

lemma published_ticket:
  "publish je started onion port H = (Some t, H') \<Longrightarrow> t = hub_ticket je (Some (TorAddress (Stats H'))) port"
  by (auto simp: publish_def split: sum.splits)

lemma ensured_all: "fst (EnsureDirs E mkdir) \<longleftrightarrow> (\<forall>d \<in> set (ensured E). mkdir d)"
proof -
  have "length (takeWhile f xs) = length xs \<longleftrightarrow> (\<forall>x \<in> set xs. f x)" for f :: "'x \<Rightarrow> bool" and xs
    by (metis takeWhile_eq_all_conv takeWhile_eq_take take_all_iff order_refl)
  then show ?thesis by (simp add: EnsureDirs_def Let_def)
qed

text \<open>The file is not in the directory the template names, even in the place both fall back to.\<close>

lemma hostname_elsewhere:
  "hostnamePath \<noteq> hidden_service_dir False (TorDataDir (config_base [] None)) @ ''hostname''"
  by (simp add: hostnamePath_def hidden_service_dir_def TorDataDir_def config_base_def JoinPath_def Clean_def
      is_rooted_def clean_comps_def clean_step_def slash_def)

text \<open>The configuration and the profile agree on their root when the home directory is known.\<close>

lemma config_root: "home \<noteq> None \<Longrightarrow> config_base env home = Root env home wd"
  by (auto simp: config_base_def Root_def)

lemma remove_tree_apply: "remove_tree p d q = (if below p q then None else d q)"
  by (simp add: remove_tree_def)

lemma Burn_apply:
  "Burn E d q =
     (if below (app_root E) q \<or> (\<exists>x \<in> set LeftoverDirs. below x q \<or> below (JoinPath [workdir E, x]) q)
      then None else d q)"
  by (auto simp: Burn_def LeftoverDirs_def remove_tree_apply)

text \<open>A decimal number below the range of the integer is read back.\<close>

lemma int64_small: "- (2 ^ 63) \<le> x \<Longrightarrow> x < 2 ^ 63 \<Longrightarrow> int64 x = x"
  by (simp add: int64_def sint_sbintrunc' signed_take_bit_int_eq_self)

lemma atoi_go_append: "atoi_go n (s @ t) = Option.bind (atoi_go n s) (\<lambda>m. atoi_go m t)"
  by (induction s arbitrary: n) auto

lemma atoi_go_dec: "int n < 2 ^ 63 \<Longrightarrow> atoi_go 0 (dec n) = Some (int n)"
proof (induction n rule: dec.induct)
  case (1 n)
  show ?case
  proof (cases "n < 10")
    case True
    then show ?thesis
      by (subst dec.simps) (auto simp: int64_small)
  next
    case False
    have "int (n div 10) < 2 ^ 63"
      using "1.prems" by (metis div_le_dividend of_nat_le_iff order_le_less_trans)
    with 1 False have ih: "atoi_go 0 (dec (n div 10)) = Some (int (n div 10))"
      by blast
    have "int (n div 10) * 10 + int (n mod 10) = int n"
      by (metis of_nat_add of_nat_mult of_nat_numeral div_mult_mod_eq)
    then show ?thesis
      using False "1.prems" by (subst dec.simps) (simp add: atoi_go_append ih int64_small)
  qed
qed

lemma atoi_dec: "0 < n \<Longrightarrow> int n < 2 ^ 63 \<Longrightarrow> atoi (dec n) = int n"
  by (simp add: atoi_def atoi_go_dec)

end
