(* ===== verification/Archive.thy ===== *)
theory Archive
  imports ClientFiles
begin

text \<open>
  \<^verbatim>\<open>CreateZip\<close> (\<^verbatim>\<open>client/core.go\<close>) and what extracting its archives gives. The
  order and the outcome of \<^verbatim>\<open>filepath.Walk\<close> and the archive writer are arguments; files are
  read to their ends. Nothing in the program calls it.
\<close>

section \<open>Relative paths\<close>

text \<open>\<^verbatim>\<open>filepath.Rel\<close> on cleaned paths, component by component.\<close>

definition path_comps :: "string \<Rightarrow> string list" where
  "path_comps p = filter (\<lambda>w. w \<noteq> []) (Split p slash)"

fun strip_common :: "string list \<Rightarrow> string list \<Rightarrow> string list \<times> string list" where
  "strip_common (b # bs) (t # ts) = (if b = t then strip_common bs ts else (b # bs, t # ts))"
| "strip_common bs ts = (bs, ts)"

definition Rel :: "string \<Rightarrow> string \<Rightarrow> string option" where
  "Rel basepath targpath =
     (let base0 = Clean basepath; targ = Clean targpath
      in if targ = base0 then Some ''.''
         else
           (let base = (if base0 = ''.'' then [] else base0)
            in if is_rooted base \<noteq> is_rooted targ then None
               else
                 (let (bs, ts) = strip_common (path_comps base) (path_comps targ)
                  in if bs \<noteq> [] \<and> hd bs = ''..'' then None
                     else Some (Join (replicate (length bs) ''..'' @ ts) [slash]))))"

section \<open>Writing an archive\<close>

text \<open>\<open>None\<close> is an error the walk reports.\<close>

type_synonym walked = "(string \<times> bool) option"

definition zip_header :: "string \<Rightarrow> string \<Rightarrow> bool \<Rightarrow> zip_entry" where
  "zip_header src path dir =
     \<lparr>ze_name = (case Rel (Dir src) path of None \<Rightarrow> [] | Some n \<Rightarrow> n) @ (if dir then [slash] else []),
      ze_dir = dir, ze_data = [], ze_ok = True\<rparr>"

fun zip_walk :: "string \<Rightarrow> walked list \<Rightarrow> disk \<Rightarrow> bool \<times> zip_entry list" where
  "zip_walk src [] d = (True, [])"
| "zip_walk src (None # ws) d = (False, [])"
| "zip_walk src (Some (path, dir) # ws) d =
     (let h = zip_header src path dir
      in if dir then (let (ok, es) = zip_walk src ws d in (ok, h # es))
         else
           (case read_disk path d of
              None \<Rightarrow> (False, [h])
            | Some data \<Rightarrow> (let (ok, es) = zip_walk src ws d in (ok, h\<lparr>ze_data := data\<rparr> # es))))"

text \<open>The archive is closed, and so complete as far as it goes, on every path.\<close>

definition CreateZip ::
  "'a client_env_scheme \<Rightarrow> (zip_entry list \<Rightarrow> bytes) \<Rightarrow> int \<Rightarrow> walked list \<Rightarrow> string \<Rightarrow> string \<Rightarrow> disk \<Rightarrow>
     bool \<times> disk" where
  "CreateZip E archive now walk src dst d =
     (if \<not> can_write E dst \<or> is_dir E dst then (False, d)
      else
        (let d1 = snd (write_disk E now dst [] d); (ok, es) = zip_walk src walk d1
         in (ok, snd (write_disk E now dst (archive es) d1))))"

section \<open>What extracting it restores\<close>

lemma Join_append: "xs \<noteq> [] \<Longrightarrow> ys \<noteq> [] \<Longrightarrow> Join (xs @ ys) sep = Join xs sep @ sep @ Join ys sep"
proof (induction xs sep rule: Join.induct)
  case (2 x sep)
  then show ?case by (cases ys) simp_all
qed simp_all

lemma path_comps_abs: "\<forall>w \<in> set ws. good_comp w \<Longrightarrow> path_comps (abs_path ws) = ws"
  by (auto simp: path_comps_def Split_abs_path good_comp_def filter_id_conv)

lemma strip_common_prefix: "strip_common ps (ps @ qs) = ([], qs)"
  by (induction ps) (cases qs, simp_all)

lemma Rel_below:
  assumes "\<forall>w \<in> set (ps @ qs). good_comp w" and "qs \<noteq> []"
  shows "Rel (abs_path ps) (abs_path (ps @ qs)) = Some (Join qs [slash])"
proof -
  have ne: "abs_path (ps @ qs) \<noteq> abs_path ps"
    using abs_path_inj [of "ps @ qs" ps] assms by auto
  have "abs_path ws \<noteq> ''.''" "is_rooted (abs_path ws)" for ws
    by (simp_all add: abs_path_def slash_def is_rooted_def)
  with ne assms show ?thesis
    by (simp add: Rel_def Clean_abs_path path_comps_abs strip_common_prefix)
qed

lemma Dir_abs:
  assumes "\<forall>w \<in> set ps. good_comp w" and "good_comp b"
  shows "Dir (abs_path (ps @ [b])) = abs_path ps"
proof -
  have b: "\<forall>c \<in> set b. c \<noteq> slash" using assms(2) by (auto simp: good_comp_def)
  have cut: "dropWhile (\<lambda>c. c \<noteq> slash) (rev (x @ slash # b)) = slash # rev x" for x
    using b by (simp add: dropWhile_append)
  show ?thesis
  proof (cases "ps = []")
    case True
    then have "abs_path (ps @ [b]) = [] @ slash # b" by (simp add: abs_path_def)
    then have "Dir (abs_path (ps @ [b])) = Clean [slash]" using cut [of "[]"] by (simp only: Dir_def) simp
    then show ?thesis using True Clean_abs_path [of "[]"] by (simp add: abs_path_def)
  next
    case False
    then have "abs_path (ps @ [b]) = abs_path ps @ slash # b" by (simp add: abs_path_def Join_append)
    then have "Dir (abs_path (ps @ [b])) = Clean (abs_path ps @ [slash])"
      using cut [of "abs_path ps"] by (simp only: Dir_def) simp
    also have "Split (abs_path ps @ [slash]) slash = ([] # ps) @ [[]]"
      using Split_append [of "abs_path ps" slash "[]"] Split_abs_path [OF assms(1)] False by simp
    then have "Clean (abs_path ps @ [slash]) = abs_path ps"
      using assms(1) by (simp add: Clean_def is_rooted_def abs_path_def clean_comps_def clean_step_def foldl_clean_good)
    finally show ?thesis .
  qed
qed

lemma JoinPath_below:
  assumes "\<forall>w \<in> set (ws @ qs). good_comp w" and "ws \<noteq> []" and "qs \<noteq> []" and "t = [] \<or> t = [slash]"
  shows "JoinPath [abs_path ws, Join qs [slash] @ t] = abs_path (ws @ qs)"
proof -
  have j: "Join [abs_path ws, Join qs [slash] @ t] [slash] = abs_path (ws @ qs) @ t"
    using assms(2,3) by (simp add: abs_path_def Join_append)
  have s: "Split (abs_path (ws @ qs) @ t) slash = ([] # ws @ qs) @ (if t = [] then [] else [[]])"
    using Split_abs_path [OF assms(1)] Split_append [of "abs_path (ws @ qs)" slash "[]"] assms(2,4) by auto
  have "Clean (abs_path (ws @ qs) @ t) = abs_path (ws @ qs)"
    using assms(1) unfolding Clean_def Let_def s
    by (simp add: is_rooted_def abs_path_def clean_comps_def clean_step_def foldl_clean_good)
  with j have "Clean (Join [abs_path ws, Join qs [slash] @ t] [slash]) = abs_path (ws @ qs)" by (simp only:)
  moreover have "abs_path ws \<noteq> []" "Join qs [slash] @ t \<noteq> []"
    using assms(1,3) by (cases qs; cases "tl qs"; auto simp: abs_path_def good_comp_def)+
  ultimately show ?thesis by (simp only: JoinPath_def) simp
qed

text \<open>The entry of a file or directory at the components \<open>qs\<close> below the parent of the source.\<close>

definition tree_entry :: "string list \<Rightarrow> disk \<Rightarrow> string list \<times> bool \<Rightarrow> zip_entry" where
  "tree_entry ps d = (\<lambda>(qs, dir).
     \<lparr>ze_name = Join qs [slash] @ (if dir then [slash] else []), ze_dir = dir,
      ze_data = (if dir then [] else the (read_disk (abs_path (ps @ qs)) d)), ze_ok = True\<rparr>)"

definition walk_of :: "string list \<Rightarrow> (string list \<times> bool) list \<Rightarrow> walked list" where
  "walk_of ps = map (\<lambda>(qs, dir). Some (abs_path (ps @ qs), dir))"

lemma zip_header_below:
  assumes "\<forall>w \<in> set (ps @ b # qs). good_comp w" and "qs \<noteq> []"
  shows "ze_name (zip_header (abs_path (ps @ [b])) (abs_path (ps @ qs)) dir) =
    Join qs [slash] @ (if dir then [slash] else [])"
  using Rel_below [of ps qs] Dir_abs [of ps b] assms by (simp add: zip_header_def)

lemma zip_walk_tree:
  assumes "\<forall>w \<in> set (ps @ [b]). good_comp w"
    and "\<forall>(qs, dir) \<in> set ts. qs \<noteq> [] \<and> (\<forall>w \<in> set qs. good_comp w) \<and>
           (dir \<or> read_disk (abs_path (ps @ qs)) d \<noteq> None)"
  shows "zip_walk (abs_path (ps @ [b])) (walk_of ps ts) d = (True, map (tree_entry ps d) ts)"
  using assms(2)
proof (induction ts)
  case (Cons t ts)
  obtain qs dir where t: "t = (qs, dir)" by fastforce
  have h: "zip_header (abs_path (ps @ [b])) (abs_path (ps @ qs)) dir =
      \<lparr>ze_name = Join qs [slash] @ (if dir then [slash] else []), ze_dir = dir, ze_data = [], ze_ok = True\<rparr>"
    using zip_header_below [of ps b qs dir] assms(1) Cons.prems by (auto simp: t zip_header_def)
  from Cons show ?case by (auto simp: t walk_of_def tree_entry_def h)
qed (simp add: walk_of_def)

lemma extract_tree:
  assumes "\<forall>w \<in> set ws. good_comp w" and "ws \<noteq> []"
    and "\<forall>(qs, dir) \<in> set ts. qs \<noteq> [] \<and> (\<forall>w \<in> set qs. good_comp w) \<and>
           (dir \<or> can_write E (abs_path (ws @ qs)) \<and> \<not> is_dir E (abs_path (ws @ qs)))"
  shows "\<exists>d'. extract_go E now (abs_path ws) (map (tree_entry ps d) ts) d0 = (True, d') \<and>
    (\<forall>qs. (\<forall>w \<in> set qs. good_comp w) \<longrightarrow> read_disk (abs_path (ws @ qs)) d' =
      (if (qs, False) \<in> set ts then Some (the (read_disk (abs_path (ps @ qs)) d))
       else read_disk (abs_path (ws @ qs)) d0))"
  using assms(3)
proof (induction ts arbitrary: d0)
  case (Cons t ts)
  obtain qs dir where t: "t = (qs, dir)" by fastforce
  let ?p = "abs_path (ws @ qs)" and ?e = "tree_entry ps d t"
  have q: "qs \<noteq> []" "\<forall>w \<in> set (ws @ qs). good_comp w" using Cons.prems assms(1) by (auto simp: t)
  have p: "JoinPath [abs_path ws, ze_name ?e] = ?p"
    using JoinPath_below [OF q(2) assms(2) q(1)] by (simp add: t tree_entry_def)
  have pre: "HasPrefix ?p (Clean (abs_path ws) @ [slash])"
  proof -
    have "?p = abs_path ws @ slash # Join qs [slash]" using assms(2) q(1) by (simp add: abs_path_def Join_append)
    then show ?thesis using Clean_abs_path [OF assms(1)] by (simp add: HasPrefix_def)
  qed
  let ?d1 = "if dir then d0 else snd (write_disk E now ?p (the (read_disk (abs_path (ps @ qs)) d)) d0)"
  have step: "extract_go E now (abs_path ws) (map (tree_entry ps d) (t # ts)) d0 =
      extract_go E now (abs_path ws) (map (tree_entry ps d) ts) ?d1"
    using Cons.prems p pre by (auto simp: t tree_entry_def)
  have one: "read_disk (abs_path (ws @ qs')) ?d1 =
      (if (qs', False) = t then Some (the (read_disk (abs_path (ps @ qs')) d)) else read_disk (abs_path (ws @ qs')) d0)"
    if "\<forall>w \<in> set qs'. good_comp w" for qs'
  proof (cases dir)
    case True
    then show ?thesis by (simp add: t)
  next
    case False
    have "abs_path (ws @ qs') = ?p \<longleftrightarrow> qs' = qs"
      using abs_path_inj [of "ws @ qs'" "ws @ qs"] assms(1) q(2) that by fastforce
    moreover have "can_write E ?p" using Cons.prems False by (simp add: t)
    ultimately show ?thesis using False by (simp add: t read_disk_write)
  qed
  have "\<forall>(qs, dir) \<in> set ts. qs \<noteq> [] \<and> (\<forall>w \<in> set qs. good_comp w) \<and>
           (dir \<or> can_write E (abs_path (ws @ qs)) \<and> \<not> is_dir E (abs_path (ws @ qs)))"
    using Cons.prems by simp
  from Cons.IH [OF this, of ?d1] obtain d' where
    run: "extract_go E now (abs_path ws) (map (tree_entry ps d) ts) ?d1 = (True, d')"
    and files: "\<forall>qs. (\<forall>w \<in> set qs. good_comp w) \<longrightarrow> read_disk (abs_path (ws @ qs)) d' =
      (if (qs, False) \<in> set ts then Some (the (read_disk (abs_path (ps @ qs)) d))
       else read_disk (abs_path (ws @ qs)) ?d1)"
    by blast
  show ?case
  proof (intro exI [of _ d'] conjI allI impI)
    show "extract_go E now (abs_path ws) (map (tree_entry ps d) (t # ts)) d0 = (True, d')" using step run by (simp only:)
  next
    fix qs' assume g: "\<forall>w \<in> set qs'. good_comp w"
    have "read_disk (abs_path (ws @ qs')) d' =
      (if (qs', False) \<in> set ts then Some (the (read_disk (abs_path (ps @ qs')) d))
       else read_disk (abs_path (ws @ qs')) ?d1)"
      using files g by blast
    then show "read_disk (abs_path (ws @ qs')) d' =
        (if (qs', False) \<in> set (t # ts) then Some (the (read_disk (abs_path (ps @ qs')) d))
         else read_disk (abs_path (ws @ qs')) d0)"
      unfolding one [OF g] by simp
  qed
qed simp

text \<open>Extracting what \<^verbatim>\<open>CreateZip\<close> wrote restores every file of the tree below the directory, under
  the name of the source, when the archive library reads back what it wrote.\<close>

lemma zip_restores:
  assumes "\<forall>w \<in> set (ps @ b # ws). good_comp w" and "ws \<noteq> []"
    and "\<forall>(qs, dir) \<in> set ts. qs \<noteq> [] \<and> (\<forall>w \<in> set qs. good_comp w) \<and>
           (dir \<or> read_disk (abs_path (ps @ qs)) d \<noteq> None \<and> abs_path (ps @ qs) \<noteq> dst \<and>
              can_write E (abs_path (ws @ qs)) \<and> \<not> is_dir E (abs_path (ws @ qs)))"
    and "can_write E dst" and "\<not> is_dir E dst" and "\<And>es. unzip E (archive es) = Some es"
  obtains d1 d2 where "CreateZip E archive now (walk_of ps ts) (abs_path (ps @ [b])) dst d = (True, d1)"
    and "ExtractZip E now' dst (abs_path ws) d1 = (True, d2)"
    and "\<And>qs. (qs, False) \<in> set ts \<Longrightarrow> read_disk (abs_path (ws @ qs)) d2 = read_disk (abs_path (ps @ qs)) d"
proof -
  let ?d0 = "snd (write_disk E now dst [] d)" let ?es = "map (tree_entry ps ?d0) ts"
  let ?d1 = "snd (write_disk E now dst (archive ?es) ?d0)"
  have same: "read_disk (abs_path (ps @ qs)) ?d0 = read_disk (abs_path (ps @ qs)) d" if "(qs, False) \<in> set ts" for qs
    using assms(3,4) that by (auto simp: read_disk_write)
  have "zip_walk (abs_path (ps @ [b])) (walk_of ps ts) ?d0 = (True, ?es)"
    by (rule zip_walk_tree) (use assms(1,3) same in fastforce)+
  then have made: "CreateZip E archive now (walk_of ps ts) (abs_path (ps @ [b])) dst d = (True, ?d1)"
    using assms(4,5) by (simp add: CreateZip_def Let_def)
  have "\<exists>d2. extract_go E now' (abs_path ws) ?es ?d1 = (True, d2) \<and>
    (\<forall>qs. (\<forall>w \<in> set qs. good_comp w) \<longrightarrow> read_disk (abs_path (ws @ qs)) d2 =
      (if (qs, False) \<in> set ts then Some (the (read_disk (abs_path (ps @ qs)) ?d0))
       else read_disk (abs_path (ws @ qs)) ?d1))"
    by (rule extract_tree) (use assms(1,2,3) in fastforce)+
  then obtain d2 where d2: "extract_go E now' (abs_path ws) ?es ?d1 = (True, d2)"
    and files: "\<And>qs. \<forall>w \<in> set qs. good_comp w \<Longrightarrow> (qs, False) \<in> set ts \<Longrightarrow>
      read_disk (abs_path (ws @ qs)) d2 = Some (the (read_disk (abs_path (ps @ qs)) ?d0))"
    by (auto split: if_splits)
  have got: "ExtractZip E now' dst (abs_path ws) ?d1 = (True, d2)"
    using assms(4,6) d2 by (simp add: ExtractZip_def read_disk_write)
  have "read_disk (abs_path (ws @ qs)) d2 = read_disk (abs_path (ps @ qs)) d" if "(qs, False) \<in> set ts" for qs
    using files [of qs] same [of qs] assms(3) that by auto
  with made got show ?thesis by (rule that)
qed

end
