(* ===== verification/Spec2Isabelle.thy ===== *)
theory Spec2Isabelle
  imports KeyProperties WireProperties HubProperties HubConcurrency Confidentiality AdminPanel Startup Archive
begin

text \<open>
  \<^bold>\<open>Verification of CONNER, a group chat over Tor (Go module \<^verbatim>\<open>conner\<close>).\<close>

  One program plays two parts. A \<^emph>\<open>hub\<close> (\<^verbatim>\<open>internal/server\<close>) admits clients
  after a handshake (key exchange, proof of work, signature), relays what members send, keeps a short
  message memory, access lists and a vault of encrypted files, and is run from a terminal panel. A
  \<^emph>\<open>client\<close> (\<^verbatim>\<open>internal/client\<close>) connects, seals what its user types for the
  room (sender chains) or for one member (pairwise keys), keeps the identities it has seen, an offline
  queue and an outbox that is shared by itself, and draws a terminal interface. Between the two run
  framed, session-encrypted messages (\<^verbatim>\<open>internal/protocol\<close>,
  \<^verbatim>\<open>internal/crypto\<close>).

  \<^bold>\<open>How the model is written.\<close> Go strings and byte slices are lists of characters (bytes); 64-bit and
  32-bit integers are words, or integers with the wrap-around written out, where they can overflow;
  counters and lengths are \<^typ>\<open>nat\<close> or \<^typ>\<open>int\<close>. A struct is a record with the
  source's field names (prefixed where two structs share one). Go maps are association lists, whose
  order stands for the order of a \<^verbatim>\<open>range\<close>, or functions to an option where nothing ranges
  over them. State is passed explicitly. A buffered channel is a list with a capacity; sending with a
  \<^verbatim>\<open>default\<close> branch drops, a blocking send yields \<^term>\<open>None\<close> (or
  \<open>Waits\<close>) when there is no room. Time, random bytes, the disk, JSON and protobuf codecs, the
  primitives of the Go cryptography library, HTTP, directory listings, the clipboard and the terminal
  library are parameters: fields of the environments \<open>prims\<close>, \<open>wire\<close>, \<open>host\<close>,
  \<open>hub_env\<close>, \<open>client_env\<close>, \<open>ui_env\<close>, \<open>terminal\<close> and
  \<open>panel_world\<close>. What is assumed of them (decryption inverts encryption, a decoder inverts its
  encoder, Diffie-Hellman commutes) are named predicates; theory \<open>Instances\<close> gives an environment
  in which all of them hold, on which the examples run.

  \<^bold>\<open>Where the code is.\<close>

  \<^item> \<open>Prelude\<close> (shared idioms: capped slices, channels, framing), \<open>GoStrings\<close> and
    \<open>GoEncoding\<close> (the functions of \<^verbatim>\<open>strings\<close>, \<^verbatim>\<open>filepath\<close>,
    \<^verbatim>\<open>base64\<close>, \<^verbatim>\<open>hex\<close>), \<open>Glyphs\<close> (literals that are not ASCII),
    \<open>Terminal\<close> (runes, padding, \<^verbatim>\<open>clipx\<close>, styles), \<open>Floats\<close> (the
    \<^verbatim>\<open>float64\<close> of the system monitor), \<open>Config\<close>
    (\<^verbatim>\<open>config.go\<close>), \<open>Host\<close> (the machine, \<^verbatim>\<open>appdir.go\<close>).
  \<^item> \<open>Crypto\<close> (\<^verbatim>\<open>crypto.go\<close>, \<^verbatim>\<open>hkdf.go\<close>,
    \<^verbatim>\<open>chunk.go\<close>, \<^verbatim>\<open>wrap.go\<close>, \<^verbatim>\<open>pow.go\<close>,
    \<^verbatim>\<open>wipe.go\<close>), \<open>Ratchet\<close> and \<open>SenderKeys\<close>
    (\<^verbatim>\<open>ratchet.go\<close>, \<^verbatim>\<open>sender.go\<close>; ratchets live in a store because two
    references share one), \<open>ChunkStream\<close> (\<^verbatim>\<open>stream.go\<close>), \<open>Protocol\<close>
    (\<^verbatim>\<open>protocol.go\<close> and the structs of \<^verbatim>\<open>conner.pb.go\<close>), \<open>Invite\<close>
    (\<^verbatim>\<open>invite.go\<close>).
  \<^item> The hub: \<open>Rooms\<close>, \<open>Memory\<close>, \<open>HubState\<close> (the \<^verbatim>\<open>Server\<close> and
    \<^verbatim>\<open>Client\<close> structs, \<^verbatim>\<open>manager.go\<close>), \<open>HubSend\<close> and
    \<open>HubDelivery\<close> (\<^verbatim>\<open>persist.go\<close>, the sending primitives), \<open>HubMembers\<close>
    (approval, bans, removal, epochs, rate limit), \<open>HubVault\<close> (the vault, over the session and over
    HTTP), \<open>HubCommands\<close> (\<^verbatim>\<open>commands.go\<close>, the dispatcher), \<open>HubServer\<close>
    (start, handshake, pumps, timers), \<open>Sysmon\<close>, \<open>PanelScreen\<close> and \<open>AdminPanel\<close>
    (\<^verbatim>\<open>sysmon.go\<close>, \<^verbatim>\<open>server/tui/app.go\<close>). \<open>HubStep\<close> makes it a
    transition system whose steps are whole handlers, \<open>HubTypes\<close> and \<open>HubBans\<close> follow
    what its runs keep; \<open>Threads\<close>, \<open>HubThreads\<close> and
    \<open>HubConcurrency\<close> take the handlers apart into the accesses between which Go may switch
    goroutines.
  \<^item> The client: \<open>ClientEnv\<close>, \<open>IdentityStore\<close>, \<open>DiskQueue\<close>, \<open>P2P\<close>,
    \<open>FileSync\<close>, \<open>History\<close>, \<open>VaultUi\<close> (the files of the same names and
    \<^verbatim>\<open>vaultui/list.go\<close>), \<open>ClientState\<close>, \<open>ClientPump\<close>,
    \<open>ClientConnect\<close>, \<open>ClientFiles\<close> and \<open>Archive\<close>
    (\<^verbatim>\<open>client/core.go\<close>: state, the two pumps, the handshake, transfers, archives, with the
    round trip of an archive), \<open>ClientTui\<close>, \<open>ClientScreen\<close> and
    \<open>ClientInput\<close> (\<^verbatim>\<open>client/tui\<close>). \<open>ClientStep\<close> makes it a machine whose
    events are the steps of its goroutines and of its user.
  \<^item> \<open>Startup\<close>: the command line, the tickets, \<^verbatim>\<open>tor\<close> without the Tor process,
    \<^verbatim>\<open>burn.go\<close>. \<open>Sessions\<close> and \<open>Transfers\<close> put a client and the hub together.

  \<^bold>\<open>Interfaces.\<close> The locales state what a part relies on, and are interpreted on the model's own
  definitions: \<open>capped_log\<close> (the logs, the message memory, the rows of the screen),
  \<open>framing\<close> (frames on a connection), \<open>codec\<close> (the two Base64 alphabets),
  \<open>room_store\<close>, \<open>key_chain\<close> (what sender keys need of a ratchet), \<open>message_store\<close>
  (the queue on disk), \<open>interleaved\<close>, \<open>shared\<close> (a \<open>sublocale\<close> of it)
  and \<open>sequential\<close> (goroutines: what every schedule keeps, what one alone comes to) and \<open>talking\<close> (hub operations that only queue messages and write logs; two
  dozen operations are instances, and every proof about membership rests on it).

  \<^bold>\<open>What is proved.\<close>

  \<^item> Who gets in and as whom (\<open>HubProperties\<close>): a client enters only after every check of the
    handshake; along runs a nickname stands for one key; without administrator rights nobody's
    membership changes; who waits can do nothing; a ban lasts until its identity is approved while
    connected; the access lists
    survive a restart; the hub is well typed and stays within its bounds; the rate limit as it is.
  \<^item> That messages arrive and can be read (\<open>ClientProperties\<close>, \<open>Confidentiality\<close>,
    \<open>HubProperties\<close>): an honest client's handshake completes; a broadcast reaches exactly the
    clients in a state; what a member types the others read; a private message is read by its addressee.
    Underneath (\<open>KeyProperties\<close>, \<open>WireProperties\<close>): sender chains answer steps in any order
    within their window, frames come out in order, the proof-of-work search ends.
  \<^item> Goroutines (\<open>HubConcurrency\<close>): a handler that runs alone does what its one-step model
    says; relays that run at the same time leave in every queue an interleaving of what each owes, with
    nothing lost or doubled; all buffers stay bounded under every schedule.
  \<^item> Files: streams and chunks round-trip and are authentic, the vault returns what was put up to the first empty chunk, a file
    crosses from member to member byte for byte unless it is empty, nothing is written outside the vault or, by a zip
    archive, outside its directory.
  \<^item> A client on its own (\<open>ClientGuarantees\<close>): its identity persists, pins hold and a changed key
    stops it, its buffers are bounded, its queue file is a queue, its polling of the outbox agrees with a
    reference that keeps no table; and
    \<open>Startup\<close>: a printed ticket leads to the hub.
  \<^item> What the code does against its intention is proved as well, where it is a theorem: the hub can
    derive room keys, overlapping handshakes share a nickname, overlapping saves of the access lists lose a
    ban until the next save, adopting a seed again rewinds, the end of
    a stream is not authenticated, files put through the session are truncated over HTTP, an offer can
    delete a file outside the inbox, a full channel loses queued messages, reactions are never sent.

  \<^bold>\<open>Runs, loops and bounds.\<close> A step of \<open>HubStep\<close> is one handler run to its end. The code's locks
  cover single maps, so handlers of different goroutines can interleave; theorems about runs hold for runs
  whose handlers do not overlap. Blocking, approving, removing and relaying are modelled access by access
  as well, in \<open>HubThreads\<close>, where a schedule lists the goroutines that move; the other handlers take
  part there as one access, and one theorem of \<open>HubProperties\<close> shows what overlapping handshakes can do. Loops over
  lists are structural recursion; loops that consume bytes carry a termination proof. The search for a
  proof of work is a \<open>partial_function\<close> that is shown to return whenever a nonce exists. No fuel is
  used. A download reads the messages that arrive before its deadline, given as a list; its end is the
  timeout. The deadlines, pauses and tick intervals themselves are not modelled.

  \<^bold>\<open>Not modelled.\<close> The embedded Tor process and the SOCKS dialler (third-party code behind cgo; what
  they answer is an argument); the protobuf wire format and the generated accessors (the encoders are
  parameters); the terminal library, scroll positions and markdown; the texts of I/O errors;
  parsing of flags, the usage text, signals and
  \<^verbatim>\<open>logx\<close>; floats beyond the non-negative ones of the monitor.
\<close>

end
